theory Spec2Isabelle
  imports Main "HOL-Library.Word" "HOL-Library.Monad_Syntax" "HOL-Library.Product_Lexorder"
begin

unbundle bit_operations_syntax

section \<open>Data model of the emulator context (peanut\_gb.h)\<close>

type_synonym u8 = "8 word"
type_synonym u16 = "16 word"

text \<open>
  \<^verbatim>\<open>struct cpu_registers_s\<close>: the register pairs are stored as one 16-bit value each
  (the source overlays them with two bytes in a union); \<open>f\<close> is the flag byte
  \<^verbatim>\<open>f.reg\<close>.
\<close>

record cpu_registers_s =
  f :: u8
  a :: u8
  bc :: u16
  de :: u16
  hl :: u16
  sp :: u16
  pc :: u16

text \<open>
  \<^verbatim>\<open>struct count_s\<close>. The fields are \<^verbatim>\<open>uint_fast16_t\<close> and \<^verbatim>\<open>uint_fast32_t\<close>, whose
  width depends on the platform (at least 16 and 32 bits); they are modelled as
  natural numbers.
\<close>

record count_s =
  lcd_count :: nat
  div_count :: nat
  tima_count :: nat
  serial_count :: nat
  rtc_count :: nat
  lcd_off_count :: nat

text \<open>
  \<^verbatim>\<open>union cart_rtc\<close>: the five registers; the view \<^verbatim>\<open>bytes[5]\<close> of the union is given by
  \<open>rtc_get_byte\<close> and \<open>rtc_set_byte\<close> below. The field \<^verbatim>\<open>min\<close> is called \<open>min_r\<close>.
\<close>

record cart_rtc =
  sec :: u8
  min_r :: u8
  hour :: u8
  yday :: u8
  high :: u8

record display_s =
  lcd_draw_line :: bool  \<comment> \<open>whether the callback pointer is not NULL\<close>
  bg_palette :: "nat \<Rightarrow> u8"
  sp_palette :: "nat \<Rightarrow> u8"
  window_clear :: u8
  WY :: u8
  frame_skip_count :: bool
  interlace_count :: bool

record direct_s =
  interlace :: bool
  frame_skip :: bool
  joypad :: u8

text \<open>
  \<^verbatim>\<open>struct gb_s\<close>. The callback \<^verbatim>\<open>gb_rom_read\<close> is the ROM image as a function of the
  address. The callbacks \<^verbatim>\<open>gb_cart_ram_read\<close> and \<^verbatim>\<open>gb_cart_ram_write\<close> are modelled
  by the byte array \<open>cart_ram_store\<close> that the front end keeps behind them (as
  examples/sdl2/peanut\_sdl.c does). \<open>gb_bootrom_read\<close> is \<open>None\<close> for a NULL pointer.
  The arrays \<^verbatim>\<open>wram\<close>, \<^verbatim>\<open>vram\<close>, \<^verbatim>\<open>oam\<close> and \<^verbatim>\<open>hram_io\<close> are functions of the index;
  every index computed by the address decoding below is inside the array.
\<close>

record gb_s =
  gb_rom_read :: "nat \<Rightarrow> u8"
  cart_ram_store :: "nat \<Rightarrow> u8"
  gb_bootrom_read :: "(nat \<Rightarrow> u8) option"
  gb_halt :: bool
  gb_ime :: bool
  gb_frame :: bool
  lcd_blank :: bool
  cart_is_mbc3O :: bool
  mbc :: int
  cart_ram :: u8
  num_rom_banks_mask :: u16
  num_ram_banks :: u8
  selected_rom_bank :: u16
  cart_ram_bank :: u8
  enable_cart_ram :: u8
  cart_mode_select :: u8
  rtc_latched :: cart_rtc
  rtc_real :: cart_rtc
  cpu_reg :: cpu_registers_s
  counter :: count_s
  wram :: "nat \<Rightarrow> u8"
  vram :: "nat \<Rightarrow> u8"
  oam :: "nat \<Rightarrow> u8"
  hram_io :: "nat \<Rightarrow> u8"
  display :: display_s
  direct :: direct_s

subsection \<open>Constants\<close>

abbreviation (input) VBLANK_INTR :: u8 where "VBLANK_INTR \<equiv> 0x01"
abbreviation (input) LCDC_INTR :: u8 where "LCDC_INTR \<equiv> 0x02"
abbreviation (input) TIMER_INTR :: u8 where "TIMER_INTR \<equiv> 0x04"
abbreviation (input) SERIAL_INTR :: u8 where "SERIAL_INTR \<equiv> 0x08"
abbreviation (input) CONTROL_INTR :: u8 where "CONTROL_INTR \<equiv> 0x10"
abbreviation (input) ANY_INTR :: u8 where "ANY_INTR \<equiv> 0x1F"

abbreviation (input) OAM_SIZE :: nat where "OAM_SIZE \<equiv> 0xA0"

abbreviation (input) ROM_N_ADDR :: nat where "ROM_N_ADDR \<equiv> 0x4000"
abbreviation (input) VRAM_ADDR :: nat where "VRAM_ADDR \<equiv> 0x8000"
abbreviation (input) CART_RAM_ADDR :: nat where "CART_RAM_ADDR \<equiv> 0xA000"
abbreviation (input) WRAM_0_ADDR :: nat where "WRAM_0_ADDR \<equiv> 0xC000"
abbreviation (input) WRAM_1_ADDR :: nat where "WRAM_1_ADDR \<equiv> 0xD000"
abbreviation (input) ECHO_ADDR :: nat where "ECHO_ADDR \<equiv> 0xE000"
abbreviation (input) OAM_ADDR :: nat where "OAM_ADDR \<equiv> 0xFE00"
abbreviation (input) UNUSED_ADDR :: nat where "UNUSED_ADDR \<equiv> 0xFEA0"
abbreviation (input) IO_ADDR :: nat where "IO_ADDR \<equiv> 0xFF00"
abbreviation (input) HRAM_ADDR :: nat where "HRAM_ADDR \<equiv> 0xFF80"
abbreviation (input) INTR_EN_ADDR :: nat where "INTR_EN_ADDR \<equiv> 0xFFFF"

abbreviation (input) ROM_BANK_SIZE :: int where "ROM_BANK_SIZE \<equiv> 0x4000"
abbreviation (input) WRAM_BANK_SIZE :: nat where "WRAM_BANK_SIZE \<equiv> 0x1000"
abbreviation (input) CRAM_BANK_SIZE :: nat where "CRAM_BANK_SIZE \<equiv> 0x2000"

abbreviation (input) DIV_CYCLES :: nat where "DIV_CYCLES \<equiv> 256"
abbreviation (input) SERIAL_CYCLES :: nat where "SERIAL_CYCLES \<equiv> 4096"
abbreviation (input) RTC_CYCLES :: nat where "RTC_CYCLES \<equiv> 4194304"

abbreviation (input) SERIAL_SC_TX_START :: u8 where "SERIAL_SC_TX_START \<equiv> 0x80"
abbreviation (input) SERIAL_SC_CLOCK_SRC :: u8 where "SERIAL_SC_CLOCK_SRC \<equiv> 0x01"

abbreviation (input) STAT_LYC_INTR :: u8 where "STAT_LYC_INTR \<equiv> 0x40"
abbreviation (input) STAT_MODE_2_INTR :: u8 where "STAT_MODE_2_INTR \<equiv> 0x20"
abbreviation (input) STAT_MODE_1_INTR :: u8 where "STAT_MODE_1_INTR \<equiv> 0x10"
abbreviation (input) STAT_MODE_0_INTR :: u8 where "STAT_MODE_0_INTR \<equiv> 0x08"
abbreviation (input) STAT_LYC_COINC :: u8 where "STAT_LYC_COINC \<equiv> 0x04"
abbreviation (input) STAT_MODE :: u8 where "STAT_MODE \<equiv> 0x03"
abbreviation (input) STAT_USER_BITS :: u8 where "STAT_USER_BITS \<equiv> 0xF8"

abbreviation (input) LCDC_ENABLE :: u8 where "LCDC_ENABLE \<equiv> 0x80"
abbreviation (input) LCDC_WINDOW_ENABLE :: u8 where "LCDC_WINDOW_ENABLE \<equiv> 0x20"
abbreviation (input) LCDC_OBJ_SIZE :: u8 where "LCDC_OBJ_SIZE \<equiv> 0x04"

abbreviation (input) LCD_VERT_LINES :: u8 where "LCD_VERT_LINES \<equiv> 154"
abbreviation (input) LCD_HEIGHT :: u8 where "LCD_HEIGHT \<equiv> 144"
abbreviation (input) LCD_LINE_CYCLES :: nat where "LCD_LINE_CYCLES \<equiv> 456"
abbreviation (input) LCD_MODE0_HBLANK_MAX_DRUATION :: nat where "LCD_MODE0_HBLANK_MAX_DRUATION \<equiv> 204"
abbreviation (input) LCD_MODE2_OAM_SCAN_DURATION :: nat where "LCD_MODE2_OAM_SCAN_DURATION \<equiv> 80"
abbreviation (input) LCD_MODE3_LCD_DRAW_MIN_DURATION :: nat where "LCD_MODE3_LCD_DRAW_MIN_DURATION \<equiv> 172"
abbreviation (input) LCD_FRAME_CYCLES :: nat where "LCD_FRAME_CYCLES \<equiv> 456 * 154"
abbreviation (input) LCD_MODE2_OAM_SCAN_END :: nat where "LCD_MODE2_OAM_SCAN_END \<equiv> 80"
abbreviation (input) LCD_MODE3_LCD_DRAW_END :: nat where "LCD_MODE3_LCD_DRAW_END \<equiv> 80 + 172"

abbreviation (input) VBLANK_INTR_ADDR :: u16 where "VBLANK_INTR_ADDR \<equiv> 0x0040"
abbreviation (input) LCDC_INTR_ADDR :: u16 where "LCDC_INTR_ADDR \<equiv> 0x0048"
abbreviation (input) TIMER_INTR_ADDR :: u16 where "TIMER_INTR_ADDR \<equiv> 0x0050"
abbreviation (input) SERIAL_INTR_ADDR :: u16 where "SERIAL_INTR_ADDR \<equiv> 0x0058"
abbreviation (input) CONTROL_INTR_ADDR :: u16 where "CONTROL_INTR_ADDR \<equiv> 0x0060"

abbreviation (input) NUM_SPRITES :: nat where "NUM_SPRITES \<equiv> 0x28"
abbreviation (input) MAX_SPRITES_LINE :: nat where "MAX_SPRITES_LINE \<equiv> 0x0A"

abbreviation (input) ROM_HEADER_CHECKSUM_LOC :: nat where "ROM_HEADER_CHECKSUM_LOC \<equiv> 0x014D"

abbreviation (input) IO_JOYP :: nat where "IO_JOYP \<equiv> 0x00"
abbreviation (input) IO_SB :: nat where "IO_SB \<equiv> 0x01"
abbreviation (input) IO_SC :: nat where "IO_SC \<equiv> 0x02"
abbreviation (input) IO_DIV :: nat where "IO_DIV \<equiv> 0x04"
abbreviation (input) IO_TIMA :: nat where "IO_TIMA \<equiv> 0x05"
abbreviation (input) IO_TMA :: nat where "IO_TMA \<equiv> 0x06"
abbreviation (input) IO_TAC :: nat where "IO_TAC \<equiv> 0x07"
abbreviation (input) IO_IF :: nat where "IO_IF \<equiv> 0x0F"
abbreviation (input) IO_LCDC :: nat where "IO_LCDC \<equiv> 0x40"
abbreviation (input) IO_STAT :: nat where "IO_STAT \<equiv> 0x41"
abbreviation (input) IO_SCY :: nat where "IO_SCY \<equiv> 0x42"
abbreviation (input) IO_SCX :: nat where "IO_SCX \<equiv> 0x43"
abbreviation (input) IO_LY :: nat where "IO_LY \<equiv> 0x44"
abbreviation (input) IO_LYC :: nat where "IO_LYC \<equiv> 0x45"
abbreviation (input) IO_DMA :: nat where "IO_DMA \<equiv> 0x46"
abbreviation (input) IO_BGP :: nat where "IO_BGP \<equiv> 0x47"
abbreviation (input) IO_OBP0 :: nat where "IO_OBP0 \<equiv> 0x48"
abbreviation (input) IO_OBP1 :: nat where "IO_OBP1 \<equiv> 0x49"
abbreviation (input) IO_WY :: nat where "IO_WY \<equiv> 0x4A"
abbreviation (input) IO_WX :: nat where "IO_WX \<equiv> 0x4B"
abbreviation (input) IO_BOOT :: nat where "IO_BOOT \<equiv> 0x50"
abbreviation (input) IO_IE :: nat where "IO_IE \<equiv> 0xFF"

abbreviation (input) IO_TAC_RATE_MASK :: u8 where "IO_TAC_RATE_MASK \<equiv> 0x3"
abbreviation (input) IO_TAC_ENABLE_MASK :: u8 where "IO_TAC_ENABLE_MASK \<equiv> 0x4"

abbreviation (input) IO_STAT_MODE_HBLANK :: u8 where "IO_STAT_MODE_HBLANK \<equiv> 0"
abbreviation (input) IO_STAT_MODE_VBLANK :: u8 where "IO_STAT_MODE_VBLANK \<equiv> 1"
abbreviation (input) IO_STAT_MODE_OAM_SCAN :: u8 where "IO_STAT_MODE_OAM_SCAN \<equiv> 2"
abbreviation (input) IO_STAT_MODE_LCD_DRAW :: u8 where "IO_STAT_MODE_LCD_DRAW \<equiv> 3"

text \<open>\<^verbatim>\<open>PEANUT_GB_GET_MSN16(x)\<close> is \<^verbatim>\<open>x >> 12\<close>, \<^verbatim>\<open>PEANUT_GB_GET_LSB16(x)\<close> is \<^verbatim>\<open>x & 0xFF\<close>.\<close>

definition GET_MSN16 :: "u16 \<Rightarrow> nat" where
  "GET_MSN16 x = unat (drop_bit 12 x)"

definition GET_LSB16 :: "u16 \<Rightarrow> nat" where
  "GET_LSB16 x = unat (x AND 0xFF)"

subsection \<open>The byte view of the RTC union\<close>

text \<open>
  \<^verbatim>\<open>bytes[i]\<close> of \<^verbatim>\<open>union cart_rtc\<close>. An index above 4 is outside the array: the
  source has undefined behaviour there, the model returns \<open>None\<close>.
\<close>

definition rtc_get_byte :: "cart_rtc \<Rightarrow> nat \<Rightarrow> u8 option" where
  "rtc_get_byte r i =
     (if i = 0 then Some (sec r)
      else if i = 1 then Some (min_r r)
      else if i = 2 then Some (hour r)
      else if i = 3 then Some (yday r)
      else if i = 4 then Some (high r)
      else None)"

definition rtc_set_byte :: "cart_rtc \<Rightarrow> nat \<Rightarrow> u8 \<Rightarrow> cart_rtc option" where
  "rtc_set_byte r i v =
     (if i = 0 then Some (r\<lparr>sec := v\<rparr>)
      else if i = 1 then Some (r\<lparr>min_r := v\<rparr>)
      else if i = 2 then Some (r\<lparr>hour := v\<rparr>)
      else if i = 3 then Some (r\<lparr>yday := v\<rparr>)
      else if i = 4 then Some (r\<lparr>high := v\<rparr>)
      else None)"

section \<open>Memory map: \<^verbatim>\<open>__gb_read\<close>\<close>

text \<open>
  The table \<^verbatim>\<open>ortab\<close> of the read of an audio register (\<^verbatim>\<open>ENABLE_SOUND\<close> is 0). The
  source indexes it with \<^verbatim>\<open>addr - IO_ADDR\<close>.
\<close>

definition ortab :: "u8 list" where
  "ortab =
     [0x80, 0x3f, 0x00, 0xff, 0xbf,
      0xff, 0x3f, 0x00, 0xff, 0xbf,
      0x7f, 0xff, 0x9f, 0xff, 0xbf,
      0xff, 0xff, 0x00, 0x00, 0xbf,
      0x00, 0x00, 0x70,
      0xff, 0xff, 0xff, 0xff, 0xff, 0xff, 0xff, 0xff, 0xff,
      0x00, 0x00, 0x00, 0x00, 0x00, 0x00, 0x00, 0x00,
      0x00, 0x00, 0x00, 0x00, 0x00, 0x00, 0x00, 0x00]"

text \<open>
  Cases \<^verbatim>\<open>0xA\<close> and \<^verbatim>\<open>0xB\<close> of \<^verbatim>\<open>__gb_read\<close>: an RTC register of the latched copy, or
  cart RAM.
\<close>

definition gb_read_cart_ram :: "gb_s \<Rightarrow> u16 \<Rightarrow> u8 option" where
  "gb_read_cart_ram gb addr =
     (if mbc gb = 3 \<and> cart_ram_bank gb \<ge> 0x08 then
        rtc_get_byte (rtc_latched gb) (unat (cart_ram_bank gb) - 0x08)
      else if cart_ram gb \<noteq> 0 \<and> enable_cart_ram gb \<noteq> 0 then
        (if mbc gb = 2 then
           Some (cart_ram_store gb (unat (addr AND 0x1FF)))
         else if (cart_mode_select gb \<noteq> 0 \<or> mbc gb \<noteq> 1) \<and>
                 cart_ram_bank gb < num_ram_banks gb then
           Some (cart_ram_store gb
                  (unat addr - CART_RAM_ADDR + unat (cart_ram_bank gb) * CRAM_BANK_SIZE))
         else
           Some (cart_ram_store gb (unat addr - CART_RAM_ADDR)))
      else Some 0xFF)"

text \<open>Case \<^verbatim>\<open>0xF\<close> of \<^verbatim>\<open>__gb_read\<close>.\<close>

definition gb_read_high :: "gb_s \<Rightarrow> u16 \<Rightarrow> u8 option" where
  "gb_read_high gb addr =
     (let n = unat addr in
      if n < OAM_ADDR then Some (wram gb (n - ECHO_ADDR))
      else if n < UNUSED_ADDR then Some (oam gb (n - OAM_ADDR))
      else if n < IO_ADDR then Some 0xFF
      else if n \<ge> 0xFF10 \<and> n \<le> 0xFF3F then
        (if n - IO_ADDR < length ortab
         then Some (hram_io gb (n - IO_ADDR) OR ortab ! (n - IO_ADDR))
         else None)
      else if n \<ge> IO_ADDR then Some (hram_io gb (n - IO_ADDR))
      else None)"

text \<open>
  \<^verbatim>\<open>__gb_read\<close>. The result is \<open>None\<close> where the source calls a NULL boot ROM
  callback, reads outside an array, or reports \<^verbatim>\<open>GB_INVALID_READ\<close>. The ROM address
  is computed in \<^verbatim>\<open>int\<close> (integer promotion) and is never negative, since
  \<^verbatim>\<open>addr >= 0x4000\<close> in that case.
\<close>

definition gb_read :: "gb_s \<Rightarrow> u16 \<Rightarrow> u8 option" where
  "gb_read gb addr =
     (let msn = GET_MSN16 addr in
      if msn = 0x0 \<and> hram_io gb IO_BOOT = 0 \<and> unat addr < 0x0100 then
        (case gb_bootrom_read gb of None \<Rightarrow> None | Some rd \<Rightarrow> Some (rd (unat addr)))
      else if msn = 0x0 \<or> msn = 0x1 \<or> msn = 0x2 \<or> msn = 0x3 then
        Some (gb_rom_read gb (unat addr))
      else if msn = 0x4 \<or> msn = 0x5 \<or> msn = 0x6 \<or> msn = 0x7 then
        (if mbc gb = 1 \<and> cart_mode_select gb \<noteq> 0 then
           Some (gb_rom_read gb
                  (nat (uint addr + (uint (selected_rom_bank gb AND 0x1F) - 1) * ROM_BANK_SIZE)))
         else
           Some (gb_rom_read gb
                  (nat (uint addr + (uint (selected_rom_bank gb) - 1) * ROM_BANK_SIZE))))
      else if msn = 0x8 \<or> msn = 0x9 then
        Some (vram gb (unat addr - VRAM_ADDR))
      else if msn = 0xA \<or> msn = 0xB then
        gb_read_cart_ram gb addr
      else if msn = 0xC \<or> msn = 0xD then
        Some (wram gb (unat addr - WRAM_0_ADDR))
      else if msn = 0xE then
        Some (wram gb (unat addr - ECHO_ADDR))
      else if msn = 0xF then
        gb_read_high gb addr
      else None)"

section \<open>Memory map: \<^verbatim>\<open>__gb_write\<close>\<close>

text \<open>
  Case \<^verbatim>\<open>0x3\<close> of \<^verbatim>\<open>__gb_write\<close> (ROM bank number), which the cases \<^verbatim>\<open>0x0\<close> to
  \<^verbatim>\<open>0x2\<close> fall through to.
\<close>

definition gb_write_case3 :: "gb_s \<Rightarrow> u16 \<Rightarrow> u8 \<Rightarrow> gb_s" where
  "gb_write_case3 gb addr val =
     (if mbc gb = 1 then
        (let b = (ucast val AND 0x1F) OR (selected_rom_bank gb AND 0x60);
             b' = (if b AND 0x1F = 0x00 then b + 1 else b)
         in gb\<lparr>selected_rom_bank := b' AND num_rom_banks_mask gb\<rparr>)
      else if mbc gb = 2 then
        (if addr AND 0x100 \<noteq> 0 then
           (let b = ucast val AND 0x0F;
                b' = (if b = 0 then b + 1 else b)
            in gb\<lparr>selected_rom_bank := b' AND num_rom_banks_mask gb\<rparr>)
         else
           gb\<lparr>enable_cart_ram := (if val AND 0x0F = 0x0A then 1 else 0)\<rparr>)
      else if mbc gb = 3 then
        (let b = (if \<not> cart_is_mbc3O gb then ucast (val AND 0x7F) else ucast val);
             b' = (if b = 0 then b + 1 else b)
         in gb\<lparr>selected_rom_bank := b' AND num_rom_banks_mask gb\<rparr>)
      else if mbc gb = 5 then
        gb\<lparr>selected_rom_bank :=
             (push_bit 8 (ucast val AND 0x01) OR (selected_rom_bank gb AND 0xFF))
               AND num_rom_banks_mask gb\<rparr>
      else
        gb\<lparr>selected_rom_bank := selected_rom_bank gb AND num_rom_banks_mask gb\<rparr>)"

definition gb_write_case2 :: "gb_s \<Rightarrow> u16 \<Rightarrow> u8 \<Rightarrow> gb_s" where
  "gb_write_case2 gb addr val =
     (if mbc gb = 5 then
        gb\<lparr>selected_rom_bank :=
             ((selected_rom_bank gb AND 0x100) OR ucast val) AND num_rom_banks_mask gb\<rparr>
      else gb_write_case3 gb addr val)"

definition gb_write_case01 :: "gb_s \<Rightarrow> u16 \<Rightarrow> u8 \<Rightarrow> gb_s" where
  "gb_write_case01 gb addr val =
     (if mbc gb > 0 \<and> mbc gb \<noteq> 2 \<and> cart_ram gb \<noteq> 0 then
        gb\<lparr>enable_cart_ram := (if val AND 0x0F = 0x0A then 1 else 0)\<rparr>
      else gb_write_case2 gb addr val)"

text \<open>Cases \<^verbatim>\<open>0x4\<close> and \<^verbatim>\<open>0x5\<close>: RAM bank number, or RTC register select.\<close>

definition gb_write_case45 :: "gb_s \<Rightarrow> u8 \<Rightarrow> gb_s" where
  "gb_write_case45 gb val =
     (if mbc gb = 1 then
        gb\<lparr>cart_ram_bank := val AND 3,
           selected_rom_bank :=
             (push_bit 5 (ucast (val AND 3)) OR (selected_rom_bank gb AND 0x1F))
               AND num_rom_banks_mask gb\<rparr>
      else if mbc gb = 3 then
        gb\<lparr>cart_ram_bank :=
             (if \<not> cart_is_mbc3O gb \<and> val < 0x8 then val AND 0x3 else val)\<rparr>
      else if mbc gb = 5 then
        gb\<lparr>cart_ram_bank := val AND 0x0F\<rparr>
      else gb)"

text \<open>
  Cases \<^verbatim>\<open>0x6\<close> and \<^verbatim>\<open>0x7\<close>: banking mode select; on MBC3 a change from 0 to 1 copies
  the real RTC registers to the latched ones (\<^verbatim>\<open>memcpy\<close>).
\<close>

definition gb_write_case67 :: "gb_s \<Rightarrow> u8 \<Rightarrow> gb_s" where
  "gb_write_case67 gb val0 =
     (let val = val0 AND 1;
          gb1 = (if mbc gb = 3 \<and> val \<noteq> 0 \<and> cart_mode_select gb = 0
                 then gb\<lparr>rtc_latched := rtc_real gb\<rparr> else gb)
      in gb1\<lparr>cart_mode_select := val\<rparr>)"

definition rtc_reg_mask :: "u8 list" where
  "rtc_reg_mask = [0x3F, 0x3F, 0x1F, 0xFF, 0xC1]"

text \<open>
  Cases \<^verbatim>\<open>0xA\<close> and \<^verbatim>\<open>0xB\<close>: an RTC register of the real clock, or cart RAM. With
  \<^verbatim>\<open>cart_ram_bank > 0x0C\<close> the source indexes both five-element arrays out of
  range: \<open>None\<close>.
\<close>

definition gb_write_cart_ram :: "gb_s \<Rightarrow> u16 \<Rightarrow> u8 \<Rightarrow> gb_s option" where
  "gb_write_cart_ram gb addr val =
     (if mbc gb = 3 \<and> cart_ram_bank gb \<ge> 0x08 then
        (let reg = unat (cart_ram_bank gb - 0x08) in
         if reg < length rtc_reg_mask then
           map_option (\<lambda>r. gb\<lparr>rtc_real := r\<rparr>)
             (rtc_set_byte (rtc_real gb) reg (val AND rtc_reg_mask ! reg))
         else None)
      else if cart_ram gb \<noteq> 0 \<and> enable_cart_ram gb \<noteq> 0 then
        (if mbc gb = 2 then
           Some (gb\<lparr>cart_ram_store :=
                   (cart_ram_store gb)(unat (addr AND 0x1FF) := (val AND 0x0F) OR 0xF0)\<rparr>)
         else if ((mbc gb = 1 \<and> cart_mode_select gb \<noteq> 0) \<or> mbc gb \<noteq> 1) \<and>
                 cart_ram_bank gb < num_ram_banks gb then
           Some (gb\<lparr>cart_ram_store :=
                   (cart_ram_store gb)
                     (unat addr - CART_RAM_ADDR + unat (cart_ram_bank gb) * CRAM_BANK_SIZE
                        := val)\<rparr>)
         else if num_ram_banks gb \<noteq> 0 then
           Some (gb\<lparr>cart_ram_store := (cart_ram_store gb)(unat addr - CART_RAM_ADDR := val)\<rparr>)
         else Some gb)
      else Some gb)"

text \<open>
  The DMA loop \<^verbatim>\<open>for(i = 0; i < OAM_SIZE; i++) gb->oam[i] = __gb_read(gb, dma_addr + i)\<close>.
\<close>

function dma_copy :: "gb_s \<Rightarrow> u16 \<Rightarrow> nat \<Rightarrow> gb_s option" where
  "dma_copy gb dma_addr i =
     (if i < OAM_SIZE then
        (case gb_read gb (dma_addr + of_nat i) of
           None \<Rightarrow> None
         | Some v \<Rightarrow> dma_copy (gb\<lparr>oam := (oam gb)(i := v)\<rparr>) dma_addr (i + 1))
      else Some gb)"
  by pat_completeness auto
termination
  by (relation "measure (\<lambda>(gb, dma_addr, i). OAM_SIZE - i)") auto

declare dma_copy.simps [simp del]

text \<open>The inner \<^verbatim>\<open>switch(PEANUT_GB_GET_LSB16(addr))\<close> of case \<^verbatim>\<open>0xF\<close>: I/O registers.\<close>

definition gb_write_io :: "gb_s \<Rightarrow> u16 \<Rightarrow> u8 \<Rightarrow> gb_s option" where
  "gb_write_io gb addr val =
     (let lsb = GET_LSB16 addr; io = hram_io gb in
      if lsb = 0x00 then
        Some (gb\<lparr>hram_io := io(IO_JOYP :=
                (if val AND 0x10 = 0 then val OR drop_bit 4 (joypad (direct gb))
                 else val OR (joypad (direct gb) AND 0x0F)))\<rparr>)
      else if lsb = 0x01 then Some (gb\<lparr>hram_io := io(IO_SB := val)\<rparr>)
      else if lsb = 0x02 then Some (gb\<lparr>hram_io := io(IO_SC := val)\<rparr>)
      else if lsb = 0x04 then Some (gb\<lparr>hram_io := io(IO_DIV := 0x00)\<rparr>)
      else if lsb = 0x05 then Some (gb\<lparr>hram_io := io(IO_TIMA := val)\<rparr>)
      else if lsb = 0x06 then Some (gb\<lparr>hram_io := io(IO_TMA := val)\<rparr>)
      else if lsb = 0x07 then Some (gb\<lparr>hram_io := io(IO_TAC := val)\<rparr>)
      else if lsb = 0x0F then Some (gb\<lparr>hram_io := io(IO_IF := val OR 0xE0)\<rparr>)
      else if lsb = 0x40 then
        (let lcd_enabled = io IO_LCDC AND LCDC_ENABLE;
             gb1 = gb\<lparr>hram_io := io(IO_LCDC := val)\<rparr>
         in if lcd_enabled = 0 \<and> val AND LCDC_ENABLE \<noteq> 0 then
              Some (gb1\<lparr>lcd_blank := True\<rparr>)
            else if lcd_enabled \<noteq> 0 \<and> val AND LCDC_ENABLE = 0 then
              Some (gb1\<lparr>hram_io := (hram_io gb1)
                           (IO_STAT := (hram_io gb1 IO_STAT AND NOT STAT_MODE)
                                         OR IO_STAT_MODE_HBLANK,
                            IO_LY := 0),
                        counter := (counter gb1)
                           \<lparr>lcd_off_count :=
                              lcd_off_count (counter gb1) + lcd_count (counter gb1),
                            lcd_count := 0\<rparr>\<rparr>)
            else Some gb1)
      else if lsb = 0x41 then
        Some (gb\<lparr>hram_io := io(IO_STAT :=
                (val AND STAT_USER_BITS) OR (io IO_STAT AND STAT_MODE) OR 0x80)\<rparr>)
      else if lsb = 0x42 then Some (gb\<lparr>hram_io := io(IO_SCY := val)\<rparr>)
      else if lsb = 0x43 then Some (gb\<lparr>hram_io := io(IO_SCX := val)\<rparr>)
      else if lsb = 0x45 then Some (gb\<lparr>hram_io := io(IO_LYC := val)\<rparr>)
      else if lsb = 0x46 then
        dma_copy (gb\<lparr>hram_io := io(IO_DMA := val)\<rparr>) (push_bit 8 (ucast val)) 0
      else if lsb = 0x47 then
        Some (gb\<lparr>hram_io := io(IO_BGP := val),
                 display := (display gb)\<lparr>bg_palette := (bg_palette (display gb))
                    (0 := val AND 0x03,
                     1 := drop_bit 2 val AND 0x03,
                     2 := drop_bit 4 val AND 0x03,
                     3 := drop_bit 6 val AND 0x03)\<rparr>\<rparr>)
      else if lsb = 0x48 then
        Some (gb\<lparr>hram_io := io(IO_OBP0 := val),
                 display := (display gb)\<lparr>sp_palette := (sp_palette (display gb))
                    (0 := val AND 0x03,
                     1 := drop_bit 2 val AND 0x03,
                     2 := drop_bit 4 val AND 0x03,
                     3 := drop_bit 6 val AND 0x03)\<rparr>\<rparr>)
      else if lsb = 0x49 then
        Some (gb\<lparr>hram_io := io(IO_OBP1 := val),
                 display := (display gb)\<lparr>sp_palette := (sp_palette (display gb))
                    (4 := val AND 0x03,
                     5 := drop_bit 2 val AND 0x03,
                     6 := drop_bit 4 val AND 0x03,
                     7 := drop_bit 6 val AND 0x03)\<rparr>\<rparr>)
      else if lsb = 0x4A then Some (gb\<lparr>hram_io := io(IO_WY := val)\<rparr>)
      else if lsb = 0x4B then Some (gb\<lparr>hram_io := io(IO_WX := val)\<rparr>)
      else if lsb = 0x50 then Some (gb\<lparr>hram_io := io(IO_BOOT := 0x01)\<rparr>)
      else if lsb = 0xFF then Some (gb\<lparr>hram_io := io(IO_IE := val)\<rparr>)
      else Some gb)"

text \<open>Case \<^verbatim>\<open>0xF\<close> of \<^verbatim>\<open>__gb_write\<close>.\<close>

definition gb_write_high :: "gb_s \<Rightarrow> u16 \<Rightarrow> u8 \<Rightarrow> gb_s option" where
  "gb_write_high gb addr val =
     (let n = unat addr in
      if n < OAM_ADDR then Some (gb\<lparr>wram := (wram gb)(n - ECHO_ADDR := val)\<rparr>)
      else if n < UNUSED_ADDR then Some (gb\<lparr>oam := (oam gb)(n - OAM_ADDR := val)\<rparr>)
      else if n < IO_ADDR then Some gb
      else if HRAM_ADDR \<le> n \<and> n < INTR_EN_ADDR then
        Some (gb\<lparr>hram_io := (hram_io gb)(n - IO_ADDR := val)\<rparr>)
      else if n \<ge> 0xFF10 \<and> n \<le> 0xFF3F then
        Some (gb\<lparr>hram_io := (hram_io gb)(n - IO_ADDR := val)\<rparr>)
      else gb_write_io gb addr val)"

text \<open>
  \<^verbatim>\<open>__gb_write\<close>. Every caller passes a 16-bit address. The result is \<open>None\<close> where
  the source has undefined behaviour (an RTC index out of range, a failing read
  during DMA).
\<close>

definition gb_write :: "gb_s \<Rightarrow> u16 \<Rightarrow> u8 \<Rightarrow> gb_s option" where
  "gb_write gb addr val =
     (let msn = GET_MSN16 addr in
      if msn = 0x0 \<or> msn = 0x1 then Some (gb_write_case01 gb addr val)
      else if msn = 0x2 then Some (gb_write_case2 gb addr val)
      else if msn = 0x3 then Some (gb_write_case3 gb addr val)
      else if msn = 0x4 \<or> msn = 0x5 then Some (gb_write_case45 gb val)
      else if msn = 0x6 \<or> msn = 0x7 then Some (gb_write_case67 gb val)
      else if msn = 0x8 \<or> msn = 0x9 then
        Some (gb\<lparr>vram := (vram gb)(unat addr - VRAM_ADDR := val)\<rparr>)
      else if msn = 0xA \<or> msn = 0xB then gb_write_cart_ram gb addr val
      else if msn = 0xC then
        Some (gb\<lparr>wram := (wram gb)(unat addr - WRAM_0_ADDR := val)\<rparr>)
      else if msn = 0xD then
        Some (gb\<lparr>wram := (wram gb)(unat addr - WRAM_1_ADDR + WRAM_BANK_SIZE := val)\<rparr>)
      else if msn = 0xE then
        Some (gb\<lparr>wram := (wram gb)(unat addr - ECHO_ADDR := val)\<rparr>)
      else if msn = 0xF then gb_write_high gb addr val
      else Some gb)"

section \<open>Interrupt service at the top of \<^verbatim>\<open>__gb_step_cpu\<close>\<close>

text \<open>
  The chain of \<^verbatim>\<open>if\<close>/\<^verbatim>\<open>else if\<close> that selects the interrupt vector. \<^verbatim>\<open>IF\<close> and \<^verbatim>\<open>IE\<close>
  are read from \<^verbatim>\<open>hram_io\<close> after the program counter has been pushed.
\<close>

definition gb_call_interrupt_handler :: "gb_s \<Rightarrow> gb_s" where
  "gb_call_interrupt_handler gb =
     (let pending = hram_io gb IO_IF AND hram_io gb IO_IE in
      if pending AND VBLANK_INTR \<noteq> 0 then
        gb\<lparr>cpu_reg := (cpu_reg gb)\<lparr>pc := VBLANK_INTR_ADDR\<rparr>,
           hram_io := (hram_io gb)(IO_IF := hram_io gb IO_IF XOR VBLANK_INTR)\<rparr>
      else if pending AND LCDC_INTR \<noteq> 0 then
        gb\<lparr>cpu_reg := (cpu_reg gb)\<lparr>pc := LCDC_INTR_ADDR\<rparr>,
           hram_io := (hram_io gb)(IO_IF := hram_io gb IO_IF XOR LCDC_INTR)\<rparr>
      else if pending AND TIMER_INTR \<noteq> 0 then
        gb\<lparr>cpu_reg := (cpu_reg gb)\<lparr>pc := TIMER_INTR_ADDR\<rparr>,
           hram_io := (hram_io gb)(IO_IF := hram_io gb IO_IF XOR TIMER_INTR)\<rparr>
      else if pending AND SERIAL_INTR \<noteq> 0 then
        gb\<lparr>cpu_reg := (cpu_reg gb)\<lparr>pc := SERIAL_INTR_ADDR\<rparr>,
           hram_io := (hram_io gb)(IO_IF := hram_io gb IO_IF XOR SERIAL_INTR)\<rparr>
      else if pending AND CONTROL_INTR \<noteq> 0 then
        gb\<lparr>cpu_reg := (cpu_reg gb)\<lparr>pc := CONTROL_INTR_ADDR\<rparr>,
           hram_io := (hram_io gb)(IO_IF := hram_io gb IO_IF XOR CONTROL_INTR)\<rparr>
      else gb)"

text \<open>\<^verbatim>\<open>__gb_write(gb, --gb->cpu_reg.sp.reg, val)\<close>.\<close>

definition gb_push :: "gb_s \<Rightarrow> u8 \<Rightarrow> gb_s option" where
  "gb_push gb val =
     (let gb1 = gb\<lparr>cpu_reg := (cpu_reg gb)\<lparr>sp := sp (cpu_reg gb) - 1\<rparr>\<rparr>
      in gb_write gb1 (sp (cpu_reg gb1)) val)"

text \<open>
  The \<^verbatim>\<open>while\<close> loop headed \<^verbatim>\<open>Handle interrupts\<close>: every path through its body ends
  in \<^verbatim>\<open>break\<close>, so it runs at most once. \<^verbatim>\<open>pc.bytes.p\<close> is the high byte of the
  program counter and \<^verbatim>\<open>pc.bytes.c\<close> the low byte.
\<close>

definition gb_handle_interrupts :: "gb_s \<Rightarrow> gb_s option" where
  "gb_handle_interrupts gb =
     (if gb_halt gb \<or>
         (gb_ime gb \<and> hram_io gb IO_IF AND hram_io gb IO_IE AND ANY_INTR \<noteq> 0) then
        (let gb1 = gb\<lparr>gb_halt := False\<rparr> in
         if \<not> gb_ime gb1 then Some gb1
         else do {
           let gb2 = gb1\<lparr>gb_ime := False\<rparr>;
           gb3 \<leftarrow> gb_push gb2 (ucast (drop_bit 8 (pc (cpu_reg gb2))));
           gb4 \<leftarrow> gb_push gb3 (ucast (pc (cpu_reg gb3)));
           Some (gb_call_interrupt_handler gb4)
         })
      else Some gb)"

section \<open>Timers, RTC, serial and LCD: the \<^verbatim>\<open>do\<close> loop of \<^verbatim>\<open>__gb_step_cpu\<close>\<close>

text \<open>\<^verbatim>\<open>while(gb->counter.div_count >= DIV_CYCLES)\<close>.\<close>

function div_loop :: "gb_s \<Rightarrow> gb_s" where
  "div_loop gb =
     (if div_count (counter gb) \<ge> DIV_CYCLES then
        div_loop (gb\<lparr>hram_io := (hram_io gb)(IO_DIV := hram_io gb IO_DIV + 1),
                     counter := (counter gb)\<lparr>div_count := div_count (counter gb) - DIV_CYCLES\<rparr>\<rparr>)
      else gb)"
  by pat_completeness auto
termination
  by (relation "measure (\<lambda>gb. div_count (counter gb))") auto

declare div_loop.simps [simp del]

definition gb_div_timing :: "gb_s \<Rightarrow> nat \<Rightarrow> gb_s" where
  "gb_div_timing gb inst_cycles =
     div_loop (gb\<lparr>counter := (counter gb)\<lparr>div_count := div_count (counter gb) + inst_cycles\<rparr>\<rparr>)"

text \<open>
  One pass through the body of \<^verbatim>\<open>while(gb->counter.rtc_count >= RTC_CYCLES)\<close>, after
  \<^verbatim>\<open>rtc_count\<close> has been decreased: one second of the real-time clock.
\<close>

definition rtc_tick :: "cart_rtc \<Rightarrow> cart_rtc" where
  "rtc_tick r =
     (if sec r = 63 then r\<lparr>sec := 0\<rparr>
      else if sec r + 1 \<noteq> 60 then r\<lparr>sec := sec r + 1\<rparr>
      else if min_r r = 63 then r\<lparr>sec := 0, min_r := 0\<rparr>
      else if min_r r + 1 \<noteq> 60 then r\<lparr>sec := 0, min_r := min_r r + 1\<rparr>
      else if hour r = 31 then r\<lparr>sec := 0, min_r := 0, hour := 0\<rparr>
      else if hour r + 1 \<noteq> 24 then r\<lparr>sec := 0, min_r := 0, hour := hour r + 1\<rparr>
      else if yday r + 1 \<noteq> 0 then r\<lparr>sec := 0, min_r := 0, hour := 0, yday := yday r + 1\<rparr>
      else
        (let h = (if high r AND 1 \<noteq> 0 then high r OR 0x80 else high r)
         in r\<lparr>sec := 0, min_r := 0, hour := 0, yday := yday r + 1, high := h XOR 1\<rparr>))"

function rtc_loop :: "gb_s \<Rightarrow> gb_s" where
  "rtc_loop gb =
     (if rtc_count (counter gb) \<ge> RTC_CYCLES then
        rtc_loop (gb\<lparr>counter := (counter gb)\<lparr>rtc_count := rtc_count (counter gb) - RTC_CYCLES\<rparr>,
                     rtc_real := rtc_tick (rtc_real gb)\<rparr>)
      else gb)"
  by pat_completeness auto
termination
  by (relation "measure (\<lambda>gb. rtc_count (counter gb))") auto

declare rtc_loop.simps [simp del]

definition gb_rtc_timing :: "gb_s \<Rightarrow> nat \<Rightarrow> gb_s" where
  "gb_rtc_timing gb inst_cycles =
     (if mbc gb = 3 \<and> high (rtc_real gb) AND 0x40 = 0 then
        rtc_loop (gb\<lparr>counter := (counter gb)\<lparr>rtc_count := rtc_count (counter gb) + inst_cycles\<rparr>\<rparr>)
      else gb)"

text \<open>
  Serial transmission. The argument \<open>rx\<close> is what the front end answers if the
  receive function is called: \<open>Some b\<close> when \<^verbatim>\<open>gb_serial_rx\<close> is installed and returns
  \<^verbatim>\<open>GB_SERIAL_RX_SUCCESS\<close> with the byte \<open>b\<close>, \<open>None\<close> when it is NULL or reports no
  connection. The call of \<^verbatim>\<open>gb_serial_tx\<close> only hands \<^verbatim>\<open>SB\<close> to the front end.
\<close>

definition gb_serial_timing :: "gb_s \<Rightarrow> nat \<Rightarrow> u8 option \<Rightarrow> gb_s" where
  "gb_serial_timing gb inst_cycles rx =
     (if hram_io gb IO_SC AND SERIAL_SC_TX_START \<noteq> 0 then
        (let gb1 = gb\<lparr>counter := (counter gb)
                        \<lparr>serial_count := serial_count (counter gb) + inst_cycles\<rparr>\<rparr>
         in if serial_count (counter gb1) \<ge> SERIAL_CYCLES then
              (let io = hram_io gb1;
                   gb2 = (case rx of
                            Some b \<Rightarrow>
                              gb1\<lparr>hram_io := io(IO_SB := b, IO_SC := io IO_SC AND 0x01,
                                                 IO_IF := io IO_IF OR SERIAL_INTR)\<rparr>
                          | None \<Rightarrow>
                              if io IO_SC AND SERIAL_SC_CLOCK_SRC \<noteq> 0 then
                                gb1\<lparr>hram_io := io(IO_SB := 0xFF, IO_SC := io IO_SC AND 0x01,
                                                   IO_IF := io IO_IF OR SERIAL_INTR)\<rparr>
                              else gb1)
               in gb2\<lparr>counter := (counter gb2)\<lparr>serial_count := 0\<rparr>\<rparr>)
            else gb1)
      else gb)"

definition TAC_CYCLES :: "nat list" where
  "TAC_CYCLES = [1024, 16, 64, 256]"

definition tac_rate :: "gb_s \<Rightarrow> nat" where
  "tac_rate gb = TAC_CYCLES ! unat (hram_io gb IO_TAC AND IO_TAC_RATE_MASK)"

definition tima_step :: "gb_s \<Rightarrow> gb_s" where
  "tima_step gb =
     (let gb1 = gb\<lparr>counter := (counter gb)\<lparr>tima_count := tima_count (counter gb) - tac_rate gb\<rparr>,
                   hram_io := (hram_io gb)(IO_TIMA := hram_io gb IO_TIMA + 1)\<rparr>
      in if hram_io gb1 IO_TIMA = 0 then
           gb1\<lparr>hram_io := (hram_io gb1)(IO_IF := hram_io gb1 IO_IF OR TIMER_INTR,
                                        IO_TIMA := hram_io gb1 IO_TMA)\<rparr>
         else gb1)"

function tima_loop :: "gb_s \<Rightarrow> gb_s" where
  "tima_loop gb =
     (if tima_count (counter gb) \<ge> tac_rate gb then tima_loop (tima_step gb) else gb)"
  by pat_completeness auto
termination
proof (relation "measure (\<lambda>gb. tima_count (counter gb))")
  show "wf (measure (\<lambda>gb. tima_count (counter gb)))" by simp
next
  fix gb :: gb_s
  assume le: "tac_rate gb \<le> tima_count (counter gb)"
  have "unat (hram_io gb IO_TAC AND 3) \<le> unat (3 :: u8)"
    by (rule word_and_le1 [THEN word_le_nat_alt [THEN iffD1]])
  then have "unat (hram_io gb IO_TAC AND 3) \<in> {0, 1, 2, 3}" by auto
  then have pos: "0 < tac_rate gb" by (auto simp: tac_rate_def TAC_CYCLES_def)
  have "tima_count (counter (tima_step gb)) = tima_count (counter gb) - tac_rate gb"
    by (simp add: tima_step_def Let_def)
  with le pos show "(tima_step gb, gb) \<in> measure (\<lambda>gb. tima_count (counter gb))"
    by simp
qed

declare tima_loop.simps [simp del]

definition gb_tima_timing :: "gb_s \<Rightarrow> nat \<Rightarrow> gb_s" where
  "gb_tima_timing gb inst_cycles =
     (if hram_io gb IO_TAC AND IO_TAC_ENABLE_MASK \<noteq> 0 then
        tima_loop (gb\<lparr>counter := (counter gb)
                        \<lparr>tima_count := tima_count (counter gb) + inst_cycles\<rparr>\<rparr>)
      else gb)"

subsection \<open>LCD\<close>

definition gb_request_interrupt :: "gb_s \<Rightarrow> u8 \<Rightarrow> gb_s" where
  "gb_request_interrupt gb intr =
     gb\<lparr>hram_io := (hram_io gb)(IO_IF := hram_io gb IO_IF OR intr)\<rparr>"

definition gb_set_stat_mode :: "gb_s \<Rightarrow> u8 \<Rightarrow> gb_s" where
  "gb_set_stat_mode gb m =
     gb\<lparr>hram_io := (hram_io gb)(IO_STAT := (hram_io gb IO_STAT AND NOT STAT_MODE) OR m)\<rparr>"

definition window_on_line :: "gb_s \<Rightarrow> bool" where
  "window_on_line gb \<longleftrightarrow>
     hram_io gb IO_LCDC AND LCDC_WINDOW_ENABLE \<noteq> 0 \<and>
     hram_io gb IO_LY \<ge> WY (display gb) \<and> hram_io gb IO_WX \<le> 166"

text \<open>
  \<^verbatim>\<open>__gb_draw_line\<close>, as far as it changes the context: the window line counter
  \<^verbatim>\<open>window_clear\<close>. The pixels are computed in a local buffer and handed to the
  front end; the choice of the sprites of the line is modelled by \<open>select_sprites\<close>
  below.
\<close>

definition gb_draw_line :: "gb_s \<Rightarrow> gb_s" where
  "gb_draw_line gb =
     (let advance = gb\<lparr>display := (display gb)\<lparr>window_clear := window_clear (display gb) + 1\<rparr>\<rparr>
      in if \<not> lcd_draw_line (display gb) then gb
         else if frame_skip (direct gb) \<and> \<not> frame_skip_count (display gb) then gb
         else if interlace (direct gb) \<and>
                 ((\<not> interlace_count (display gb) \<and> hram_io gb IO_LY AND 1 = 0) \<or>
                  (interlace_count (display gb) \<and> hram_io gb IO_LY AND 1 = 1)) then
           (if window_on_line gb then advance else gb)
         else if window_on_line gb then advance
         else gb)"

text \<open>Entry to VBlank (\<^verbatim>\<open>LY == LCD_HEIGHT\<close>). The flag of the result is the \<^verbatim>\<open>break\<close>.\<close>

definition gb_lcd_vblank :: "gb_s \<Rightarrow> gb_s \<times> bool" where
  "gb_lcd_vblank gb =
     (let gb1 = gb_set_stat_mode gb IO_STAT_MODE_VBLANK;
          gb2 = gb_request_interrupt (gb1\<lparr>gb_frame := True\<rparr>) VBLANK_INTR;
          gb3 = gb2\<lparr>lcd_blank := False\<rparr>;
          gb4 = (if hram_io gb3 IO_STAT AND STAT_MODE_1_INTR \<noteq> 0
                 then gb_request_interrupt gb3 LCDC_INTR else gb3);
          gb5 = (if frame_skip (direct gb4)
                 then gb4\<lparr>display := (display gb4)
                        \<lparr>frame_skip_count := \<not> frame_skip_count (display gb4)\<rparr>\<rparr>
                 else gb4);
          gb6 = (if interlace (direct gb5) \<and>
                    (\<not> frame_skip (direct gb5) \<or> frame_skip_count (display gb5))
                 then gb5\<lparr>display := (display gb5)
                        \<lparr>interlace_count := \<not> interlace_count (display gb5)\<rparr>\<rparr>
                 else gb5)
      in (gb6, gb_halt gb6 \<and> hram_io gb6 IO_IE = 0))"

text \<open>Start of a line outside VBlank (\<^verbatim>\<open>LY < LCD_HEIGHT\<close>): OAM scan.\<close>

definition gb_lcd_oam_scan :: "gb_s \<Rightarrow> gb_s" where
  "gb_lcd_oam_scan gb =
     (let gb1 = (if hram_io gb IO_LY = 0
                 then gb\<lparr>display := (display gb)\<lparr>WY := hram_io gb IO_WY, window_clear := 0\<rparr>\<rparr>
                 else gb);
          gb2 = gb_set_stat_mode gb1 IO_STAT_MODE_OAM_SCAN;
          gb3 = gb2\<lparr>counter := (counter gb2)\<lparr>lcd_count := 0\<rparr>\<rparr>
      in if hram_io gb3 IO_STAT AND STAT_MODE_2_INTR \<noteq> 0
         then gb_request_interrupt gb3 LCDC_INTR else gb3)"

text \<open>New scanline (\<^verbatim>\<open>lcd_count >= LCD_LINE_CYCLES\<close>).\<close>

definition gb_lcd_new_line :: "gb_s \<Rightarrow> nat \<Rightarrow> gb_s \<times> nat \<times> bool" where
  "gb_lcd_new_line gb inst_cycles =
     (let gb1 = gb\<lparr>counter := (counter gb)\<lparr>lcd_count := lcd_count (counter gb) - LCD_LINE_CYCLES\<rparr>\<rparr>;
          ly = hram_io gb1 IO_LY + 1;
          gb2 = gb1\<lparr>hram_io := (hram_io gb1)(IO_LY := (if ly = LCD_VERT_LINES then 0 else ly))\<rparr>;
          gb3 = (if hram_io gb2 IO_LY = hram_io gb2 IO_LYC then
                   (let g = gb2\<lparr>hram_io := (hram_io gb2)
                                   (IO_STAT := hram_io gb2 IO_STAT OR STAT_LYC_COINC)\<rparr>
                    in if hram_io g IO_STAT AND STAT_LYC_INTR \<noteq> 0
                       then gb_request_interrupt g LCDC_INTR else g)
                 else gb2\<lparr>hram_io := (hram_io gb2)(IO_STAT := hram_io gb2 IO_STAT AND 0xFB)\<rparr>)
      in if hram_io gb3 IO_LY = LCD_HEIGHT then
           (let (g, brk) = gb_lcd_vblank gb3 in (g, inst_cycles, brk))
         else if hram_io gb3 IO_LY < LCD_HEIGHT then
           (gb_lcd_oam_scan gb3, LCD_MODE2_OAM_SCAN_DURATION, False)
         else (gb3, inst_cycles, False))"

text \<open>\<^verbatim>\<open>LCD Timing\<close>, reached when the LCD is enabled.\<close>

definition gb_lcd_timing :: "gb_s \<Rightarrow> nat \<Rightarrow> gb_s \<times> nat \<times> bool" where
  "gb_lcd_timing gb inst_cycles =
     (let gb1 = gb\<lparr>counter := (counter gb)\<lparr>lcd_count := lcd_count (counter gb) + inst_cycles\<rparr>\<rparr>;
          cnt = lcd_count (counter gb1)
      in if cnt \<ge> LCD_LINE_CYCLES then gb_lcd_new_line gb1 inst_cycles
         else if hram_io gb1 IO_STAT AND STAT_MODE = IO_STAT_MODE_LCD_DRAW \<and>
                 cnt \<ge> LCD_MODE3_LCD_DRAW_END then
           (let gb2 = gb_set_stat_mode gb1 IO_STAT_MODE_HBLANK;
                gb3 = (if hram_io gb2 IO_STAT AND STAT_MODE_0_INTR \<noteq> 0
                       then gb_request_interrupt gb2 LCDC_INTR else gb2)
            in (gb3,
                if cnt < LCD_MODE0_HBLANK_MAX_DRUATION
                then LCD_MODE0_HBLANK_MAX_DRUATION - cnt else inst_cycles,
                False))
         else if hram_io gb1 IO_STAT AND STAT_MODE = IO_STAT_MODE_OAM_SCAN \<and>
                 cnt \<ge> LCD_MODE2_OAM_SCAN_END then
           (let gb2 = gb_set_stat_mode gb1 IO_STAT_MODE_LCD_DRAW;
                gb3 = (if \<not> lcd_blank gb2 then gb_draw_line gb2 else gb2)
            in (gb3,
                if cnt < LCD_MODE3_LCD_DRAW_MIN_DURATION
                then LCD_MODE3_LCD_DRAW_MIN_DURATION - cnt else inst_cycles,
                False))
         else (gb1, inst_cycles, False))"

text \<open>The LCD is off: only the passing time is recorded, and \<^verbatim>\<open>continue\<close> follows.\<close>

definition gb_lcd_off_timing :: "gb_s \<Rightarrow> nat \<Rightarrow> gb_s" where
  "gb_lcd_off_timing gb inst_cycles =
     (let gb1 = gb\<lparr>counter := (counter gb)
                     \<lparr>lcd_off_count := lcd_off_count (counter gb) + inst_cycles\<rparr>\<rparr>
      in if lcd_off_count (counter gb1) \<ge> LCD_FRAME_CYCLES then
           gb1\<lparr>counter := (counter gb1)
                  \<lparr>lcd_off_count := lcd_off_count (counter gb1) - LCD_FRAME_CYCLES\<rparr>,
               gb_frame := True\<rparr>
         else gb1)"

text \<open>
  One pass through the body of the \<^verbatim>\<open>do\<close> loop. The result is the new context,
  the new value of \<^verbatim>\<open>inst_cycles\<close>, and whether the body was left by \<^verbatim>\<open>break\<close>.
\<close>

definition gb_step_timing :: "gb_s \<Rightarrow> nat \<Rightarrow> u8 option \<Rightarrow> gb_s \<times> nat \<times> bool" where
  "gb_step_timing gb inst_cycles rx =
     (let gb1 = gb_div_timing gb inst_cycles;
          gb2 = gb_rtc_timing gb1 inst_cycles;
          gb3 = gb_serial_timing gb2 inst_cycles rx;
          gb4 = gb_tima_timing gb3 inst_cycles
      in if hram_io gb4 IO_LCDC AND LCDC_ENABLE = 0
         then (gb_lcd_off_timing gb4 inst_cycles, inst_cycles, False)
         else gb_lcd_timing gb4 inst_cycles)"

text \<open>
  The loop \<^verbatim>\<open>do { ... } while(gb->gb_halt && (IF & IE) == 0)\<close>. It need not end, so
  the model counts the passes: \<open>None\<close> means that the loop is still running after
  \<open>fuel\<close> passes. \<open>rxs i\<close> is the answer of the serial receive function in pass \<open>i\<close>.
\<close>

fun gb_timing_loop :: "nat \<Rightarrow> gb_s \<Rightarrow> nat \<Rightarrow> (nat \<Rightarrow> u8 option) \<Rightarrow> gb_s option" where
  "gb_timing_loop 0 gb inst_cycles rxs = None"
| "gb_timing_loop (Suc fuel) gb inst_cycles rxs =
     (case gb_step_timing gb inst_cycles (rxs 0) of
        (gb', inst_cycles', brk) \<Rightarrow>
          if brk then Some gb'
          else if gb_halt gb' \<and> hram_io gb' IO_IF AND hram_io gb' IO_IE = 0
          then gb_timing_loop fuel gb' inst_cycles' (\<lambda>i. rxs (Suc i))
          else Some gb')"

text \<open>
  Opcode \<^verbatim>\<open>0x76\<close> (HALT): sets \<^verbatim>\<open>gb_halt\<close> and computes \<^verbatim>\<open>inst_cycles\<close>. The value of
  \<^verbatim>\<open>INT_FAST16_MAX\<close> depends on the platform and is a parameter; the differences
  are taken in \<^verbatim>\<open>int\<close>.
\<close>

definition gb_op_halt :: "int \<Rightarrow> gb_s \<Rightarrow> gb_s \<times> nat" where
  "gb_op_halt int_fast16_max gb0 =
     (let gb = gb0\<lparr>gb_halt := True\<rparr>;
          cnt = counter gb;
          h0 = int_fast16_max;
          h1 = (if hram_io gb IO_SC AND SERIAL_SC_TX_START \<noteq> 0 then
                  (let serial_cycles = int SERIAL_CYCLES - int (serial_count cnt)
                   in if serial_cycles < h0 then serial_cycles else h0)
                else h0);
          h2 = (if hram_io gb IO_TAC AND IO_TAC_ENABLE_MASK \<noteq> 0 then
                  (let tac_cycles = int (tac_rate gb) - int (tima_count cnt)
                   in if tac_cycles < h1 then tac_cycles else h1)
                else h1);
          h3 = (if hram_io gb IO_LCDC AND LCDC_ENABLE \<noteq> 0 then
                  (let m = hram_io gb IO_STAT AND STAT_MODE;
                       lcd_cycles =
                         (if m = IO_STAT_MODE_HBLANK
                          then int LCD_MODE0_HBLANK_MAX_DRUATION - int (lcd_count cnt)
                          else if m = IO_STAT_MODE_OAM_SCAN
                          then int LCD_MODE3_LCD_DRAW_MIN_DURATION - int (lcd_count cnt)
                          else if m = IO_STAT_MODE_LCD_DRAW
                          then int LCD_MODE0_HBLANK_MAX_DRUATION - int (lcd_count cnt)
                          else int LCD_LINE_CYCLES - int (lcd_count cnt))
                   in if lcd_cycles < h2 then lcd_cycles else h2)
                else h2);
          halt_cycles = (if h3 \<le> 0 then 4 else h3)
      in (gb, nat halt_cycles))"

section \<open>\<^verbatim>\<open>gb_reset\<close> and \<^verbatim>\<open>gb_init\<close>\<close>

text \<open>
  \<^verbatim>\<open>gb_reset\<close>. The bit fields \<^verbatim>\<open>z\<close>, \<^verbatim>\<open>n\<close>, \<^verbatim>\<open>h\<close>, \<^verbatim>\<open>c\<close> are the bits 7 to 4 of the flag
  byte; its low nibble is not assigned.
\<close>

definition gb_reset :: "gb_s \<Rightarrow> gb_s option" where
  "gb_reset gb0 = do {
     let gb = gb0\<lparr>gb_halt := False, gb_ime := True, selected_rom_bank := 1,
                  cart_ram_bank := 0, enable_cart_ram := 0, cart_mode_select := 0\<rparr>;
     gb \<leftarrow> (if gb_bootrom_read gb = None then do {
              let hdr_chk = (gb_rom_read gb ROM_HEADER_CHECKSUM_LOC \<noteq> 0);
              let flags = (f (cpu_reg gb) AND 0x0F) OR 0x80 OR (if hdr_chk then 0x30 else 0x00);
              let gb = gb\<lparr>cpu_reg := \<lparr>f = flags, a = 0x01, bc = 0x0013, de = 0x00D8,
                                       hl = 0x014D, sp = 0xFFFE, pc = 0x0100\<rparr>,
                          hram_io := (hram_io gb)(IO_DIV := 0xAB, IO_LCDC := 0x91,
                                                  IO_STAT := 0x85, IO_BOOT := 0x01)\<rparr>;
              gb \<leftarrow> gb_write gb 0xFF26 0xF1;
              Some (gb\<lparr>vram := (\<lambda>i. 0x00)\<rparr>)
            } else
              Some (gb\<lparr>cpu_reg := (cpu_reg gb)\<lparr>pc := 0x0000\<rparr>,
                       hram_io := (hram_io gb)(IO_DIV := 0x00, IO_LCDC := 0x00,
                                               IO_STAT := 0x84, IO_BOOT := 0x00)\<rparr>));
     let gb = gb\<lparr>counter := \<lparr>lcd_count = 0, div_count = 0, tima_count = 0,
                              serial_count = 0, rtc_count = 0, lcd_off_count = 0\<rparr>,
                 direct := (direct gb)\<lparr>joypad := 0xFF\<rparr>,
                 hram_io := (hram_io gb)(IO_JOYP := 0xCF, IO_SB := 0x00, IO_SC := 0x7E,
                                         IO_TIMA := 0x00, IO_TMA := 0x00, IO_TAC := 0xF8,
                                         IO_IF := 0xE1, IO_SCY := 0x00, IO_SCX := 0x00,
                                         IO_LY := 0x00, IO_LYC := 0x00)\<rparr>;
     gb \<leftarrow> gb_write gb 0xFF47 0xFC;
     gb \<leftarrow> gb_write gb 0xFF48 0xFF;
     gb \<leftarrow> gb_write gb 0xFF49 0xFF;
     Some (gb\<lparr>hram_io := (hram_io gb)(IO_WY := 0x00, IO_WX := 0x00, IO_IE := 0x00,
                                      IO_IF := 0xE1)\<rparr>)
   }"

datatype gb_init_error_e =
  GB_INIT_NO_ERROR | GB_INIT_CARTRIDGE_UNSUPPORTED | GB_INIT_INVALID_CHECKSUM

definition cart_mbc :: "int list" where
  "cart_mbc =
     [0, 1, 1, 1, -1, 2, 2, -1, 0, 0, -1, 0, 0, 0, -1, 3,
      3, 3, 3, 3, -1, -1, -1, -1, -1, 5, 5, 5, 5, 5, 5, -1]"

definition cart_ram_table :: "u8 list" where
  "cart_ram_table =
     [0, 0, 1, 1, 0, 1, 1, 0, 1, 1, 0, 0, 0, 0, 0, 0,
      1, 0, 1, 1, 0, 0, 0, 0, 0, 0, 1, 1, 0, 0, 0, 0]"

definition num_rom_banks_mask_table :: "u16 list" where
  "num_rom_banks_mask_table = [2, 4, 8, 16, 32, 64, 128, 256, 512]"

definition num_ram_banks_table :: "u8 list" where
  "num_ram_banks_table = [0, 1, 1, 4, 16, 8]"

text \<open>
  The checksum loop of \<^verbatim>\<open>gb_init\<close>:
  \<^verbatim>\<open>for(i = 0x0134; i <= 0x014C; i++) x = x - gb->gb_rom_read(gb, i) - 1\<close>, from \<^verbatim>\<open>x = 0\<close>.
\<close>

definition header_checksum :: "(nat \<Rightarrow> u8) \<Rightarrow> u8" where
  "header_checksum rom = fold (\<lambda>i x. x - rom i - 1) [0x0134 ..< 0x014D] 0"

text \<open>
  \<^verbatim>\<open>gb_init\<close>: the return code and the context. The tables \<^verbatim>\<open>num_rom_banks_mask\<close> and
  \<^verbatim>\<open>num_ram_banks\<close> are indexed by the header bytes at 0x0148 and 0x0149, which the
  source does not check: with a code of 9 or more, or of 6 or more, it reads past
  the end of the table and goes on. What such a read gives is not determined by
  the source; it is the parameter \<open>rom_banks_past\<close> or \<open>ram_banks_past\<close> here.
\<close>

definition gb_init ::
  "(nat \<Rightarrow> u16) \<Rightarrow> (nat \<Rightarrow> u8) \<Rightarrow> gb_s \<Rightarrow> (nat \<Rightarrow> u8) \<Rightarrow> (gb_init_error_e \<times> gb_s) option" where
  "gb_init rom_banks_past ram_banks_past gb0 rom =
     (let gb = gb0\<lparr>gb_rom_read := rom, gb_bootrom_read := None\<rparr>;
          mbc_value = unat (rom 0x0147);
          rom_code = unat (rom 0x0148);
          ram_code = unat (rom 0x0149)
      in if header_checksum rom \<noteq> rom ROM_HEADER_CHECKSUM_LOC then
           Some (GB_INIT_INVALID_CHECKSUM, gb)
         else if mbc_value > length cart_mbc - 1 then
           Some (GB_INIT_CARTRIDGE_UNSUPPORTED, gb)
         else if cart_mbc ! mbc_value = -1 then
           Some (GB_INIT_CARTRIDGE_UNSUPPORTED, gb\<lparr>mbc := -1\<rparr>)
         else
           (let gb1 = gb\<lparr>mbc := cart_mbc ! mbc_value,
                         num_rom_banks_mask :=
                           (if rom_code < length num_rom_banks_mask_table
                            then num_rom_banks_mask_table ! rom_code
                            else rom_banks_past rom_code) - 1,
                         cart_ram := cart_ram_table ! mbc_value,
                         num_ram_banks :=
                           (if ram_code < length num_ram_banks_table
                            then num_ram_banks_table ! ram_code
                            else ram_banks_past ram_code)\<rparr>;
                gb2 = (if cart_ram gb1 = 0 \<or> num_ram_banks gb1 = 0
                       then gb1\<lparr>cart_ram := 0, num_ram_banks := 0\<rparr> else gb1);
                gb3 = (if mbc gb2 = 3
                       then gb2\<lparr>cart_is_mbc3O :=
                                  (num_rom_banks_mask gb2 > 128 \<or> num_ram_banks gb2 > 4)\<rparr>
                       else gb2);
                gb4 = gb3\<lparr>lcd_blank := False,
                          display := (display gb3)\<lparr>lcd_draw_line := False\<rparr>\<rparr>
            in map_option (Pair GB_INIT_NO_ERROR) (gb_reset gb4)))"

section \<open>Sprites of a scanline (\<^verbatim>\<open>__gb_draw_line\<close>, \<^verbatim>\<open>PEANUT_GB_HIGH_LCD_ACCURACY\<close>)\<close>

text \<open>\<^verbatim>\<open>struct sprite_data\<close>; its field \<^verbatim>\<open>x\<close> is called \<open>sprite_x\<close>.\<close>

record sprite_data =
  sprite_number :: u8
  sprite_x :: u8

definition compare_sprites :: "sprite_data \<Rightarrow> sprite_data \<Rightarrow> int" where
  "compare_sprites sd1 sd2 =
     (let x_res = uint (sprite_x sd1) - uint (sprite_x sd2)
      in if x_res \<noteq> 0 then x_res
         else uint (sprite_number sd1) - uint (sprite_number sd2))"

text \<open>
  The negation of the test \<^verbatim>\<open>If sprite isn't on this line, continue\<close>; the sums are
  taken in \<^verbatim>\<open>int\<close>.
\<close>

definition sprite_on_line :: "gb_s \<Rightarrow> nat \<Rightarrow> bool" where
  "sprite_on_line gb n =
     (let OY = oam gb (4 * n + 0);
          LY = hram_io gb IO_LY
      in \<not> (uint LY + (if hram_io gb IO_LCDC AND LCDC_OBJ_SIZE \<noteq> 0 then 0 else 8) \<ge> uint OY
             \<or> uint LY + 16 < uint OY))"

text \<open>
  \<^verbatim>\<open>for (place = number_of_sprites; place != 0; place--)\<close> with its \<^verbatim>\<open>break\<close>: the
  argument is the start value of \<^verbatim>\<open>place\<close>, the result its final value.
\<close>

fun find_place :: "sprite_data list \<Rightarrow> sprite_data \<Rightarrow> nat \<Rightarrow> nat" where
  "find_place sprites_to_render current 0 = 0"
| "find_place sprites_to_render current (Suc p) =
     (if compare_sprites (sprites_to_render ! p) current < 0 then Suc p
      else find_place sprites_to_render current p)"

text \<open>
  The rest of the loop body for a sprite that is on the line. The state is the
  array \<^verbatim>\<open>sprites_to_render\<close> (ten elements) and \<^verbatim>\<open>number_of_sprites\<close>. The \<^verbatim>\<open>memmove\<close>
  copies the elements \<open>place\<close> to 8 to the positions \<open>place + 1\<close> to 9.
\<close>

definition insert_sprite :: "sprite_data list \<times> nat \<Rightarrow> sprite_data \<Rightarrow> sprite_data list \<times> nat" where
  "insert_sprite st current =
     (let (sprites_to_render, number_of_sprites) = st;
          place = find_place sprites_to_render current number_of_sprites
      in if place \<ge> MAX_SPRITES_LINE then st
         else
           (let moved = take (place + 1) sprites_to_render @
                        take (MAX_SPRITES_LINE - place - 1) (drop place sprites_to_render)
            in (moved[place := current],
                if number_of_sprites < MAX_SPRITES_LINE
                then number_of_sprites + 1 else number_of_sprites)))"

text \<open>
  \<^verbatim>\<open>for(sprite_number = 0; sprite_number < NUM_SPRITES; sprite_number++)\<close>: the scan
  of the 40 entries of OAM.
\<close>

function scan_sprites :: "gb_s \<Rightarrow> sprite_data list \<times> nat \<Rightarrow> nat \<Rightarrow> sprite_data list \<times> nat" where
  "scan_sprites gb st n =
     (if n < NUM_SPRITES then
        scan_sprites gb
          (if sprite_on_line gb n
           then insert_sprite st \<lparr>sprite_number = of_nat n, sprite_x = oam gb (4 * n + 1)\<rparr>
           else st)
          (n + 1)
      else st)"
  by pat_completeness auto
termination
  by (relation "measure (\<lambda>(gb, st, n). NUM_SPRITES - n)") auto

declare scan_sprites.simps [simp del]

text \<open>
  The sprites that the render loop goes through afterwards: the first
  \<^verbatim>\<open>number_of_sprites\<close> elements of the array. \<open>uninit\<close> is the content of the local
  array before the scan, which the source does not initialise.
\<close>

definition select_sprites :: "gb_s \<Rightarrow> sprite_data list \<Rightarrow> sprite_data list" where
  "select_sprites gb uninit =
     (let (sprites_to_render, number_of_sprites) = scan_sprites gb (uninit, 0) 0
      in take number_of_sprites sprites_to_render)"

section \<open>Concrete contexts and ROM images\<close>

text \<open>
  A context whose storage is all zero, as a statically allocated \<^verbatim>\<open>struct gb_s\<close> is
  before \<^verbatim>\<open>gb_init\<close>.
\<close>

definition zero_gb :: gb_s where
  "zero_gb =
     \<lparr>gb_rom_read = (\<lambda>i. 0), cart_ram_store = (\<lambda>i. 0), gb_bootrom_read = None,
      gb_halt = False, gb_ime = False, gb_frame = False, lcd_blank = False,
      cart_is_mbc3O = False, mbc = 0, cart_ram = 0, num_rom_banks_mask = 0,
      num_ram_banks = 0, selected_rom_bank = 0, cart_ram_bank = 0, enable_cart_ram = 0,
      cart_mode_select = 0,
      rtc_latched = \<lparr>sec = 0, min_r = 0, hour = 0, yday = 0, high = 0\<rparr>,
      rtc_real = \<lparr>sec = 0, min_r = 0, hour = 0, yday = 0, high = 0\<rparr>,
      cpu_reg = \<lparr>f = 0, a = 0, bc = 0, de = 0, hl = 0, sp = 0, pc = 0\<rparr>,
      counter = \<lparr>lcd_count = 0, div_count = 0, tima_count = 0, serial_count = 0,
                 rtc_count = 0, lcd_off_count = 0\<rparr>,
      wram = (\<lambda>i. 0), vram = (\<lambda>i. 0), oam = (\<lambda>i. 0), hram_io = (\<lambda>i. 0),
      display = \<lparr>lcd_draw_line = False, bg_palette = (\<lambda>i. 0), sp_palette = (\<lambda>i. 0),
                 window_clear = 0, WY = 0, frame_skip_count = False,
                 interlace_count = False\<rparr>,
      direct = \<lparr>interlace = False, frame_skip = False, joypad = 0\<rparr>\<rparr>"

text \<open>
  A ROM image whose bytes outside the header fields are the number of their 16 KiB
  bank. \<open>ctype\<close>, \<open>rom_code\<close> and \<open>chk\<close> are the cartridge type (0x0147), the ROM size
  code (0x0148) and the header checksum (0x014D); the RAM size code (0x0149) is 0.
\<close>

definition bank_rom :: "u8 \<Rightarrow> u8 \<Rightarrow> u8 \<Rightarrow> nat \<Rightarrow> u8" where
  "bank_rom ctype rom_code chk i =
     (if i = 0x0147 then ctype
      else if i = 0x0148 then rom_code
      else if i = 0x0149 then 0
      else if i = 0x014D then chk
      else of_nat (i div 0x4000))"

text \<open>
  The context after \<^verbatim>\<open>gb_init\<close> on an MBC1 cartridge with 128 ROM banks
  (\<^verbatim>\<open>num_rom_banks_mask = 0x7F\<close>), and on an MBC3 cartridge with 4 ROM banks.
\<close>

definition mbc1_gb :: gb_s where
  "mbc1_gb = snd (the (gb_init (\<lambda>i. 0) (\<lambda>i. 0) zero_gb (bank_rom 0x01 0x06 0xE0)))"

definition mbc3_gb :: gb_s where
  "mbc3_gb = snd (the (gb_init (\<lambda>i. 0) (\<lambda>i. 0) zero_gb (bank_rom 0x0F 0x01 0xD7)))"

text \<open>The context after \<^verbatim>\<open>gb_init\<close> on a 32 KiB cartridge without MBC.\<close>

definition rom_only_gb :: gb_s where
  "rom_only_gb = snd (the (gb_init (\<lambda>i. 0) (\<lambda>i. 0) zero_gb (bank_rom 0x00 0x00 0xE7)))"

section \<open>The header checksum equation as the specification words it\<close>

text \<open>
  The specification's equation
  \<^verbatim>\<open>(-1 - \<Sigma> rom[0x0134..=0x014C]) mod 256 == rom[0x014D]\<close>, read as written.
\<close>

definition spec_header_checksum_ok :: "(nat \<Rightarrow> u8) \<Rightarrow> bool" where
  "spec_header_checksum_ok rom \<longleftrightarrow>
     (- 1 - (\<Sum>i\<leftarrow>[0x0134 ..< 0x014D]. uint (rom i))) mod 256 = uint (rom 0x014D)"

section \<open>Emulated time without CPU writes\<close>

text \<open>
  A stretch of emulated time in which the CPU writes nothing: passes through the
  body of the \<^verbatim>\<open>do\<close> loop of \<^verbatim>\<open>__gb_step_cpu\<close>, each with its \<^verbatim>\<open>inst_cycles\<close> and the
  answer of the serial receive function. \<open>elapsed_cycles\<close> is the number of T-cycles
  of the stretch.
\<close>

fun gb_elapse :: "gb_s \<Rightarrow> (nat \<times> u8 option) list \<Rightarrow> gb_s" where
  "gb_elapse gb [] = gb"
| "gb_elapse gb ((inst_cycles, rx) # passes) =
     gb_elapse (fst (gb_step_timing gb inst_cycles rx)) passes"

definition elapsed_cycles :: "(nat \<times> u8 option) list \<Rightarrow> nat" where
  "elapsed_cycles passes = sum_list (map fst passes)"

section \<open>Reachable contexts\<close>

text \<open>
  The contexts that the emulator can be in after \<^verbatim>\<open>gb_reset\<close>. Every opcode of
  \<^verbatim>\<open>__gb_step_cpu\<close> changes the context only through the CPU registers, the flags
  \<^verbatim>\<open>gb_ime\<close> and \<^verbatim>\<open>gb_halt\<close>, and calls of \<^verbatim>\<open>__gb_write\<close>; a step begins with the
  interrupt service and ends with passes through the timing loop. The front end
  may change \<^verbatim>\<open>direct\<close>, install the LCD and boot ROM callbacks, set the clock
  (\<^verbatim>\<open>gb_set_rtc\<close>), and \<^verbatim>\<open>gb_run_frame\<close> clears \<^verbatim>\<open>gb_frame\<close>. A write to the DMA
  register (0xFF46) sets \<^verbatim>\<open>hram_io[IO_DMA]\<close> and fills OAM with what \<^verbatim>\<open>__gb_read\<close>
  returns; where these reads go past the end of \<^verbatim>\<open>ortab\<close> (source page 0xFF) the
  bytes are not determined by the source, and the rule \<open>dma\<close> admits every content
  of OAM after such a write.
\<close>

inductive reachable :: "gb_s \<Rightarrow> bool" where
  reset: "gb_reset gb0 = Some gb \<Longrightarrow> reachable gb"
| cpu_write: "reachable gb \<Longrightarrow> gb_write gb addr val = Some gb' \<Longrightarrow> reachable gb'"
| dma: "reachable gb \<Longrightarrow>
     reachable (gb\<lparr>hram_io := (hram_io gb)(IO_DMA := val), oam := om\<rparr>)"
| cpu_state: "reachable gb \<Longrightarrow> reachable (gb\<lparr>cpu_reg := r, gb_ime := i, gb_halt := h\<rparr>)"
| interrupt: "reachable gb \<Longrightarrow> gb_handle_interrupts gb = Some gb' \<Longrightarrow> reachable gb'"
| timing: "reachable gb \<Longrightarrow> reachable (fst (gb_step_timing gb inst_cycles rx))"
| front_end: "reachable gb \<Longrightarrow>
     reachable (gb\<lparr>direct := d, display := ds, rtc_real := rt, gb_bootrom_read := br,
                   gb_frame := fr\<rparr>)"

section \<open>Further concrete contexts\<close>

text \<open>After reset, 50 instructions of 4 cycles each.\<close>

definition div200_gb :: gb_s where
  "div200_gb = gb_elapse rom_only_gb (replicate 50 (4, None))"

text \<open>
  On the MBC3 cartridge, the RTC seconds register selected (0x08 written to
  0x4000) and set to 63 (written to 0xA000), four cycles before the next tick of
  the clock.
\<close>

definition rtc63_gb :: gb_s where
  "rtc63_gb =
     (let gb = the (gb_write (the (gb_write mbc3_gb 0x4000 0x08)) 0xA000 0x3F)
      in gb\<lparr>counter := (counter gb)\<lparr>rtc_count := RTC_CYCLES - 4\<rparr>\<rparr>)"


text \<open>
  After reset, \<^verbatim>\<open>IE\<close> set to 0x01 and 0x1F by CPU writes; in the first context the
  stack pointer is 0xFF10 and the program counter 0x1234, in the second all five
  interrupts are requested.
\<close>

definition sp_on_if_gb :: gb_s where
  "sp_on_if_gb =
     (let gb = the (gb_write rom_only_gb 0xFFFF 0x01)
      in gb\<lparr>cpu_reg := (cpu_reg gb)\<lparr>sp := 0xFF10, pc := 0x1234\<rparr>\<rparr>)"

definition all_pending_gb :: gb_s where
  "all_pending_gb = the (gb_write (the (gb_write rom_only_gb 0xFFFF 0x1F)) 0xFF0F 0x1F)"

text \<open>After reset, the LCD switched off by writing 0x00 to \<^verbatim>\<open>LCDC\<close> (0xFF40).\<close>

definition lcd_off_gb :: gb_s where
  "lcd_off_gb = the (gb_write rom_only_gb 0xFF40 0x00)"


section \<open>The order of priority of the sprites\<close>

text \<open>
  The sprites of OAM that are on the line \<^verbatim>\<open>LY\<close>, in the order of OAM, each with the
  two fields that the scan gives to \<^verbatim>\<open>current\<close>.
\<close>

definition sprites_on_line :: "gb_s \<Rightarrow> sprite_data list" where
  "sprites_on_line gb =
     map (\<lambda>n. \<lparr>sprite_number = of_nat n, sprite_x = oam gb (4 * n + 1)\<rparr>)
       (filter (sprite_on_line gb) [0..<NUM_SPRITES])"

text \<open>
  The order of the specification: by X coordinate first, by index in OAM among
  sprites of equal X (the lexicographic order of the pairs).
\<close>

definition sprite_key :: "sprite_data \<Rightarrow> nat \<times> nat" where
  "sprite_key sd = (unat (sprite_x sd), unat (sprite_number sd))"

definition spec_selected_sprites :: "gb_s \<Rightarrow> sprite_data list" where
  "spec_selected_sprites gb =
     take MAX_SPRITES_LINE (sort_key sprite_key (sprites_on_line gb))"

text \<open>
  Line 16 with sprites of 8 lines: the OAM entries 0 to 11 are on the line
  (Y = 32), those of even index at X = 16 and those of odd index at X = 8, each with
  its index as tile number; the other entries are zero. The local array starts
  with ten copies of an arbitrary value.
\<close>

definition twelve_sprites_gb :: gb_s where
  "twelve_sprites_gb =
     zero_gb\<lparr>hram_io := (hram_io zero_gb)(IO_LY := 0x10, IO_LCDC := 0x83),
             oam := (\<lambda>i. if i < 48 then
                             (if i mod 4 = 0 then 0x20
                              else if i mod 4 = 1 then (if (i div 4) mod 2 = 0 then 0x10 else 0x08)
                              else if i mod 4 = 2 then of_nat (i div 4)
                              else 0)
                           else 0)\<rparr>"

definition uninit_sprites :: "sprite_data list" where
  "uninit_sprites = replicate MAX_SPRITES_LINE \<lparr>sprite_number = 0xAA, sprite_x = 0x55\<rparr>"

text \<open>
  The exchange of the OAM entries \<open>i\<close> and \<open>j\<close>, four bytes each: the step of which a
  shuffle of OAM is made.
\<close>

definition exchange_oam :: "gb_s \<Rightarrow> nat \<Rightarrow> nat \<Rightarrow> gb_s" where
  "exchange_oam gb i j =
     gb\<lparr>oam := (\<lambda>n. if n div 4 = i then oam gb (4 * j + n mod 4)
                    else if n div 4 = j then oam gb (4 * i + n mod 4)
                    else oam gb n)\<rparr>"

text \<open>
  Line 16 with sprites of 8 lines: the OAM entry 0 is on the line (Y = 32) at X = 8,
  the entry 5 has the same X and is off the line (Y = 0); the other entries are
  zero.
\<close>

definition two_sprites_gb :: gb_s where
  "two_sprites_gb =
     zero_gb\<lparr>hram_io := (hram_io zero_gb)(IO_LY := 0x10, IO_LCDC := 0x83),
             oam := (\<lambda>i. if i = 0 then 0x20 else if i = 1 then 0x08
                          else if i = 21 then 0x08 else 0)\<rparr>"
section \<open>Address decoding\<close>

lemma GET_MSN16_div: "GET_MSN16 addr = unat addr div 4096"
  by (simp add: GET_MSN16_def drop_bit_eq_div unat_div)

lemma gb_write_A000_BFFF:
  assumes "0xA000 \<le> addr" "addr \<le> 0xBFFF"
  shows "gb_write gb addr v = gb_write_cart_ram gb addr v"
proof -
  from assms have "GET_MSN16 addr = 0xA \<or> GET_MSN16 addr = 0xB"
    unfolding GET_MSN16_div word_le_nat_alt by simp arith
  then show ?thesis by (auto simp: gb_write_def)
qed



lemma gb_read_4000_7FFF:
  assumes "0x4000 \<le> addr" "addr \<le> 0x7FFF"
  shows "gb_read gb addr =
           (if mbc gb = 1 \<and> cart_mode_select gb \<noteq> 0 then
              Some (gb_rom_read gb
                     (nat (uint addr + (uint (selected_rom_bank gb AND 0x1F) - 1) * 0x4000)))
            else
              Some (gb_rom_read gb
                     (nat (uint addr + (uint (selected_rom_bank gb) - 1) * 0x4000))))"
proof -
  from assms have "GET_MSN16 addr = 0x4 \<or> GET_MSN16 addr = 0x5 \<or>
      GET_MSN16 addr = 0x6 \<or> GET_MSN16 addr = 0x7"
    unfolding GET_MSN16_div word_le_nat_alt by simp arith
  then show ?thesis by (auto simp: gb_read_def)
qed

lemma gb_write_2000: "gb_write gb 0x2000 v = Some (gb_write_case2 gb 0x2000 v)"
  by (simp add: gb_write_def GET_MSN16_def)

lemma gb_write_4000: "gb_write gb 0x4000 v = Some (gb_write_case45 gb v)"
  by (simp add: gb_write_def GET_MSN16_def)

lemmas io_write_defs =
  gb_write_def gb_write_high_def gb_write_io_def GET_MSN16_def GET_LSB16_def Let_def

lemmas io_read_defs = gb_read_def gb_read_high_def GET_MSN16_def

section \<open>Reset and initialisation\<close>

lemma gb_reset_Some: "\<exists>gb'. gb_reset gb = Some gb'"
  by (simp add: gb_reset_def io_write_defs Let_def)

lemma upt_header:
  "[0x0134 ..< 0x014D] =
     [308, 309, 310, 311, 312, 313, 314, 315, 316, 317, 318, 319, 320, 321, 322, 323, 324,
      325, 326, 327, 328, 329, 330, 331, 332 :: nat]"
  by (simp add: upt_rec)

lemmas init_defs =
  gb_init_def header_checksum_def upt_header cart_mbc_def num_rom_banks_mask_table_def
  num_ram_banks_table_def cart_ram_table_def gb_reset_def zero_gb_def bank_rom_def

lemma rom_only_gb_init:
  "gb_init (\<lambda>i. 0) (\<lambda>i. 0) zero_gb (bank_rom 0x00 0x00 0xE7) = Some (GB_INIT_NO_ERROR, rom_only_gb)"
  by (simp add: rom_only_gb_def init_defs io_write_defs Let_def)

lemma mbc1_gb_init:
  "gb_init (\<lambda>i. 0) (\<lambda>i. 0) zero_gb (bank_rom 0x01 0x06 0xE0) = Some (GB_INIT_NO_ERROR, mbc1_gb)"
  by (simp add: mbc1_gb_def init_defs io_write_defs Let_def)

lemma mbc3_gb_init:
  "gb_init (\<lambda>i. 0) (\<lambda>i. 0) zero_gb (bank_rom 0x0F 0x01 0xD7) = Some (GB_INIT_NO_ERROR, mbc3_gb)"
  by (simp add: mbc3_gb_def init_defs io_write_defs Let_def)

subsection \<open>C2: the header checksum and the result of \<^verbatim>\<open>gb_init\<close>\<close>

lemma header_checksum_sum:
  "header_checksum rom = of_int (- 25 - (\<Sum>i\<leftarrow>[0x0134 ..< 0x014D]. uint (rom i)))"
  by (simp add: header_checksum_def upt_header)

text \<open>
  C2 (as amended). \<^verbatim>\<open>gb_init\<close> returns \<^verbatim>\<open>GB_INIT_INVALID_CHECKSUM\<close> exactly when
  \<^verbatim>\<open>rom[0x014D]\<close> differs from \<^verbatim>\<open>(-25 - \<Sigma> rom[0x0134..=0x014C]) mod 256\<close>, that is, 1 is
  subtracted for each of the 25 header bytes. When the checksum matches, it returns
  \<^verbatim>\<open>GB_INIT_CARTRIDGE_UNSUPPORTED\<close> exactly when the cartridge type byte is above
  0x1F or maps to -1, and success exactly when the type is supported: the ROM and
  RAM size codes are not checked, whatever lies past the two tables.
\<close>

theorem gb_init_result:
  "((\<exists>gb'. gb_init rom_banks_past ram_banks_past gb rom = Some (GB_INIT_INVALID_CHECKSUM, gb')) \<longleftrightarrow>
      rom 0x014D \<noteq> of_int (- 25 - (\<Sum>i\<leftarrow>[0x0134 ..< 0x014D]. uint (rom i)))) \<and>
   ((\<exists>gb'. gb_init rom_banks_past ram_banks_past gb rom = Some (GB_INIT_CARTRIDGE_UNSUPPORTED, gb')) \<longleftrightarrow>
      rom 0x014D = of_int (- 25 - (\<Sum>i\<leftarrow>[0x0134 ..< 0x014D]. uint (rom i))) \<and>
      (unat (rom 0x0147) > 31 \<or> cart_mbc ! unat (rom 0x0147) = - 1)) \<and>
   ((\<exists>gb'. gb_init rom_banks_past ram_banks_past gb rom = Some (GB_INIT_NO_ERROR, gb')) \<longleftrightarrow>
      rom 0x014D = of_int (- 25 - (\<Sum>i\<leftarrow>[0x0134 ..< 0x014D]. uint (rom i))) \<and>
      unat (rom 0x0147) \<le> 31 \<and> cart_mbc ! unat (rom 0x0147) \<noteq> - 1)"
proof -
  obtain g where g: "\<And>gb. gb_reset gb = Some (g gb)"
    using gb_reset_Some by metis
  have len: "length cart_mbc = 32"
    by (simp add: cart_mbc_def)
  show ?thesis
    unfolding header_checksum_sum [symmetric]
    by (auto simp: gb_init_def Let_def len g)
qed

text \<open>
  The amended statement at the 32 KiB image \<open>bank_rom 0x00 0x00 0xE7\<close>: its checksum
  byte 0xE7 is \<^verbatim>\<open>-25 mod 256\<close>, its type and size codes are 0, and \<^verbatim>\<open>gb_init\<close>
  succeeds. It succeeds as well on the image \<open>bank_rom 0x00 0x09 0xDE\<close>, whose ROM
  size code 9 is outside the table of nine elements.
\<close>

theorem gb_init_result_witness:
  "bank_rom 0x00 0x00 0xE7 0x014D =
     of_int (- 25 - (\<Sum>i\<leftarrow>[0x0134 ..< 0x014D]. uint (bank_rom 0x00 0x00 0xE7 i))) \<and>
   (\<exists>gb'. gb_init (\<lambda>i. 0) (\<lambda>i. 0) zero_gb (bank_rom 0x00 0x00 0xE7) =
      Some (GB_INIT_NO_ERROR, gb')) \<and>
   bank_rom 0x00 0x09 0xDE 0x014D =
     of_int (- 25 - (\<Sum>i\<leftarrow>[0x0134 ..< 0x014D]. uint (bank_rom 0x00 0x09 0xDE i))) \<and>
   unat (bank_rom 0x00 0x09 0xDE 0x0148) = 9 \<and>
   (\<exists>gb'. gb_init (\<lambda>i. 0) (\<lambda>i. 0) zero_gb (bank_rom 0x00 0x09 0xDE) =
      Some (GB_INIT_NO_ERROR, gb'))"
  using gb_init_result [of "\<lambda>i. 0" "\<lambda>i. 0" zero_gb "bank_rom 0x00 0x00 0xE7"]
    gb_init_result [of "\<lambda>i. 0" "\<lambda>i. 0" zero_gb "bank_rom 0x00 0x09 0xDE"]
  by (simp add: bank_rom_def upt_header cart_mbc_def)

text \<open>
  C2 as stated fails. The image \<open>bank_rom 0x00 0x00 0xE7\<close> is accepted although the
  equation of the specification does not hold for it; the image with checksum
  byte 0xFF satisfies that equation and is rejected; and the image of cartridge
  type 0x04, whose checksum byte is the one the code computes, is rejected as
  unsupported.
\<close>

theorem gb_init_counterexample:
  "gb_init (\<lambda>i. 0) (\<lambda>i. 0) zero_gb (bank_rom 0x00 0x00 0xE7) = Some (GB_INIT_NO_ERROR, rom_only_gb) \<and>
   \<not> spec_header_checksum_ok (bank_rom 0x00 0x00 0xE7) \<and>
   spec_header_checksum_ok (bank_rom 0x00 0x00 0xFF) \<and>
   fst (the (gb_init (\<lambda>i. 0) (\<lambda>i. 0) zero_gb (bank_rom 0x00 0x00 0xFF))) = GB_INIT_INVALID_CHECKSUM \<and>
   header_checksum (bank_rom 0x04 0x00 0xE3) = bank_rom 0x04 0x00 0xE3 0x014D \<and>
   fst (the (gb_init (\<lambda>i. 0) (\<lambda>i. 0) zero_gb (bank_rom 0x04 0x00 0xE3))) = GB_INIT_CARTRIDGE_UNSUPPORTED"
  using rom_only_gb_init
  by (simp add: spec_header_checksum_ok_def init_defs Let_def)

section \<open>Frame properties of \<^verbatim>\<open>__gb_write\<close>\<close>

lemma m8: "(0xFF :: u16) = mask 8"
  by (simp add: mask_eq_exp_minus_1)

lemma GET_LSB16_mod: "GET_LSB16 addr = unat addr mod 256"
  unfolding GET_LSB16_def m8
  by (simp add: take_bit_eq_mod unat_mod flip: take_bit_eq_mask)

lemma unat_u16_lt: "unat (addr :: u16) < 65536"
  using unsigned_less [of addr, where 'a = nat] by simp

lemma addr_eq_iff: "(addr :: u16) = numeral k \<longleftrightarrow> unat addr = unat (numeral k :: u16)"
  by (simp add: word_unat_eq_iff)


lemma dma_copy_shape:
  "dma_copy gb d i = Some gb' \<Longrightarrow> \<exists>om. gb' = gb\<lparr>oam := om\<rparr>"
proof (induction gb d i rule: dma_copy.induct)
  case (1 gb d i)
  show ?case
  proof (cases "i < OAM_SIZE")
    case True
    with "1.prems" obtain v where v: "gb_read gb (d + of_nat i) = Some v"
      and r: "dma_copy (gb\<lparr>oam := (oam gb)(i := v)\<rparr>) d (i + 1) = Some gb'"
      by (subst (asm) dma_copy.simps) (auto split: option.splits)
    from "1.IH" [OF True v r] obtain om where "gb' = gb\<lparr>oam := (oam gb)(i := v)\<rparr>\<lparr>oam := om\<rparr>"
      by blast
    then have "gb' = gb\<lparr>oam := om\<rparr>" by simp
    then show ?thesis by blast
  next
    case False
    with "1.prems" have "gb' = gb\<lparr>oam := oam gb\<rparr>"
      by (subst (asm) dma_copy.simps) simp
    then show ?thesis by blast
  qed
qed

lemma gb_write_low_frame:
  assumes "GET_MSN16 addr \<noteq> 15" "gb_write gb addr val = Some gb'"
  shows "hram_io gb' = hram_io gb \<and> cpu_reg gb' = cpu_reg gb \<and>
         gb_ime gb' = gb_ime gb \<and> gb_halt gb' = gb_halt gb"
  using assms
  by (auto simp: gb_write_def gb_write_case01_def gb_write_case2_def gb_write_case3_def
      gb_write_case45_def gb_write_case67_def gb_write_cart_ram_def Let_def
      split: if_splits)

lemma gb_write_io_frame:
  assumes "gb_write_io gb addr val = Some gb'"
  shows "cpu_reg gb' = cpu_reg gb \<and> gb_ime gb' = gb_ime gb \<and> gb_halt gb' = gb_halt gb \<and>
         hram_io gb' IO_IF = (if GET_LSB16 addr = 0x0F then val OR 0xE0 else hram_io gb IO_IF) \<and>
         hram_io gb' IO_IE = (if GET_LSB16 addr = 0xFF then val else hram_io gb IO_IE)"
proof (cases "GET_LSB16 addr = 0x46")
  case True
  with assms obtain om where "gb' = gb\<lparr>hram_io := (hram_io gb)(IO_DMA := val)\<rparr>\<lparr>oam := om\<rparr>"
    by (auto simp: gb_write_io_def Let_def dest: dma_copy_shape)
  with True show ?thesis by simp
next
  case False
  with assms show ?thesis
    by (simp add: gb_write_io_def Let_def split: if_splits) auto
qed

section \<open>Frame properties of the timing pass\<close>

lemma div_loop_shape:
  "\<exists>v n. div_loop gb =
     gb\<lparr>hram_io := (hram_io gb)(IO_DIV := v), counter := (counter gb)\<lparr>div_count := n\<rparr>\<rparr>"
proof (induction gb rule: div_loop.induct)
  case (1 gb)
  show ?case
  proof (cases "div_count (counter gb) \<ge> DIV_CYCLES")
    case True
    let ?g = "gb\<lparr>hram_io := (hram_io gb)(IO_DIV := hram_io gb IO_DIV + 1),
                 counter := (counter gb)\<lparr>div_count := div_count (counter gb) - DIV_CYCLES\<rparr>\<rparr>"
    from "1.IH" [OF True] obtain v n where
      "div_loop ?g = ?g\<lparr>hram_io := (hram_io ?g)(IO_DIV := v),
                          counter := (counter ?g)\<lparr>div_count := n\<rparr>\<rparr>"
      by blast
    moreover have "div_loop gb = div_loop ?g"
      using True by (subst div_loop.simps) simp
    moreover have "?g\<lparr>hram_io := (hram_io ?g)(IO_DIV := v),
                      counter := (counter ?g)\<lparr>div_count := n\<rparr>\<rparr> =
        gb\<lparr>hram_io := (hram_io gb)(IO_DIV := v), counter := (counter gb)\<lparr>div_count := n\<rparr>\<rparr>"
      by (simp add: fun_upd_def cong: if_cong)
    ultimately show ?thesis by metis
  next
    case False
    then have "div_loop gb = gb\<lparr>hram_io := (hram_io gb)(IO_DIV := hram_io gb IO_DIV),
        counter := (counter gb)\<lparr>div_count := div_count (counter gb)\<rparr>\<rparr>"
      by (subst div_loop.simps) simp
    then show ?thesis by blast
  qed
qed

lemma rtc_loop_shape:
  "\<exists>n r. rtc_loop gb = gb\<lparr>counter := (counter gb)\<lparr>rtc_count := n\<rparr>, rtc_real := r\<rparr>"
proof (induction gb rule: rtc_loop.induct)
  case (1 gb)
  show ?case
  proof (cases "rtc_count (counter gb) \<ge> RTC_CYCLES")
    case True
    let ?g = "gb\<lparr>counter := (counter gb)\<lparr>rtc_count := rtc_count (counter gb) - RTC_CYCLES\<rparr>,
                 rtc_real := rtc_tick (rtc_real gb)\<rparr>"
    from "1.IH" [OF True] obtain n r where
      "rtc_loop ?g = ?g\<lparr>counter := (counter ?g)\<lparr>rtc_count := n\<rparr>, rtc_real := r\<rparr>"
      by blast
    moreover have "rtc_loop gb = rtc_loop ?g"
      using True by (subst rtc_loop.simps) simp
    moreover have "?g\<lparr>counter := (counter ?g)\<lparr>rtc_count := n\<rparr>, rtc_real := r\<rparr> =
        gb\<lparr>counter := (counter gb)\<lparr>rtc_count := n\<rparr>, rtc_real := r\<rparr>"
      by simp
    ultimately show ?thesis by metis
  next
    case False
    then have "rtc_loop gb = gb\<lparr>counter := (counter gb)\<lparr>rtc_count := rtc_count (counter gb)\<rparr>,
        rtc_real := rtc_real gb\<rparr>"
      by (subst rtc_loop.simps) simp
    then show ?thesis by blast
  qed
qed

lemma tima_loop_shape:
  "\<exists>n t i. tima_loop gb =
     gb\<lparr>counter := (counter gb)\<lparr>tima_count := n\<rparr>,
        hram_io := (hram_io gb)(IO_TIMA := t, IO_IF := hram_io gb IO_IF OR i)\<rparr> \<and>
     i AND 0xE0 = 0"
proof (induction gb rule: tima_loop.induct)
  case (1 gb)
  show ?case
  proof (cases "tima_count (counter gb) \<ge> tac_rate gb")
    case True
    from "1.IH" [OF True] obtain n t i where
      s: "tima_loop (tima_step gb) =
       (tima_step gb)\<lparr>counter := (counter (tima_step gb))\<lparr>tima_count := n\<rparr>,
        hram_io := (hram_io (tima_step gb))(IO_TIMA := t, IO_IF := hram_io (tima_step gb) IO_IF OR i)\<rparr>"
      and i: "i AND 0xE0 = 0"
      by blast
    have "tima_loop gb = tima_loop (tima_step gb)"
      using True by (subst tima_loop.simps) simp
    also note s
    also have "(tima_step gb)\<lparr>counter := (counter (tima_step gb))\<lparr>tima_count := n\<rparr>,
        hram_io := (hram_io (tima_step gb))(IO_TIMA := t, IO_IF := hram_io (tima_step gb) IO_IF OR i)\<rparr>
      = gb\<lparr>counter := (counter gb)\<lparr>tima_count := n\<rparr>,
        hram_io := (hram_io gb)(IO_TIMA := t, IO_IF := hram_io gb IO_IF OR
         (if hram_io gb IO_TIMA + 1 = 0 then TIMER_INTR OR i else i))\<rparr>"
      by (simp add: tima_step_def Let_def or.assoc fun_upd_def cong: if_cong)
    finally have "tima_loop gb = gb\<lparr>counter := (counter gb)\<lparr>tima_count := n\<rparr>,
        hram_io := (hram_io gb)(IO_TIMA := t, IO_IF := hram_io gb IO_IF OR
         (if hram_io gb IO_TIMA + 1 = 0 then TIMER_INTR OR i else i))\<rparr>" .
    moreover have "(if hram_io gb IO_TIMA + 1 = 0 then TIMER_INTR OR i else i) AND 0xE0 = 0"
      using i by (simp add: bit.conj_disj_distrib2)
    ultimately show ?thesis by blast
  next
    case False
    then have "tima_loop gb = gb\<lparr>counter := (counter gb)\<lparr>tima_count := tima_count (counter gb)\<rparr>,
        hram_io := (hram_io gb)(IO_TIMA := hram_io gb IO_TIMA, IO_IF := hram_io gb IO_IF OR 0)\<rparr>"
      by (subst tima_loop.simps) simp
    moreover have "(0::u8) AND 0xE0 = 0" by simp
    ultimately show ?thesis by blast
  qed
qed

lemma or_top_bits: "i AND 0xE0 = 0 \<Longrightarrow> (x OR i) AND 0xE0 = x AND (0xE0 :: u8)"
  by (simp add: bit.conj_disj_distrib2)

text \<open>What every unit of the timing pass leaves alone.\<close>

lemma div_timing_frame:
  "gb_halt (gb_div_timing g c) = gb_halt g \<and>
   hram_io (gb_div_timing g c) IO_IE = hram_io g IO_IE \<and>
   hram_io (gb_div_timing g c) IO_LCDC = hram_io g IO_LCDC \<and>
   hram_io (gb_div_timing g c) IO_IF = hram_io g IO_IF"
proof -
  let ?g = "g\<lparr>counter := (counter g)\<lparr>div_count := div_count (counter g) + c\<rparr>\<rparr>"
  obtain v n where "div_loop ?g =
     ?g\<lparr>hram_io := (hram_io ?g)(IO_DIV := v), counter := (counter ?g)\<lparr>div_count := n\<rparr>\<rparr>"
    using div_loop_shape [of ?g] by blast
  then show ?thesis by (simp add: gb_div_timing_def)
qed

lemma rtc_timing_frame:
  "gb_halt (gb_rtc_timing g c) = gb_halt g \<and>
   hram_io (gb_rtc_timing g c) = hram_io g \<and>
   div_count (counter (gb_rtc_timing g c)) = div_count (counter g)"
proof -
  let ?g = "g\<lparr>counter := (counter g)\<lparr>rtc_count := rtc_count (counter g) + c\<rparr>\<rparr>"
  obtain n r where "rtc_loop ?g =
     ?g\<lparr>counter := (counter ?g)\<lparr>rtc_count := n\<rparr>, rtc_real := r\<rparr>"
    using rtc_loop_shape [of ?g] by blast
  then show ?thesis by (simp add: gb_rtc_timing_def)
qed

lemma serial_timing_frame:
  "gb_halt (gb_serial_timing g c rx) = gb_halt g \<and>
   hram_io (gb_serial_timing g c rx) IO_IE = hram_io g IO_IE \<and>
   hram_io (gb_serial_timing g c rx) IO_LCDC = hram_io g IO_LCDC \<and>
   hram_io (gb_serial_timing g c rx) IO_IF AND 0xE0 = hram_io g IO_IF AND 0xE0 \<and>
   hram_io (gb_serial_timing g c rx) IO_DIV = hram_io g IO_DIV \<and>
   div_count (counter (gb_serial_timing g c rx)) = div_count (counter g)"
  by (simp add: gb_serial_timing_def Let_def or_top_bits split: option.splits)

lemma tima_timing_frame:
  "gb_halt (gb_tima_timing g c) = gb_halt g \<and>
   hram_io (gb_tima_timing g c) IO_IE = hram_io g IO_IE \<and>
   hram_io (gb_tima_timing g c) IO_LCDC = hram_io g IO_LCDC \<and>
   hram_io (gb_tima_timing g c) IO_IF AND 0xE0 = hram_io g IO_IF AND 0xE0 \<and>
   hram_io (gb_tima_timing g c) IO_DIV = hram_io g IO_DIV \<and>
   div_count (counter (gb_tima_timing g c)) = div_count (counter g)"
proof -
  let ?g = "g\<lparr>counter := (counter g)\<lparr>tima_count := tima_count (counter g) + c\<rparr>\<rparr>"
  obtain n t i where "tima_loop ?g =
     ?g\<lparr>counter := (counter ?g)\<lparr>tima_count := n\<rparr>,
        hram_io := (hram_io ?g)(IO_TIMA := t, IO_IF := hram_io ?g IO_IF OR i)\<rparr>"
    and "i AND 0xE0 = 0"
    using tima_loop_shape [of ?g] by blast
  then show ?thesis by (simp add: gb_tima_timing_def or_top_bits)
qed

lemma lcd_off_timing_frame:
  "gb_halt (gb_lcd_off_timing g c) = gb_halt g \<and>
   hram_io (gb_lcd_off_timing g c) = hram_io g \<and>
   div_count (counter (gb_lcd_off_timing g c)) = div_count (counter g)"
  by (simp add: gb_lcd_off_timing_def Let_def)

lemma request_interrupt_simps [simp]:
  "gb_halt (gb_request_interrupt g i) = gb_halt g"
  "counter (gb_request_interrupt g i) = counter g"
  "lcd_blank (gb_request_interrupt g i) = lcd_blank g"
  "display (gb_request_interrupt g i) = display g"
  "direct (gb_request_interrupt g i) = direct g"
  "hram_io (gb_request_interrupt g i) k =
     (if k = IO_IF then hram_io g IO_IF OR i else hram_io g k)"
  by (simp_all add: gb_request_interrupt_def)

lemma set_stat_mode_simps [simp]:
  "gb_halt (gb_set_stat_mode g m) = gb_halt g"
  "counter (gb_set_stat_mode g m) = counter g"
  "lcd_blank (gb_set_stat_mode g m) = lcd_blank g"
  "display (gb_set_stat_mode g m) = display g"
  "direct (gb_set_stat_mode g m) = direct g"
  "hram_io (gb_set_stat_mode g m) k =
     (if k = IO_STAT then (hram_io g IO_STAT AND NOT STAT_MODE) OR m else hram_io g k)"
  by (simp_all add: gb_set_stat_mode_def)

lemma draw_line_simps [simp]:
  "gb_halt (gb_draw_line g) = gb_halt g"
  "counter (gb_draw_line g) = counter g"
  "hram_io (gb_draw_line g) = hram_io g"
  by (simp_all add: gb_draw_line_def Let_def)

lemma lcd_vblank_frame:
  "gb_halt (fst (gb_lcd_vblank g)) = gb_halt g \<and>
   hram_io (fst (gb_lcd_vblank g)) IO_IE = hram_io g IO_IE \<and>
   hram_io (fst (gb_lcd_vblank g)) IO_LCDC = hram_io g IO_LCDC \<and>
   hram_io (fst (gb_lcd_vblank g)) IO_IF AND 0xE0 = hram_io g IO_IF AND 0xE0 \<and>
   hram_io (fst (gb_lcd_vblank g)) IO_DIV = hram_io g IO_DIV \<and>
   div_count (counter (fst (gb_lcd_vblank g))) = div_count (counter g)"
  by (simp add: gb_lcd_vblank_def Let_def or_top_bits bit.conj_disj_distrib2)

lemma lcd_oam_scan_frame:
  "gb_halt (gb_lcd_oam_scan g) = gb_halt g \<and>
   hram_io (gb_lcd_oam_scan g) IO_IE = hram_io g IO_IE \<and>
   hram_io (gb_lcd_oam_scan g) IO_LCDC = hram_io g IO_LCDC \<and>
   hram_io (gb_lcd_oam_scan g) IO_IF AND 0xE0 = hram_io g IO_IF AND 0xE0 \<and>
   hram_io (gb_lcd_oam_scan g) IO_DIV = hram_io g IO_DIV \<and>
   div_count (counter (gb_lcd_oam_scan g)) = div_count (counter g)"
  by (simp add: gb_lcd_oam_scan_def Let_def or_top_bits)

lemma lcd_new_line_frame:
  "gb_halt (fst (gb_lcd_new_line g c)) = gb_halt g \<and>
   hram_io (fst (gb_lcd_new_line g c)) IO_IE = hram_io g IO_IE \<and>
   hram_io (fst (gb_lcd_new_line g c)) IO_LCDC = hram_io g IO_LCDC \<and>
   hram_io (fst (gb_lcd_new_line g c)) IO_IF AND 0xE0 = hram_io g IO_IF AND 0xE0 \<and>
   hram_io (fst (gb_lcd_new_line g c)) IO_DIV = hram_io g IO_DIV \<and>
   div_count (counter (fst (gb_lcd_new_line g c))) = div_count (counter g)"
  by (simp add: gb_lcd_new_line_def Let_def split_beta lcd_vblank_frame lcd_oam_scan_frame
      or_top_bits)

lemma lcd_timing_frame:
  "gb_halt (fst (gb_lcd_timing g c)) = gb_halt g \<and>
   hram_io (fst (gb_lcd_timing g c)) IO_IE = hram_io g IO_IE \<and>
   hram_io (fst (gb_lcd_timing g c)) IO_LCDC = hram_io g IO_LCDC \<and>
   hram_io (fst (gb_lcd_timing g c)) IO_IF AND 0xE0 = hram_io g IO_IF AND 0xE0 \<and>
   hram_io (fst (gb_lcd_timing g c)) IO_DIV = hram_io g IO_DIV \<and>
   div_count (counter (fst (gb_lcd_timing g c))) = div_count (counter g)"
  by (simp add: gb_lcd_timing_def Let_def lcd_new_line_frame or_top_bits)

lemma div_loop_DIV:
  "hram_io (div_loop gb) IO_DIV = hram_io gb IO_DIV + of_nat (div_count (counter gb) div 256)"
proof (induction gb rule: div_loop.induct)
  case (1 gb)
  show ?case
  proof (cases "div_count (counter gb) \<ge> DIV_CYCLES")
    case True
    then have d: "div_count (counter gb) div 256 = Suc ((div_count (counter gb) - 256) div 256)"
      by (simp add: le_div_geq)
    have "hram_io (div_loop gb) IO_DIV =
          hram_io gb IO_DIV + 1 + of_nat ((div_count (counter gb) - 256) div 256)"
      using True "1.IH" [OF True] by (subst div_loop.simps) simp
    then show ?thesis unfolding d by (simp add: add.assoc)
  next
    case False
    then show ?thesis by (subst div_loop.simps) simp
  qed
qed

lemma div_loop_div_count:
  "div_count (counter (div_loop gb)) = div_count (counter gb) mod 256"
proof (induction gb rule: div_loop.induct)
  case (1 gb)
  show ?case
  proof (cases "div_count (counter gb) \<ge> DIV_CYCLES")
    case True
    have "div_count (counter (div_loop gb)) = (div_count (counter gb) - 256) mod 256"
      using True "1.IH" [OF True] by (subst div_loop.simps) simp
    with True show ?thesis by (simp add: le_mod_geq)
  next
    case False
    then show ?thesis by (subst div_loop.simps) simp
  qed
qed

lemma step_timing_frame:
  "gb_halt (fst (gb_step_timing g c rx)) = gb_halt g \<and>
   hram_io (fst (gb_step_timing g c rx)) IO_IE = hram_io g IO_IE \<and>
   hram_io (fst (gb_step_timing g c rx)) IO_LCDC = hram_io g IO_LCDC \<and>
   hram_io (fst (gb_step_timing g c rx)) IO_IF AND 0xE0 = hram_io g IO_IF AND 0xE0"
  by (simp add: gb_step_timing_def Let_def div_timing_frame rtc_timing_frame
      serial_timing_frame tima_timing_frame lcd_off_timing_frame lcd_timing_frame)

lemma step_timing_lcd_off:
  "hram_io g IO_LCDC AND LCDC_ENABLE = 0 \<Longrightarrow> \<not> snd (snd (gb_step_timing g c rx))"
  by (simp add: gb_step_timing_def Let_def div_timing_frame rtc_timing_frame
      serial_timing_frame tima_timing_frame)

lemma step_timing_DIV:
  "hram_io (fst (gb_step_timing g c rx)) IO_DIV =
     hram_io g IO_DIV + of_nat ((div_count (counter g) + c) div 256) \<and>
   div_count (counter (fst (gb_step_timing g c rx))) = (div_count (counter g) + c) mod 256"
  by (simp add: gb_step_timing_def Let_def rtc_timing_frame
      serial_timing_frame tima_timing_frame lcd_off_timing_frame lcd_timing_frame
      gb_div_timing_def div_loop_DIV div_loop_div_count)

lemma timing_loop_never_exits:
  assumes "gb_halt g" "hram_io g IO_IE = 0" "hram_io g IO_LCDC AND LCDC_ENABLE = 0"
  shows "gb_timing_loop fuel g c rxs = None"
  using assms
proof (induction fuel arbitrary: g c rxs)
  case 0
  show ?case by simp
next
  case (Suc fuel)
  obtain g' c' brk where s: "gb_step_timing g c (rxs 0) = (g', c', brk)"
    by (cases "gb_step_timing g c (rxs 0)") auto
  from step_timing_frame [of g c "rxs 0"] s Suc.prems
  have g': "gb_halt g'" "hram_io g' IO_IE = 0" "hram_io g' IO_LCDC AND LCDC_ENABLE = 0"
    by simp_all
  from step_timing_lcd_off [OF Suc.prems(3), of c "rxs 0"] s have "\<not> brk" by simp
  with s g' Suc.IH [OF g'] show ?case by simp
qed

lemma div_256_split: "(x::nat) div 256 + (x mod 256 + e) div 256 = (x + e) div 256"
  by (simp add: div_add1_eq [of x e] div_add1_eq [of "x mod 256" e])

lemma mod_256_split: "((x::nat) mod 256 + e) mod 256 = (x + e) mod 256"
  by (simp add: mod_simps)

lemma elapse_DIV:
  assumes "div_count (counter g) < 256"
  shows "hram_io (gb_elapse g passes) IO_DIV =
     hram_io g IO_DIV + of_nat ((div_count (counter g) + elapsed_cycles passes) div 256) \<and>
   div_count (counter (gb_elapse g passes)) =
     (div_count (counter g) + elapsed_cycles passes) mod 256"
  using assms
proof (induction passes arbitrary: g)
  case Nil
  then show ?case by (simp add: elapsed_cycles_def)
next
  case (Cons p passes)
  obtain c rx where p: "p = (c, rx)" by (cases p)
  let ?d = "div_count (counter g) + c"
  let ?e = "elapsed_cycles passes"
  let ?g = "fst (gb_step_timing g c rx)"
  have e: "elapsed_cycles ((c, rx) # passes) = c + ?e"
    by (simp add: elapsed_cycles_def)
  have s: "hram_io ?g IO_DIV = hram_io g IO_DIV + of_nat (?d div 256)"
    "div_count (counter ?g) = ?d mod 256"
    using step_timing_DIV [of g c rx] by simp_all
  have lt: "div_count (counter ?g) < 256"
    unfolding s by simp
  from Cons.IH [OF lt]
  have ih: "hram_io (gb_elapse ?g passes) IO_DIV =
      hram_io g IO_DIV + of_nat (?d div 256) + of_nat ((?d mod 256 + ?e) div 256)"
    "div_count (counter (gb_elapse ?g passes)) = (?d mod 256 + ?e) mod 256"
    unfolding s by simp_all
  have "hram_io g IO_DIV + of_nat (?d div 256) + of_nat ((?d mod 256 + ?e) div 256) =
        hram_io g IO_DIV + of_nat (?d div 256 + (?d mod 256 + ?e) div 256)"
    by (simp only: of_nat_add add.assoc)
  also have "\<dots> = hram_io g IO_DIV + of_nat ((?d + ?e) div 256)"
    by (simp only: div_256_split)
  finally have a: "hram_io (gb_elapse ?g passes) IO_DIV =
      hram_io g IO_DIV + of_nat ((?d + ?e) div 256)"
    using ih(1) by simp
  have b: "div_count (counter (gb_elapse ?g passes)) = (?d + ?e) mod 256"
    using ih(2) by (simp only: mod_256_split)
  show ?case
    unfolding p gb_elapse.simps e using a b by (simp only: add.assoc)
qed

lemma gb_write_DIV:
  "gb_write gb 0xFF04 v = Some (gb\<lparr>hram_io := (hram_io gb)(IO_DIV := 0x00)\<rparr>)"
  by (simp add: io_write_defs)

lemma gb_read_DIV: "gb_read gb 0xFF04 = Some (hram_io gb IO_DIV)"
  by (simp add: io_read_defs)

lemma rom_only_gb_fields:
  "div_count (counter rom_only_gb) = 0" "hram_io rom_only_gb IO_STAT = 0x85"
  "hram_io rom_only_gb IO_IF = 0xE1" "hram_io rom_only_gb IO_IE = 0x00"
  "hram_io rom_only_gb IO_LCDC = 0x91" "gb_ime rom_only_gb" "\<not> gb_halt rom_only_gb"
  "cpu_reg rom_only_gb =
     \<lparr>f = 0xB0, a = 0x01, bc = 0x0013, de = 0x00D8, hl = 0x014D, sp = 0xFFFE, pc = 0x0100\<rparr>"
  by (simp_all add: rom_only_gb_def init_defs io_write_defs)

lemma elapsed_replicate: "elapsed_cycles (replicate n (c, rx)) = n * c"
  by (simp add: elapsed_cycles_def sum_list_replicate)

lemma div200: "div_count (counter div200_gb) = 200"
  unfolding div200_gb_def
  using elapse_DIV [of rom_only_gb "replicate 50 (4, None)"]
  by (simp only: elapsed_replicate rom_only_gb_fields) simp

subsection \<open>C1: writes to DIV\<close>

text \<open>
  C1 (as amended). A CPU write of any value to 0xFF04 sets the register \<^verbatim>\<open>DIV\<close> to 0
  and leaves the internal cycle count \<^verbatim>\<open>div_count\<close> as it is. The read that follows
  at once returns 0; after \<open>n\<close> more T-cycles a read returns
  \<^verbatim>\<open>(div_count + n) div 256\<close> (as a byte), so it returns 0 as long as
  \<^verbatim>\<open>div_count + n < 256\<close>, and after exactly 256 T-cycles it returns 1.
\<close>

theorem div_write_keeps_cycle_count:
  assumes "div_count (counter gb) < DIV_CYCLES"
  shows "\<exists>gb'. gb_write gb 0xFF04 v = Some gb' \<and>
           div_count (counter gb') = div_count (counter gb) \<and>
           gb_read gb' 0xFF04 = Some 0 \<and>
           (\<forall>passes. gb_read (gb_elapse gb' passes) 0xFF04 =
              Some (of_nat ((div_count (counter gb) + elapsed_cycles passes) div 256))) \<and>
           (\<forall>passes. div_count (counter gb) + elapsed_cycles passes < 256 \<longrightarrow>
              gb_read (gb_elapse gb' passes) 0xFF04 = Some 0) \<and>
           (\<forall>passes. elapsed_cycles passes = 256 \<longrightarrow>
              gb_read (gb_elapse gb' passes) 0xFF04 = Some 1)"
proof -
  let ?g = "gb\<lparr>hram_io := (hram_io gb)(IO_DIV := 0x00)\<rparr>"
  have r: "hram_io (gb_elapse ?g passes) IO_DIV =
      of_nat ((div_count (counter gb) + elapsed_cycles passes) div 256)" for passes
    using elapse_DIV [of ?g passes] assms by simp
  have one: "(div_count (counter gb) + 256) div 256 = 1"
    using assms by simp
  show ?thesis
    by (simp add: gb_write_DIV gb_read_DIV r one)
qed

text \<open>
  The amended statement from the context \<open>div200_gb\<close>, where \<^verbatim>\<open>div_count\<close> is 200: the
  read returns 0 after 52 T-cycles and 1 after 256.
\<close>

theorem div_write_keeps_cycle_count_witness:
  "div_count (counter div200_gb) < DIV_CYCLES \<and>
   div_count (counter (the (gb_write div200_gb 0xFF04 0x42))) = 200 \<and>
   gb_read (the (gb_write div200_gb 0xFF04 0x42)) 0xFF04 = Some 0 \<and>
   gb_read (gb_elapse (the (gb_write div200_gb 0xFF04 0x42)) (replicate 13 (4, None))) 0xFF04
     = Some 0 \<and>
   gb_read (gb_elapse (the (gb_write div200_gb 0xFF04 0x42)) (replicate 64 (4, None))) 0xFF04
     = Some 1"
proof -
  have lt: "div_count (counter div200_gb) < DIV_CYCLES" by (simp add: div200)
  from div_write_keeps_cycle_count [OF lt, of "0x42"] obtain gb' where
    w: "gb_write div200_gb 0xFF04 0x42 = Some gb'"
    and d: "div_count (counter gb') = div_count (counter div200_gb)"
    and r0: "gb_read gb' 0xFF04 = Some 0"
    and rb: "\<forall>passes. div_count (counter div200_gb) + elapsed_cycles passes < 256 \<longrightarrow>
              gb_read (gb_elapse gb' passes) 0xFF04 = Some 0"
    and ra: "\<forall>passes. elapsed_cycles passes = 256 \<longrightarrow>
              gb_read (gb_elapse gb' passes) 0xFF04 = Some 1"
    by blast
  have "gb_read (gb_elapse gb' (replicate 13 (4, None))) 0xFF04 = Some 0"
    using rb [rule_format, of "replicate 13 (4, None)"]
    by (simp add: elapsed_replicate div200)
  moreover have "gb_read (gb_elapse gb' (replicate 64 (4, None))) 0xFF04 = Some 1"
    using ra [rule_format, of "replicate 64 (4, None)"]
    by (simp add: elapsed_replicate)
  ultimately show ?thesis
    using lt w d r0 by (simp add: div200)
qed

text \<open>
  C1 as stated fails: the write does not reset \<^verbatim>\<open>div_count\<close>. In \<open>div200_gb\<close> the
  count is still 200 after the write, and a read 56 T-cycles later returns 1.
\<close>

theorem div_write_counterexample:
  "div_count (counter (the (gb_write div200_gb 0xFF04 0x42))) = 200 \<and>
   elapsed_cycles (replicate 14 (4, None)) = 56 \<and>
   gb_read (gb_elapse (the (gb_write div200_gb 0xFF04 0x42)) (replicate 14 (4, None))) 0xFF04
     = Some 1"
proof -
  let ?g = "div200_gb\<lparr>hram_io := (hram_io div200_gb)(IO_DIV := 0x00)\<rparr>"
  have "div_count (counter ?g) < 256" by (simp add: div200)
  from elapse_DIV [OF this, of "replicate 14 (4, None)"]
  have "hram_io (gb_elapse ?g (replicate 14 (4, None))) IO_DIV = 1"
    by (simp add: elapsed_replicate div200)
  then show ?thesis
    by (simp add: gb_write_DIV gb_read_DIV elapsed_replicate div200)
qed

subsection \<open>C3: the ROM bank register of MBC1\<close>

lemma mbc1_gb_fields:
  "mbc mbc1_gb = 1" "num_rom_banks_mask mbc1_gb = 0x7F" "selected_rom_bank mbc1_gb = 1"
  "cart_mode_select mbc1_gb = 0" "gb_rom_read mbc1_gb = bank_rom 0x01 0x06 0xE0"
  by (simp_all add: mbc1_gb_def init_defs io_write_defs)

text \<open>
  C3 (as amended). On an MBC1 cartridge with \<^verbatim>\<open>num_rom_banks_mask = 0x7F\<close>, from reset:
  after writing 0x00 to 0x2000, reads in 0x4000 to 0x7FFF come from ROM bank 1; after
  then writing 0x20 to 0x2000 they still come from bank 1, because only the low
  five bits of the value written are used (and zero is promoted to 1). Bank 0x21
  is selected by writing 0x01 to 0x4000 (bits 5 and 6 of the bank) and then 0x00
  to 0x2000.
\<close>

theorem mbc1_rom_bank_low_bits:
  assumes "mbc gb = 1" "num_rom_banks_mask gb = 0x7F" "selected_rom_bank gb = 1"
    "cart_mode_select gb = 0" "0x4000 \<le> addr" "addr \<le> 0x7FFF"
  shows "\<exists>gb1 gb2 gb3 gb4.
           gb_write gb 0x2000 0x00 = Some gb1 \<and> selected_rom_bank gb1 = 1 \<and>
           gb_read gb1 addr = Some (gb_rom_read gb (unat addr - 0x4000 + 1 * 0x4000)) \<and>
           gb_write gb1 0x2000 0x20 = Some gb2 \<and> selected_rom_bank gb2 = 1 \<and>
           gb_read gb2 addr = Some (gb_rom_read gb (unat addr - 0x4000 + 1 * 0x4000)) \<and>
           gb_write gb2 0x4000 0x01 = Some gb3 \<and>
           gb_write gb3 0x2000 0x00 = Some gb4 \<and> selected_rom_bank gb4 = 0x21 \<and>
           gb_read gb4 addr = Some (gb_rom_read gb (unat addr - 0x4000 + 0x21 * 0x4000))"
proof -
  from assms(5) have ge: "0x4000 \<le> unat addr" by (simp add: word_le_nat_alt)
  have a1: "nat (uint addr + 524288) = 524288 + unat addr"
    by (simp add: nat_add_distrib)
  show ?thesis
    using assms(1-4) ge
    by (simp add: gb_write_2000 gb_write_4000 gb_write_case2_def gb_write_case3_def
        gb_write_case45_def gb_read_4000_7FFF [OF assms(5,6)] Let_def a1)
qed

text \<open>
  The amended statement on the context \<open>mbc1_gb\<close> at address 0x4000: the byte read
  after the writes of 0x00 and 0x20 to 0x2000 is 0x01, the number of its bank.
\<close>

theorem mbc1_rom_bank_low_bits_witness:
  "mbc mbc1_gb = 1 \<and> num_rom_banks_mask mbc1_gb = 0x7F \<and> selected_rom_bank mbc1_gb = 1 \<and>
   cart_mode_select mbc1_gb = 0 \<and> (0x4000 :: u16) \<le> 0x4000 \<and> (0x4000 :: u16) \<le> 0x7FFF \<and>
   gb_read (the (gb_write (the (gb_write mbc1_gb 0x2000 0x00)) 0x2000 0x20)) 0x4000
     = Some 0x01"
proof -
  have h: "(0x4000 :: u16) \<le> 0x4000" "(0x4000 :: u16) \<le> 0x7FFF" by simp_all
  from mbc1_rom_bank_low_bits [OF mbc1_gb_fields(1-4) h]
  obtain gb1 gb2 where "gb_write mbc1_gb 0x2000 0x00 = Some gb1"
    "gb_write gb1 0x2000 0x20 = Some gb2"
    "gb_read gb2 0x4000 = Some (gb_rom_read mbc1_gb (unat (0x4000 :: u16) - 0x4000 + 1 * 0x4000))"
    by blast
  then show ?thesis
    by (simp add: mbc1_gb_fields bank_rom_def)
qed

text \<open>
  C3 as stated fails in its second half: after writing 0x00 and then 0x20 to 0x2000
  the read at 0x4000 returns the first byte of bank 1, not that of bank 0x21.
\<close>

theorem mbc1_write_0x20_counterexample:
  "gb_read (the (gb_write (the (gb_write mbc1_gb 0x2000 0x00)) 0x2000 0x20)) 0x4000
     = Some (gb_rom_read mbc1_gb (1 * 0x4000)) \<and>
   gb_rom_read mbc1_gb (1 * 0x4000) = 0x01 \<and>
   gb_rom_read mbc1_gb (0x21 * 0x4000) = 0x21"
  by (simp add: gb_write_2000 gb_write_case2_def gb_write_case3_def mbc1_gb_fields
      gb_read_4000_7FFF Let_def bank_rom_def)

subsection \<open>C4: illegal values of the real-time clock\<close>

lemma rtc_loop_once:
  assumes "RTC_CYCLES \<le> rtc_count (counter gb)" "rtc_count (counter gb) < 2 * RTC_CYCLES"
  shows "rtc_loop gb =
     gb\<lparr>counter := (counter gb)\<lparr>rtc_count := rtc_count (counter gb) - RTC_CYCLES\<rparr>,
        rtc_real := rtc_tick (rtc_real gb)\<rparr>"
  using assms by (subst rtc_loop.simps, subst rtc_loop.simps) simp

lemma mbc3_gb_fields:
  "mbc mbc3_gb = 3" "\<not> cart_is_mbc3O mbc3_gb" "cart_ram_bank mbc3_gb = 0"
  "rtc_real mbc3_gb = \<lparr>sec = 0, min_r = 0, hour = 0, yday = 0, high = 0\<rparr>"
  "rtc_latched mbc3_gb = \<lparr>sec = 0, min_r = 0, hour = 0, yday = 0, high = 0\<rparr>"
  "cart_mode_select mbc3_gb = 0"
  by (simp_all add: mbc3_gb_def init_defs io_write_defs)

lemma rtc63_gb_fields:
  "mbc rtc63_gb = 3" "rtc_real rtc63_gb = \<lparr>sec = 63, min_r = 0, hour = 0, yday = 0, high = 0\<rparr>"
  "rtc_count (counter rtc63_gb) = RTC_CYCLES - 4"
  by (simp_all add: rtc63_gb_def gb_write_4000 gb_write_case45_def mbc3_gb_fields
      gb_write_A000_BFFF gb_write_cart_ram_def rtc_reg_mask_def rtc_set_byte_def Let_def)

text \<open>
  C4 (as amended). On MBC3 with the HALT flag clear, a tick of the clock (one pass
  through the RTC loop) resets a seconds register that holds 63 to 0 and leaves
  minutes alone; a minutes register that holds 63 is reset to 0, with hours left
  alone, by the tick on which seconds roll over from 59; an hours register that
  holds 31 is reset to 0, with the day counter left alone, by the tick on which
  minutes roll over from 59. The counter does not stay at the illegal value.
\<close>

theorem rtc_illegal_values_reset_without_carry:
  assumes "mbc gb = 3" "high (rtc_real gb) AND 0x40 = 0"
    and "RTC_CYCLES \<le> rtc_count (counter gb) + inst_cycles"
    and "rtc_count (counter gb) + inst_cycles < 2 * RTC_CYCLES"
  shows "rtc_real (gb_rtc_timing gb inst_cycles) = rtc_tick (rtc_real gb) \<and>
     rtc_tick (r\<lparr>sec := 63\<rparr>) = r\<lparr>sec := 0\<rparr> \<and>
     rtc_tick (r\<lparr>sec := 59, min_r := 63\<rparr>) = r\<lparr>sec := 0, min_r := 0\<rparr> \<and>
     rtc_tick (r\<lparr>sec := 59, min_r := 59, hour := 31\<rparr>) = r\<lparr>sec := 0, min_r := 0, hour := 0\<rparr>"
  using assms by (simp add: gb_rtc_timing_def rtc_loop_once rtc_tick_def)

text \<open>
  The amended statement on the context \<open>rtc63_gb\<close>, whose seconds register was set
  to 63 through the MBC: four cycles later the register is 0 and the other
  registers are unchanged.
\<close>

theorem rtc_illegal_values_reset_without_carry_witness:
  "mbc rtc63_gb = 3 \<and> high (rtc_real rtc63_gb) AND 0x40 = 0 \<and>
   RTC_CYCLES \<le> rtc_count (counter rtc63_gb) + 4 \<and>
   rtc_count (counter rtc63_gb) + 4 < 2 * RTC_CYCLES \<and>
   rtc_real (gb_rtc_timing rtc63_gb 4) =
     \<lparr>sec = 0, min_r = 0, hour = 0, yday = 0, high = 0\<rparr>"
proof -
  have h: "mbc rtc63_gb = 3" "high (rtc_real rtc63_gb) AND 0x40 = 0"
    "RTC_CYCLES \<le> rtc_count (counter rtc63_gb) + 4"
    "rtc_count (counter rtc63_gb) + 4 < 2 * RTC_CYCLES"
    by (simp_all add: rtc63_gb_fields)
  from rtc_illegal_values_reset_without_carry [OF h,
      of "\<lparr>sec = 0, min_r = 0, hour = 0, yday = 0, high = 0\<rparr>"]
  show ?thesis using h by (simp add: rtc63_gb_fields)
qed

text \<open>
  C4 as stated fails: in \<open>rtc63_gb\<close> the seconds register holds 63 and the clock is
  not halted, and the next tick leaves 0 in it, not 63.
\<close>

theorem rtc_seconds_63_counterexample:
  "sec (rtc_real rtc63_gb) = 63 \<and> high (rtc_real rtc63_gb) AND 0x40 = 0 \<and>
   sec (rtc_real (gb_rtc_timing rtc63_gb 4)) = 0"
  by (simp add: rtc63_gb_fields gb_rtc_timing_def rtc_loop_once rtc_tick_def)

subsection \<open>C5: writes to STAT\<close>

lemma gb_write_STAT:
  "gb_write gb 0xFF41 v =
     Some (gb\<lparr>hram_io := (hram_io gb)
       (IO_STAT := (v AND STAT_USER_BITS) OR (hram_io gb IO_STAT AND STAT_MODE) OR 0x80)\<rparr>)"
  by (simp add: io_write_defs)

lemma gb_read_STAT: "gb_read gb 0xFF41 = Some (hram_io gb IO_STAT)"
  by (simp add: io_read_defs)

text \<open>
  C5: what the code does. A write of \<open>v\<close> to 0xFF41 keeps the bits 0 and 1 of
  \<^verbatim>\<open>STAT\<close> (the mode), copies the bits 3 to 6 of \<open>v\<close>, sets bit 7, and clears bit 2,
  the LY=LYC coincidence flag, whatever it was: the flag is not kept, as C5 says it
  is. Right after reset \<^verbatim>\<open>STAT\<close> reads 0x85, with the flag set; after a write of 0x00
  it reads 0x81.
\<close>

theorem stat_write_clears_coincidence_flag:
  "(\<exists>gb'. gb_write gb 0xFF41 v = Some gb' \<and>
      hram_io gb' IO_STAT AND STAT_MODE = hram_io gb IO_STAT AND STAT_MODE \<and>
      hram_io gb' IO_STAT AND STAT_LYC_COINC = 0 \<and>
      hram_io gb' IO_STAT AND 0x78 = v AND 0x78 \<and>
      hram_io gb' IO_STAT AND 0x80 = 0x80) \<and>
   gb_read rom_only_gb 0xFF41 = Some 0x85 \<and>
   gb_read (the (gb_write rom_only_gb 0xFF41 0x00)) 0xFF41 = Some 0x81"
  by (simp add: gb_write_STAT gb_read_STAT rom_only_gb_fields bit.conj_disj_distrib2 and.assoc)

subsection \<open>C9: the timing loop when the CPU halts with the LCD off\<close>

lemma lcd_off_gb_fields:
  "gb_write rom_only_gb 0xFF40 0x00 = Some lcd_off_gb"
  "hram_io lcd_off_gb IO_LCDC = 0x00" "hram_io lcd_off_gb IO_IE = 0x00"
  by (simp_all add: lcd_off_gb_def io_write_defs rom_only_gb_fields)

lemma op_halt_frame:
  "gb_halt (fst (gb_op_halt m g))" "hram_io (fst (gb_op_halt m g)) = hram_io g"
  by (simp_all add: gb_op_halt_def Let_def)

text \<open>
  C9: what the code does. In the context \<open>lcd_off_gb\<close> (after reset, the LCD
  switched off by a write of 0x00 to 0xFF40, \<^verbatim>\<open>IE = 0\<close>) the CPU executes HALT. The
  \<^verbatim>\<open>do\<close> loop of \<^verbatim>\<open>__gb_step_cpu\<close> that follows is still running after any number of
  passes, whatever the serial port receives: with the LCD off each pass ends in
  \<^verbatim>\<open>continue\<close>, and the loop condition \<^verbatim>\<open>gb_halt && (IF & IE) == 0\<close> stays true. So
  \<^verbatim>\<open>__gb_step_cpu\<close> does not return, and neither does \<^verbatim>\<open>gb_run_frame\<close>.
\<close>

theorem halt_with_lcd_off_never_returns:
  "gb_timing_loop fuel (fst (gb_op_halt int_fast16_max lcd_off_gb))
     (snd (gb_op_halt int_fast16_max lcd_off_gb)) rxs = None"
  by (rule timing_loop_never_exits) (simp_all add: op_halt_frame lcd_off_gb_fields)

subsection \<open>C10: the RTC registers of MBC3\<close>





section \<open>Interrupt service\<close>

lemma xor_exp_unset: "bit (x :: u8) k \<Longrightarrow> x XOR 2 ^ k = unset_bit k x"
  by (rule bit_eqI) (auto simp: bit_simps)

lemma and_exp_bit: "(x :: u8) AND 2 ^ k \<noteq> 0 \<longleftrightarrow> bit x k"
  by (simp add: and_exp_eq_0_iff_not_bit)

lemma any_intr_bits:
  assumes "(p :: u8) AND 0x1F \<noteq> 0"
  shows "bit p 0 \<or> bit p 1 \<or> bit p 2 \<or> bit p 3 \<or> bit p 4"
proof -
  have m: "(0x1F :: u8) = mask 5" by (simp add: mask_eq_exp_minus_1)
  from assms obtain n where "bit (p AND 0x1F) n"
    by (auto simp: bit_eq_iff)
  then have "bit p n" "n < 5" unfolding m by (simp_all add: bit_simps)
  then have "n = 0 \<or> n = 1 \<or> n = 2 \<or> n = 3 \<or> n = 4" by auto
  with \<open>bit p n\<close> show ?thesis by auto
qed

lemma io_page_mod:
  assumes "0xFF00 \<le> (n::nat)" "n < 0x10000"
  shows "n mod 256 = n - 0xFF00"
proof -
  have "n = (n - 0xFF00) + 255 * 256" using assms by simp
  then have "n mod 256 = ((n - 0xFF00) + 255 * 256) mod 256" by simp
  also have "\<dots> = (n - 0xFF00) mod 256" by (rule mod_mult_self1)
  also have "\<dots> = n - 0xFF00" using assms by simp
  finally show ?thesis .
qed

lemma call_interrupt_handler_lowest:
  assumes "(hram_io g IO_IF AND hram_io g IO_IE) AND ANY_INTR \<noteq> 0"
  shows "\<exists>k<5. bit (hram_io g IO_IF AND hram_io g IO_IE) k \<and>
           (\<forall>j<k. \<not> bit (hram_io g IO_IF AND hram_io g IO_IE) j) \<and>
           gb_call_interrupt_handler g =
             g\<lparr>cpu_reg := (cpu_reg g)\<lparr>pc := 0x0040 + 8 * of_nat k\<rparr>,
               hram_io := (hram_io g)(IO_IF := unset_bit k (hram_io g IO_IF))\<rparr>"
proof -
  let ?p = "hram_io g IO_IF AND hram_io g IO_IE"
  have t: "?p AND 0x01 \<noteq> 0 \<longleftrightarrow> bit ?p 0" "?p AND 0x02 \<noteq> 0 \<longleftrightarrow> bit ?p 1"
    "?p AND 0x04 \<noteq> 0 \<longleftrightarrow> bit ?p 2" "?p AND 0x08 \<noteq> 0 \<longleftrightarrow> bit ?p 3"
    "?p AND 0x10 \<noteq> 0 \<longleftrightarrow> bit ?p 4"
    using and_exp_bit [of ?p 0] and_exp_bit [of ?p 1] and_exp_bit [of ?p 2]
      and_exp_bit [of ?p 3] and_exp_bit [of ?p 4] by simp_all
  have x: "bit ?p k \<Longrightarrow> hram_io g IO_IF XOR 2 ^ k = unset_bit k (hram_io g IO_IF)" for k
    by (rule xor_exp_unset) (simp add: bit_and_iff)
  from any_intr_bits [OF assms]
  consider (0) "bit ?p 0"
    | (1) "\<not> bit ?p 0" "bit ?p 1"
    | (2) "\<not> bit ?p 0" "\<not> bit ?p 1" "bit ?p 2"
    | (3) "\<not> bit ?p 0" "\<not> bit ?p 1" "\<not> bit ?p 2" "bit ?p 3"
    | (4) "\<not> bit ?p 0" "\<not> bit ?p 1" "\<not> bit ?p 2" "\<not> bit ?p 3" "bit ?p 4"
    by blast
  then show ?thesis
  proof cases
    case 0
    with x [of 0] have "gb_call_interrupt_handler g =
        g\<lparr>cpu_reg := (cpu_reg g)\<lparr>pc := 0x0040 + 8 * of_nat 0\<rparr>,
          hram_io := (hram_io g)(IO_IF := unset_bit 0 (hram_io g IO_IF))\<rparr>"
      by (simp add: gb_call_interrupt_handler_def Let_def t)
    with 0 show ?thesis by (intro exI [of _ 0]) simp
  next
    case 1
    with x [of 1] have "gb_call_interrupt_handler g =
        g\<lparr>cpu_reg := (cpu_reg g)\<lparr>pc := 0x0040 + 8 * of_nat 1\<rparr>,
          hram_io := (hram_io g)(IO_IF := unset_bit 1 (hram_io g IO_IF))\<rparr>"
      by (simp add: gb_call_interrupt_handler_def Let_def t)
    with 1 show ?thesis by (intro exI [of _ 1]) (simp add: less_Suc_eq)
  next
    case 2
    with x [of 2] have "gb_call_interrupt_handler g =
        g\<lparr>cpu_reg := (cpu_reg g)\<lparr>pc := 0x0040 + 8 * of_nat 2\<rparr>,
          hram_io := (hram_io g)(IO_IF := unset_bit 2 (hram_io g IO_IF))\<rparr>"
      by (simp add: gb_call_interrupt_handler_def Let_def t)
    moreover have "\<forall>j<2. \<not> bit ?p j"
    proof (intro allI impI)
      fix j :: nat assume "j < 2"
      then have "j = 0 \<or> j = 1" by auto
      with 2 show "\<not> bit ?p j" by auto
    qed
    ultimately show ?thesis using 2 by (intro exI [of _ 2]) simp
  next
    case 3
    with x [of 3] have "gb_call_interrupt_handler g =
        g\<lparr>cpu_reg := (cpu_reg g)\<lparr>pc := 0x0040 + 8 * of_nat 3\<rparr>,
          hram_io := (hram_io g)(IO_IF := unset_bit 3 (hram_io g IO_IF))\<rparr>"
      by (simp add: gb_call_interrupt_handler_def Let_def t)
    moreover have "\<forall>j<3. \<not> bit ?p j"
    proof (intro allI impI)
      fix j :: nat assume "j < 3"
      then have "j = 0 \<or> j = 1 \<or> j = 2" by auto
      with 3 show "\<not> bit ?p j" by auto
    qed
    ultimately show ?thesis using 3 by (intro exI [of _ 3]) simp
  next
    case 4
    with x [of 4] have "gb_call_interrupt_handler g =
        g\<lparr>cpu_reg := (cpu_reg g)\<lparr>pc := 0x0040 + 8 * of_nat 4\<rparr>,
          hram_io := (hram_io g)(IO_IF := unset_bit 4 (hram_io g IO_IF))\<rparr>"
      by (simp add: gb_call_interrupt_handler_def Let_def t)
    moreover have "\<forall>j<4. \<not> bit ?p j"
    proof (intro allI impI)
      fix j :: nat assume "j < 4"
      then have "j = 0 \<or> j = 1 \<or> j = 2 \<or> j = 3" by auto
      with 4 show "\<not> bit ?p j" by auto
    qed
    ultimately show ?thesis using 4 by (intro exI [of _ 4]) simp
  qed
qed

lemma gb_write_high_frame:
  assumes "GET_MSN16 addr = 15" "gb_write gb addr val = Some gb'"
  shows "cpu_reg gb' = cpu_reg gb \<and> gb_ime gb' = gb_ime gb \<and> gb_halt gb' = gb_halt gb \<and>
         hram_io gb' IO_IF = (if addr = 0xFF0F then val OR 0xE0 else hram_io gb IO_IF) \<and>
         hram_io gb' IO_IE = (if addr = 0xFFFF then val else hram_io gb IO_IE)"
proof -
  let ?n = "unat addr"
  have eqF: "addr = 0xFF0F \<longleftrightarrow> ?n = 0xFF0F" and eqE: "addr = 0xFFFF \<longleftrightarrow> ?n = 0xFFFF"
    by (simp_all add: word_unat_eq_iff)
  from assms have h: "gb_write_high gb addr val = Some gb'"
    by (simp add: gb_write_def)
  consider (low) "?n < IO_ADDR"
    | (hram) "HRAM_ADDR \<le> ?n" "?n < INTR_EN_ADDR"
    | (apu) "0xFF10 \<le> ?n" "?n \<le> 0xFF3F"
    | (io) "IO_ADDR \<le> ?n" "\<not> (HRAM_ADDR \<le> ?n \<and> ?n < INTR_EN_ADDR)"
        "\<not> (0xFF10 \<le> ?n \<and> ?n \<le> 0xFF3F)"
    by linarith
  then show ?thesis
  proof cases
    case low
    with h show ?thesis
      by (auto simp: gb_write_high_def Let_def eqF eqE split: if_splits)
  next
    case hram
    with h have "gb' = gb\<lparr>hram_io := (hram_io gb)(?n - IO_ADDR := val)\<rparr>"
      by (simp add: gb_write_high_def Let_def)
    with hram show ?thesis by (auto simp: eqF eqE)
  next
    case apu
    with h have "gb' = gb\<lparr>hram_io := (hram_io gb)(?n - IO_ADDR := val)\<rparr>"
      by (simp add: gb_write_high_def Let_def)
    with apu show ?thesis by (auto simp: eqF eqE)
  next
    case io
    with h have w: "gb_write_io gb addr val = Some gb'"
      by (simp add: gb_write_high_def Let_def)
    have lt: "?n < 65536" by (rule unat_u16_lt)
    have "GET_LSB16 addr = 0x0F \<longleftrightarrow> ?n = 0xFF0F"
      using io(1) lt unfolding GET_LSB16_mod io_page_mod [OF io(1) lt] by auto
    moreover have "GET_LSB16 addr = 0xFF \<longleftrightarrow> ?n = 0xFFFF"
      using io(1) lt unfolding GET_LSB16_mod io_page_mod [OF io(1) lt] by auto
    ultimately show ?thesis
      using gb_write_io_frame [OF w] by (simp add: eqF eqE)
  qed
qed

lemma gb_write_frame:
  assumes "gb_write gb addr val = Some gb'"
  shows "cpu_reg gb' = cpu_reg gb \<and> gb_ime gb' = gb_ime gb \<and> gb_halt gb' = gb_halt gb \<and>
         hram_io gb' IO_IF = (if addr = 0xFF0F then val OR 0xE0 else hram_io gb IO_IF) \<and>
         hram_io gb' IO_IE = (if addr = 0xFFFF then val else hram_io gb IO_IE)"
proof (cases "GET_MSN16 addr = 15")
  case True
  then show ?thesis using assms by (rule gb_write_high_frame)
next
  case False
  then have "addr \<noteq> 0xFF0F" "addr \<noteq> 0xFFFF"
    by (auto simp: GET_MSN16_def)
  with gb_write_low_frame [OF False assms] show ?thesis by simp
qed

lemma gb_push_frame:
  assumes "gb_push gb val = Some gb'"
  shows "cpu_reg gb' = (cpu_reg gb)\<lparr>sp := sp (cpu_reg gb) - 1\<rparr> \<and>
         gb_ime gb' = gb_ime gb \<and> gb_halt gb' = gb_halt gb \<and>
         hram_io gb' IO_IF =
           (if sp (cpu_reg gb) - 1 = 0xFF0F then val OR 0xE0 else hram_io gb IO_IF) \<and>
         hram_io gb' IO_IE =
           (if sp (cpu_reg gb) - 1 = 0xFFFF then val else hram_io gb IO_IE)"
  using assms gb_write_frame [of "gb\<lparr>cpu_reg := (cpu_reg gb)\<lparr>sp := sp (cpu_reg gb) - 1\<rparr>\<rparr>"
      "sp (cpu_reg gb) - 1" val gb']
  by (simp add: gb_push_def Let_def)

lemma call_interrupt_handler_frame:
  "gb_ime (gb_call_interrupt_handler g) = gb_ime g \<and>
   gb_halt (gb_call_interrupt_handler g) = gb_halt g \<and>
   sp (cpu_reg (gb_call_interrupt_handler g)) = sp (cpu_reg g) \<and>
   hram_io (gb_call_interrupt_handler g) IO_IF AND 0xE0 = hram_io g IO_IF AND 0xE0"
  by (simp add: gb_call_interrupt_handler_def Let_def bit.conj_xor_distrib2)

subsection \<open>C6: interrupt service\<close>

text \<open>
  C6 (as amended). At the top of a CPU step, if IME is set and
  \<^verbatim>\<open>(IF & IE & 0x1F) != 0\<close>, and neither byte of the push lands on \<^verbatim>\<open>IF\<close> (0xFF0F) or
  \<^verbatim>\<open>IE\<close> (0xFFFF), and the two writes of the push are defined, then the interrupt
  service clears IME, writes the high byte of the old PC to \<^verbatim>\<open>SP - 1\<close> and then the
  low byte to \<^verbatim>\<open>SP - 2\<close> by \<^verbatim>\<open>__gb_write\<close>, leaves \<^verbatim>\<open>SP\<close> decremented by two, sets PC to
  the vector \<^verbatim>\<open>0x0040 + 8 * k\<close> of the requested and enabled interrupt with the lowest
  bit number \<open>k\<close> (VBlank first, joypad last), and clears exactly bit \<open>k\<close> of \<^verbatim>\<open>IF\<close>.
\<close>

theorem interrupt_service_lowest_bit:
  assumes ime: "gb_ime gb"
    and pend: "(hram_io gb IO_IF AND hram_io gb IO_IE) AND ANY_INTR \<noteq> 0"
    and s1: "sp (cpu_reg gb) - 1 \<noteq> 0xFF0F" "sp (cpu_reg gb) - 1 \<noteq> 0xFFFF"
    and s2: "sp (cpu_reg gb) - 2 \<noteq> 0xFF0F" "sp (cpu_reg gb) - 2 \<noteq> 0xFFFF"
    and ret: "gb_handle_interrupts gb = Some gb'"
  shows "\<not> gb_ime gb' \<and> \<not> gb_halt gb' \<and> sp (cpu_reg gb') = sp (cpu_reg gb) - 2 \<and>
     (\<exists>gb1 gb2.
        gb_write (gb\<lparr>gb_halt := False, gb_ime := False,
                      cpu_reg := (cpu_reg gb)\<lparr>sp := sp (cpu_reg gb) - 1\<rparr>\<rparr>)
          (sp (cpu_reg gb) - 1) (ucast (drop_bit 8 (pc (cpu_reg gb)))) = Some gb1 \<and>
        gb_write (gb1\<lparr>cpu_reg := (cpu_reg gb1)\<lparr>sp := sp (cpu_reg gb) - 2\<rparr>\<rparr>)
          (sp (cpu_reg gb) - 2) (ucast (pc (cpu_reg gb))) = Some gb2 \<and>
        gb' = gb2\<lparr>cpu_reg := (cpu_reg gb2)\<lparr>pc := pc (cpu_reg gb')\<rparr>,
                  hram_io := (hram_io gb2)(IO_IF := hram_io gb' IO_IF)\<rparr>) \<and>
     (\<exists>k<5. bit (hram_io gb IO_IF AND hram_io gb IO_IE) k \<and>
        (\<forall>j<k. \<not> bit (hram_io gb IO_IF AND hram_io gb IO_IE) j) \<and>
        pc (cpu_reg gb') = 0x0040 + 8 * of_nat k \<and>
        hram_io gb' IO_IF = unset_bit k (hram_io gb IO_IF))"
proof -
  let ?g2 = "gb\<lparr>gb_halt := False, gb_ime := False\<rparr>"
  from pend have pend': "hram_io gb IO_IF AND hram_io gb IO_IE AND ANY_INTR \<noteq> 0"
    by (simp add: and.assoc)
  from ret ime pend' obtain gb3 gb4 where
    p1: "gb_push ?g2 (ucast (drop_bit 8 (pc (cpu_reg ?g2)))) = Some gb3"
    and p2: "gb_push gb3 (ucast (pc (cpu_reg gb3))) = Some gb4"
    and g': "gb' = gb_call_interrupt_handler gb4"
    by (auto simp: gb_handle_interrupts_def Let_def split: Option.bind_splits)
  note f1 = gb_push_frame [OF p1]
  note f2 = gb_push_frame [OF p2]
  have two: "sp (cpu_reg gb) - 1 - 1 = sp (cpu_reg gb) - 2" by simp
  from f1 f2 s1 s2 have io4: "hram_io gb4 IO_IF = hram_io gb IO_IF"
    "hram_io gb4 IO_IE = hram_io gb IO_IE"
    by (simp_all add: two)
  from f1 f2 have c4: "cpu_reg gb4 = (cpu_reg gb)\<lparr>sp := sp (cpu_reg gb) - 2\<rparr>"
    "\<not> gb_ime gb4" "\<not> gb_halt gb4"
    by (simp_all add: two)
  from pend io4 have "(hram_io gb4 IO_IF AND hram_io gb4 IO_IE) AND ANY_INTR \<noteq> 0"
    by simp
  from call_interrupt_handler_lowest [OF this] obtain k where k: "k < 5"
    "bit (hram_io gb IO_IF AND hram_io gb IO_IE) k"
    "\<forall>j<k. \<not> bit (hram_io gb IO_IF AND hram_io gb IO_IE) j"
    and h: "gb' = gb4\<lparr>cpu_reg := (cpu_reg gb4)\<lparr>pc := 0x0040 + 8 * of_nat k\<rparr>,
               hram_io := (hram_io gb4)(IO_IF := unset_bit k (hram_io gb IO_IF))\<rparr>"
    unfolding g' io4 by blast
  have w1: "gb_write (gb\<lparr>gb_halt := False, gb_ime := False,
                      cpu_reg := (cpu_reg gb)\<lparr>sp := sp (cpu_reg gb) - 1\<rparr>\<rparr>)
          (sp (cpu_reg gb) - 1) (ucast (drop_bit 8 (pc (cpu_reg gb)))) = Some gb3"
    using p1 by (simp add: gb_push_def Let_def)
  have w2: "gb_write (gb3\<lparr>cpu_reg := (cpu_reg gb3)\<lparr>sp := sp (cpu_reg gb) - 2\<rparr>\<rparr>)
          (sp (cpu_reg gb) - 2) (ucast (pc (cpu_reg gb))) = Some gb4"
    using p2 f1 by (simp add: gb_push_def Let_def two)
  have e: "gb' = gb4\<lparr>cpu_reg := (cpu_reg gb4)\<lparr>pc := pc (cpu_reg gb')\<rparr>,
                  hram_io := (hram_io gb4)(IO_IF := hram_io gb' IO_IF)\<rparr>"
    by (subst (1) h) (simp add: h)
  have "\<not> gb_ime gb'" "\<not> gb_halt gb'" "sp (cpu_reg gb') = sp (cpu_reg gb) - 2"
    "pc (cpu_reg gb') = 0x0040 + 8 * of_nat k"
    "hram_io gb' IO_IF = unset_bit k (hram_io gb IO_IF)"
    using c4 by (simp_all add: h)
  with k w1 w2 e show ?thesis by blast
qed

lemma gb_write_HRAM_FFFC: "gb_write g 0xFFFC v = Some (g\<lparr>hram_io := (hram_io g)(0xFC := v)\<rparr>)"
  by (simp add: io_write_defs)

lemma gb_write_HRAM_FFFD: "gb_write g 0xFFFD v = Some (g\<lparr>hram_io := (hram_io g)(0xFD := v)\<rparr>)"
  by (simp add: io_write_defs)

lemma gb_write_IF: "gb_write g 0xFF0F v = Some (g\<lparr>hram_io := (hram_io g)(IO_IF := v OR 0xE0)\<rparr>)"
  by (simp add: io_write_defs)

lemma gb_write_IE: "gb_write g 0xFFFF v = Some (g\<lparr>hram_io := (hram_io g)(IO_IE := v)\<rparr>)"
  by (simp add: io_write_defs)

lemma gb_write_FF0E: "gb_write g 0xFF0E v = Some g"
  by (simp add: io_write_defs)

lemma gb_read_IF: "gb_read g 0xFF0F = Some (hram_io g IO_IF)"
  by (simp add: io_read_defs)

lemma all_pending_gb_fields:
  "gb_ime all_pending_gb" "\<not> gb_halt all_pending_gb"
  "hram_io all_pending_gb IO_IF = 0xFF" "hram_io all_pending_gb IO_IE = 0x1F"
  "cpu_reg all_pending_gb =
     \<lparr>f = 0xB0, a = 0x01, bc = 0x0013, de = 0x00D8, hl = 0x014D, sp = 0xFFFE, pc = 0x0100\<rparr>"
  by (simp_all add: all_pending_gb_def gb_write_IF gb_write_IE rom_only_gb_fields)

lemma sp_on_if_gb_fields:
  "gb_ime sp_on_if_gb" "\<not> gb_halt sp_on_if_gb"
  "hram_io sp_on_if_gb IO_IF = 0xE1" "hram_io sp_on_if_gb IO_IE = 0x01"
  "sp (cpu_reg sp_on_if_gb) = 0xFF10" "pc (cpu_reg sp_on_if_gb) = 0x1234"
  by (simp_all add: sp_on_if_gb_def gb_write_IE rom_only_gb_fields Let_def)

lemma u8_256: "(256 :: u8) = 0"
  by (simp add: word_unat_eq_iff)

lemma all_pending_service:
  "gb_handle_interrupts all_pending_gb =
     Some (all_pending_gb\<lparr>gb_halt := False, gb_ime := False,
        cpu_reg := (cpu_reg all_pending_gb)\<lparr>sp := 0xFFFC, pc := 0x0040\<rparr>,
        hram_io := (hram_io all_pending_gb)(0xFD := 0x01, 0xFC := 0x00, IO_IF := 0xFE)\<rparr>)"
  by (simp add: gb_handle_interrupts_def gb_push_def gb_call_interrupt_handler_def Let_def
      all_pending_gb_fields gb_write_HRAM_FFFC gb_write_HRAM_FFFD u8_256)

text \<open>
  The amended statement on the context \<open>all_pending_gb\<close>, where all five interrupts
  are requested and enabled and the stack is in high RAM: the service returns,
  IME is clear, the bytes 0x01 and 0x00 of the old PC are at 0xFFFD and 0xFFFC, \<^verbatim>\<open>SP\<close>
  is 0xFFFC, PC is the VBlank vector 0x0040 and \<^verbatim>\<open>IF\<close> has lost bit 0 only.
\<close>

theorem interrupt_service_lowest_bit_witness:
  "gb_ime all_pending_gb \<and>
   (hram_io all_pending_gb IO_IF AND hram_io all_pending_gb IO_IE) AND ANY_INTR \<noteq> 0 \<and>
   sp (cpu_reg all_pending_gb) - 1 \<noteq> 0xFF0F \<and> sp (cpu_reg all_pending_gb) - 1 \<noteq> 0xFFFF \<and>
   sp (cpu_reg all_pending_gb) - 2 \<noteq> 0xFF0F \<and> sp (cpu_reg all_pending_gb) - 2 \<noteq> 0xFFFF \<and>
   (\<exists>gb'. gb_handle_interrupts all_pending_gb = Some gb' \<and>
      \<not> gb_ime gb' \<and> sp (cpu_reg gb') = 0xFFFC \<and> pc (cpu_reg gb') = 0x0040 \<and>
      hram_io gb' 0xFD = 0x01 \<and> hram_io gb' 0xFC = 0x00 \<and> hram_io gb' IO_IF = 0xFE)"
proof -
  have h: "gb_ime all_pending_gb"
    "(hram_io all_pending_gb IO_IF AND hram_io all_pending_gb IO_IE) AND ANY_INTR \<noteq> 0"
    "sp (cpu_reg all_pending_gb) - 1 \<noteq> 0xFF0F" "sp (cpu_reg all_pending_gb) - 1 \<noteq> 0xFFFF"
    "sp (cpu_reg all_pending_gb) - 2 \<noteq> 0xFF0F" "sp (cpu_reg all_pending_gb) - 2 \<noteq> 0xFFFF"
    by (simp_all add: all_pending_gb_fields)
  from interrupt_service_lowest_bit [OF h all_pending_service]
  have "\<not> gb_ime (all_pending_gb\<lparr>gb_halt := False, gb_ime := False,
        cpu_reg := (cpu_reg all_pending_gb)\<lparr>sp := 0xFFFC, pc := 0x0040\<rparr>,
        hram_io := (hram_io all_pending_gb)(0xFD := 0x01, 0xFC := 0x00, IO_IF := 0xFE)\<rparr>)"
    by blast
  with h show ?thesis by (simp add: all_pending_service)
qed

text \<open>
  C6 as stated fails. In \<open>sp_on_if_gb\<close> IME is set and the VBlank interrupt is
  requested and enabled, but the stack pointer is 0xFF10: the high byte 0x12 of PC
  is pushed onto \<^verbatim>\<open>IF\<close>, which becomes 0xF2, no vector matches any more, and PC stays
  0x1234. (With all five interrupts pending, in \<open>all_pending_gb\<close>, the vector taken
  is 0x0040, that of VBlank, the source of the highest priority.)
\<close>

theorem interrupt_service_counterexample:
  "gb_ime sp_on_if_gb \<and>
   hram_io sp_on_if_gb IO_IF AND hram_io sp_on_if_gb IO_IE AND ANY_INTR = 0x01 \<and>
   pc (cpu_reg (the (gb_handle_interrupts sp_on_if_gb))) = 0x1234 \<and>
   hram_io (the (gb_handle_interrupts sp_on_if_gb)) IO_IF = 0xF2 \<and>
   pc (cpu_reg (the (gb_handle_interrupts all_pending_gb))) = 0x0040"
proof -
  have "gb_handle_interrupts sp_on_if_gb =
      Some (sp_on_if_gb\<lparr>gb_halt := False, gb_ime := False,
        cpu_reg := (cpu_reg sp_on_if_gb)\<lparr>sp := 0xFF0E\<rparr>,
        hram_io := (hram_io sp_on_if_gb)(IO_IF := 0xF2)\<rparr>)"
    by (simp add: gb_handle_interrupts_def gb_push_def gb_call_interrupt_handler_def Let_def
        sp_on_if_gb_fields gb_write_IF gb_write_FF0E)
  then show ?thesis
    by (simp add: all_pending_service sp_on_if_gb_fields)
qed

subsection \<open>C8: the top bits of IF\<close>

lemma gb_reset_IF: "gb_reset gb0 = Some gb \<Longrightarrow> hram_io gb IO_IF = 0xE1"
  by (auto simp: gb_reset_def io_write_defs split: if_splits)

lemma gb_init_reachable:
  "gb_init rp mp gb0 rom = Some (GB_INIT_NO_ERROR, gb) \<Longrightarrow> reachable gb"
  by (auto simp: gb_init_def Let_def split: if_splits intro: reachable.reset)

lemma handle_interrupts_top_bits:
  assumes "gb_handle_interrupts gb = Some gb'" "hram_io gb IO_IF AND 0xE0 = 0xE0"
  shows "hram_io gb' IO_IF AND 0xE0 = 0xE0"
proof (cases "gb_halt gb \<or> (gb_ime gb \<and> hram_io gb IO_IF AND hram_io gb IO_IE AND ANY_INTR \<noteq> 0)")
  case False
  with assms show ?thesis by (simp add: gb_handle_interrupts_def)
next
  case True
  show ?thesis
  proof (cases "gb_ime gb")
    case False
    with True assms show ?thesis by (auto simp: gb_handle_interrupts_def Let_def)
  next
    case ime: True
    let ?g2 = "gb\<lparr>gb_halt := False, gb_ime := False\<rparr>"
    from assms(1) True ime obtain gb3 gb4 where
      p1: "gb_push ?g2 (ucast (drop_bit 8 (pc (cpu_reg ?g2)))) = Some gb3"
      and p2: "gb_push gb3 (ucast (pc (cpu_reg gb3))) = Some gb4"
      and g': "gb' = gb_call_interrupt_handler gb4"
      by (auto simp: gb_handle_interrupts_def Let_def split: Option.bind_splits)
    have or_top: "(v OR 0xE0) AND 0xE0 = (0xE0 :: u8)" for v
      by (simp add: bit.conj_disj_distrib2)
    from gb_push_frame [OF p1] assms(2) have "hram_io gb3 IO_IF AND 0xE0 = 0xE0"
      by (simp add: or_top split: if_splits)
    with gb_push_frame [OF p2] have "hram_io gb4 IO_IF AND 0xE0 = 0xE0"
      by (simp add: or_top split: if_splits)
    then show ?thesis
      unfolding g' using call_interrupt_handler_frame [of gb4] by simp
  qed
qed

lemma interrupt_service_IF:
  assumes ime: "gb_ime gb"
    and pend: "(hram_io gb IO_IF AND hram_io gb IO_IE) AND ANY_INTR \<noteq> 0"
    and s1: "sp (cpu_reg gb) - 1 \<noteq> 0xFF0F" "sp (cpu_reg gb) - 1 \<noteq> 0xFFFF"
    and s2: "sp (cpu_reg gb) - 2 \<noteq> 0xFF0F" "sp (cpu_reg gb) - 2 \<noteq> 0xFFFF"
    and ret: "gb_handle_interrupts gb = Some gb'"
  shows "\<exists>k<5. bit (hram_io gb IO_IF AND hram_io gb IO_IE) k \<and>
           (\<forall>j<k. \<not> bit (hram_io gb IO_IF AND hram_io gb IO_IE) j) \<and>
           hram_io gb' IO_IF = unset_bit k (hram_io gb IO_IF)"
proof -
  let ?g2 = "gb\<lparr>gb_halt := False, gb_ime := False\<rparr>"
  from pend have pend': "hram_io gb IO_IF AND hram_io gb IO_IE AND ANY_INTR \<noteq> 0"
    by (simp add: and.assoc)
  from ret ime pend' obtain gb3 gb4 where
    p1: "gb_push ?g2 (ucast (drop_bit 8 (pc (cpu_reg ?g2)))) = Some gb3"
    and p2: "gb_push gb3 (ucast (pc (cpu_reg gb3))) = Some gb4"
    and g': "gb' = gb_call_interrupt_handler gb4"
    by (auto simp: gb_handle_interrupts_def Let_def split: Option.bind_splits)
  have two: "sp (cpu_reg gb) - 1 - 1 = sp (cpu_reg gb) - 2" by simp
  from gb_push_frame [OF p1] gb_push_frame [OF p2] s1 s2
  have io4: "hram_io gb4 IO_IF = hram_io gb IO_IF" "hram_io gb4 IO_IE = hram_io gb IO_IE"
    by (simp_all add: two)
  from pend io4 have "(hram_io gb4 IO_IF AND hram_io gb4 IO_IE) AND ANY_INTR \<noteq> 0"
    by simp
  from call_interrupt_handler_lowest [OF this] obtain k where k: "k < 5"
    "bit (hram_io gb IO_IF AND hram_io gb IO_IE) k"
    "\<forall>j<k. \<not> bit (hram_io gb IO_IF AND hram_io gb IO_IE) j"
    and h: "gb' = gb4\<lparr>cpu_reg := (cpu_reg gb4)\<lparr>pc := 0x0040 + 8 * of_nat k\<rparr>,
               hram_io := (hram_io gb4)(IO_IF := unset_bit k (hram_io gb IO_IF))\<rparr>"
    unfolding g' io4 by blast
  have "hram_io gb' IO_IF = unset_bit k (hram_io gb IO_IF)"
    by (simp add: h)
  with k show ?thesis by blast
qed

lemma reachable_top_bits:
  assumes "reachable gb"
  shows "hram_io gb IO_IF AND 0xE0 = 0xE0"
  using assms
proof induction
  case (reset gb0 gb)
  then show ?case by (simp add: gb_reset_IF)
next
  case (cpu_write gb addr val gb')
  from gb_write_frame [OF cpu_write.hyps(2)] cpu_write.IH show ?case
    by (simp add: bit.conj_disj_distrib2 split: if_splits)
next
  case (dma gb val om)
  then show ?case by simp
next
  case (cpu_state gb r i h)
  then show ?case by simp
next
  case (interrupt gb gb')
  then show ?case by (simp add: handle_interrupts_top_bits)
next
  case (timing gb inst_cycles rx)
  then show ?case using step_timing_frame [of gb inst_cycles rx] by simp
next
  case (front_end gb d ds rt br fr)
  then show ?case by simp
qed

lemma rom_only_gb_reachable: "reachable rom_only_gb"
  by (rule gb_init_reachable [OF rom_only_gb_init])

lemma all_pending_gb_reachable: "reachable all_pending_gb"
proof -
  have "reachable (the (gb_write rom_only_gb 0xFFFF 0x1F))"
    using reachable.cpu_write [OF rom_only_gb_reachable, of "0xFFFF" "0x1F"]
    by (simp add: gb_write_IE)
  from reachable.cpu_write [OF this, of "0xFF0F" "0x1F"] show ?thesis
    by (simp add: all_pending_gb_def gb_write_IF)
qed

lemma sp_on_if_gb_reachable: "reachable sp_on_if_gb"
proof -
  let ?g = "the (gb_write rom_only_gb 0xFFFF 0x01)"
  have "reachable ?g"
    using reachable.cpu_write [OF rom_only_gb_reachable, of "0xFFFF" "0x01"]
    by (simp add: gb_write_IE)
  from reachable.cpu_state [OF this, where r = "(cpu_reg ?g)\<lparr>sp := 0xFF10, pc := 0x1234\<rparr>"
      and i = "gb_ime ?g" and h = "gb_halt ?g"]
  show ?thesis
    by (simp add: sp_on_if_gb_def Let_def)
qed

text \<open>
  C8 (as amended). In every context reachable from reset, a read of 0xFF0F (\<^verbatim>\<open>IF\<close>)
  returns a value \<open>v\<close> whose bits 5 to 7 are all 1. This is kept by every CPU write
  to \<^verbatim>\<open>IF\<close> (after a write of \<open>val\<close> the read returns \<^verbatim>\<open>val | 0xE0\<close>), by every pass
  through the timing loop, where the timers, the serial port and the LCD request
  their interrupts, and by the interrupt service. The service clears only the bit
  of the serviced interrupt, the requested and enabled one of the lowest number,
  when IME is set, an interrupt is requested and enabled, and neither byte of
  the push lands on \<^verbatim>\<open>IF\<close> (0xFF0F) or \<^verbatim>\<open>IE\<close> (0xFFFF).
\<close>

theorem if_top_bits_read_as_one:
  assumes "reachable gb"
  shows "\<exists>v. gb_read gb 0xFF0F = Some v \<and> v AND 0xE0 = 0xE0 \<and>
     (\<forall>val. \<exists>gb'. gb_write gb 0xFF0F val = Some gb' \<and>
        gb_read gb' 0xFF0F = Some (val OR 0xE0) \<and> (val OR 0xE0) AND 0xE0 = 0xE0) \<and>
     (\<forall>inst_cycles rx. \<exists>v'.
        gb_read (fst (gb_step_timing gb inst_cycles rx)) 0xFF0F = Some v' \<and>
        v' AND 0xE0 = 0xE0) \<and>
     (\<forall>gb'. gb_handle_interrupts gb = Some gb' \<longrightarrow>
        (\<exists>v'. gb_read gb' 0xFF0F = Some v' \<and> v' AND 0xE0 = 0xE0 \<and>
           (gb_ime gb \<and> (v AND hram_io gb IO_IE) AND ANY_INTR \<noteq> 0 \<and>
            sp (cpu_reg gb) - 1 \<noteq> 0xFF0F \<and> sp (cpu_reg gb) - 1 \<noteq> 0xFFFF \<and>
            sp (cpu_reg gb) - 2 \<noteq> 0xFF0F \<and> sp (cpu_reg gb) - 2 \<noteq> 0xFFFF \<longrightarrow>
            (\<exists>k<5. bit (v AND hram_io gb IO_IE) k \<and>
               (\<forall>j<k. \<not> bit (v AND hram_io gb IO_IE) j) \<and>
               v' = unset_bit k v))))"
proof -
  have inv: "hram_io gb IO_IF AND 0xE0 = 0xE0"
    using assms by (rule reachable_top_bits)
  have wr: "(val OR 0xE0) AND 0xE0 = (0xE0 :: u8)" for val
    by (simp add: bit.conj_disj_distrib2)
  have tm: "hram_io (fst (gb_step_timing gb inst_cycles rx)) IO_IF AND 0xE0 = 0xE0"
    for inst_cycles rx
    using step_timing_frame [of gb inst_cycles rx] inv by simp
  have sv: "hram_io gb' IO_IF AND 0xE0 = 0xE0 \<and>
      (gb_ime gb \<and> (hram_io gb IO_IF AND hram_io gb IO_IE) AND ANY_INTR \<noteq> 0 \<and>
       sp (cpu_reg gb) - 1 \<noteq> 0xFF0F \<and> sp (cpu_reg gb) - 1 \<noteq> 0xFFFF \<and>
       sp (cpu_reg gb) - 2 \<noteq> 0xFF0F \<and> sp (cpu_reg gb) - 2 \<noteq> 0xFFFF \<longrightarrow>
       (\<exists>k<5. bit (hram_io gb IO_IF AND hram_io gb IO_IE) k \<and>
          (\<forall>j<k. \<not> bit (hram_io gb IO_IF AND hram_io gb IO_IE) j) \<and>
          hram_io gb' IO_IF = unset_bit k (hram_io gb IO_IF)))"
    if "gb_handle_interrupts gb = Some gb'" for gb'
    using handle_interrupts_top_bits [OF that inv] interrupt_service_IF [of gb gb'] that
    by blast
  show ?thesis
    using inv wr tm sv by (simp add: gb_read_IF gb_write_IF)
qed

text \<open>
  The amended statement on the reachable context \<open>all_pending_gb\<close>, where all five
  interrupts are requested and enabled and the stack is in high RAM: \<^verbatim>\<open>IF\<close> reads
  0xFF, after a CPU write of 0x00 it reads 0xE0, and after the interrupt service
  it reads 0xFE: bit 0, that of VBlank, is cleared and nothing else.
\<close>

theorem if_top_bits_read_as_one_witness:
  "reachable all_pending_gb \<and>
   gb_read all_pending_gb 0xFF0F = Some 0xFF \<and>
   gb_read (the (gb_write all_pending_gb 0xFF0F 0x00)) 0xFF0F = Some 0xE0 \<and>
   gb_ime all_pending_gb \<and>
   (0xFF AND hram_io all_pending_gb IO_IE) AND ANY_INTR \<noteq> 0 \<and>
   sp (cpu_reg all_pending_gb) - 1 \<noteq> 0xFF0F \<and> sp (cpu_reg all_pending_gb) - 1 \<noteq> 0xFFFF \<and>
   sp (cpu_reg all_pending_gb) - 2 \<noteq> 0xFF0F \<and> sp (cpu_reg all_pending_gb) - 2 \<noteq> 0xFFFF \<and>
   gb_handle_interrupts all_pending_gb \<noteq> None \<and>
   gb_read (the (gb_handle_interrupts all_pending_gb)) 0xFF0F = Some (unset_bit 0 0xFF)"
  using if_top_bits_read_as_one [OF all_pending_gb_reachable] all_pending_gb_reachable
  by (simp add: all_pending_service all_pending_gb_fields gb_read_IF gb_write_IF
      unset_bit_eq_and_not)

text \<open>
  C8 as stated fails. The context \<open>sp_on_if_gb\<close> is reachable; IME is set, \<^verbatim>\<open>IF\<close> reads
  0xE1 and \<^verbatim>\<open>IE\<close> is 0x01, so VBlank (bit 0) is the interrupt to serve. The stack
  pointer is 0xFF10, the service pushes the high byte 0x12 of PC onto \<^verbatim>\<open>IF\<close>, and
  afterwards \<^verbatim>\<open>IF\<close> reads 0xF2: bit 0 is clear, and the bits 1 and 4, which were
  clear, are set. The bits 5 to 7 still read 1.
\<close>

theorem if_service_counterexample:
  "reachable sp_on_if_gb \<and> gb_ime sp_on_if_gb \<and>
   gb_read sp_on_if_gb 0xFF0F = Some 0xE1 \<and> hram_io sp_on_if_gb IO_IE = 0x01 \<and>
   gb_handle_interrupts sp_on_if_gb \<noteq> None \<and>
   gb_read (the (gb_handle_interrupts sp_on_if_gb)) 0xFF0F = Some 0xF2 \<and>
   (0xF2 :: u8) \<noteq> unset_bit 0 0xE1 \<and> (0xF2 :: u8) OR 0xE1 \<noteq> 0xE1"
proof -
  have "gb_handle_interrupts sp_on_if_gb =
      Some (sp_on_if_gb\<lparr>gb_halt := False, gb_ime := False,
        cpu_reg := (cpu_reg sp_on_if_gb)\<lparr>sp := 0xFF0E\<rparr>,
        hram_io := (hram_io sp_on_if_gb)(IO_IF := 0xF2)\<rparr>)"
    by (simp add: gb_handle_interrupts_def gb_push_def gb_call_interrupt_handler_def Let_def
        sp_on_if_gb_fields gb_write_IF gb_write_FF0E)
  then show ?thesis
    using sp_on_if_gb_reachable
    by (simp add: sp_on_if_gb_fields gb_read_IF unset_bit_eq_and_not)
qed

section \<open>The sprites of a scanline\<close>

text \<open>
  \<^verbatim>\<open>compare_sprites\<close> is negative exactly when its first argument comes before the
  second in the order by X, then by index.
\<close>

lemma compare_sprites_key:
  "compare_sprites s c < 0 \<longleftrightarrow> sprite_key s < sprite_key c"
proof -
  have 1: "unat x < unat y \<longleftrightarrow> uint x < uint y" for x y :: u8
    by (simp add: word_less_nat_alt [symmetric] word_less_def)
  have 2: "unat x \<le> unat y \<longleftrightarrow> uint x \<le> uint y" for x y :: u8
    by (simp add: word_le_nat_alt [symmetric] word_le_def)
  show ?thesis
    unfolding compare_sprites_def sprite_key_def Let_def less_prod_def
    by (auto simp add: 1 2)
qed

lemma find_place_sorted:
  "n \<le> length arr \<Longrightarrow> sorted (map sprite_key (take n arr)) \<Longrightarrow>
   find_place arr c n = length (filter (\<lambda>s. sprite_key s < sprite_key c) (take n arr))"
proof (induction n)
  case 0
  then show ?case by simp
next
  case (Suc p)
  have tk: "take (Suc p) arr = take p arr @ [arr ! p]"
    using Suc.prems(1) by (simp add: take_Suc_conv_app_nth)
  have srt: "sorted (map sprite_key (take p arr))"
    and le: "\<forall>s \<in> set (take p arr). sprite_key s \<le> sprite_key (arr ! p)"
    using Suc.prems(2) unfolding tk by (auto simp add: sorted_append)
  show ?case
  proof (cases "sprite_key (arr ! p) < sprite_key c")
    case True
    have "filter (\<lambda>s. sprite_key s < sprite_key c) (take p arr) = take p arr"
      using le True by (auto simp add: filter_id_conv)
    then show ?thesis
      using True Suc.prems(1) by (simp add: compare_sprites_key tk)
  next
    case False
    then show ?thesis
      using Suc.IH [OF _ srt] Suc.prems(1) by (simp add: compare_sprites_key tk)
  qed
qed

lemma insort_key_sorted_split:
  "sorted (map k K) \<Longrightarrow>
   insort_key k c K =
     take (length (filter (\<lambda>s. k s < k c) K)) K @ c # drop (length (filter (\<lambda>s. k s < k c) K)) K"
proof (induction K)
  case Nil
  then show ?case by simp
next
  case (Cons y ys)
  show ?case
  proof (cases "k c \<le> k y")
    case True
    have "\<forall>s \<in> set ys. \<not> k s < k c"
      using Cons.prems True by auto
    then have "filter (\<lambda>s. k s < k c) ys = []"
      by (simp add: filter_empty_conv)
    then show ?thesis using True by (simp add: leD)
  next
    case False
    then show ?thesis using Cons by simp
  qed
qed

lemma take_Cons_take: "take m (y # take m ys) = take m (y # ys)"
  by (cases m) simp_all

lemma take_insort_key_take:
  "take m (insort_key k c (take m L)) = take m (insort_key k c L)"
proof (induction L arbitrary: m)
  case Nil
  then show ?case by simp
next
  case (Cons y ys)
  show ?case
  proof (cases m)
    case 0
    then show ?thesis by simp
  next
    case (Suc m')
    then show ?thesis using Cons [of m'] by (simp add: take_Cons_take)
  qed
qed

lemma sort_key_snoc:
  "k c \<notin> k ` set xs \<Longrightarrow> sort_key k (xs @ [c]) = insort_key k c (sort_key k xs)"
proof (induction xs)
  case Nil
  then show ?case by simp
next
  case (Cons y ys)
  then have "k y \<noteq> k c" by auto
  then show ?case using Cons by (simp add: insort_key_left_comm)
qed

lemma moved_update:
  assumes "p < length arr"
  shows "(take (p + 1) arr @ ys)[p := c] = take p arr @ c # ys"
proof -
  have "take (p + 1) arr @ ys = take p arr @ arr ! p # ys"
    using assms by (simp add: take_Suc_conv_app_nth)
  moreover have "length (take p arr) = p"
    using assms by simp
  ultimately show ?thesis
    by (metis list_update_length)
qed

lemma insert_sprite_insort:
  assumes len: "length arr = 10" and n: "n \<le> 10"
    and srt: "sorted (map sprite_key (take n arr))"
  shows "\<exists>arr' n'. insert_sprite (arr, n) c = (arr', n') \<and> length arr' = 10 \<and>
           n' = min 10 (Suc n) \<and>
           take n' arr' = take 10 (insort_key sprite_key c (take n arr))"
proof -
  define p where "p = length (filter (\<lambda>s. sprite_key s < sprite_key c) (take n arr))"
  have pn: "p \<le> n"
    unfolding p_def using length_filter_le [of _ "take n arr"] len n by simp
  have fp: "find_place arr c n = p"
    unfolding p_def using find_place_sorted [of n arr c] len n srt by simp
  have ins: "insort_key sprite_key c (take n arr) = take p arr @ c # drop p (take n arr)"
    using insort_key_sorted_split [OF srt, of c] pn unfolding p_def [symmetric]
    by (simp add: min_def)
  show ?thesis
  proof (cases "p \<ge> 10")
    case True
    then have "n = 10" "p = 10" using pn n by simp_all
    then show ?thesis
      using fp len ins by (simp add: insert_sprite_def)
  next
    case False
    then have p9: "p < 10" by simp
    have upd: "(take (p + 1) arr @ take (10 - p - 1) (drop p arr))[p := c] =
               take p arr @ c # take (10 - p - 1) (drop p arr)"
      using moved_update [of p arr] p9 len by simp
    show ?thesis
    proof (cases "n < 10")
      case True
      then show ?thesis
        using fp p9 pn len upd ins
        by (auto simp add: insert_sprite_def Let_def drop_take min_def Suc_diff_le)
    next
      case False
      then have n10: "n = 10" using n by simp
      have e: "10 - p = Suc (9 - p)" using p9 by simp
      show ?thesis
        using n10 fp p9 pn len upd ins
        by (simp add: insert_sprite_def Let_def drop_take e)
    qed
  qed
qed

lemma sprite_key_oam:
  "n < 40 \<Longrightarrow>
   sprite_key \<lparr>sprite_number = of_nat n, sprite_x = v\<rparr> = (unat v, n)"
  by (simp add: sprite_key_def unat_of_nat)

lemma sprites_upto_Suc:
  "map g (filter P [0..<Suc i]) =
     (if P i then map g (filter P [0..<i]) @ [g i] else map g (filter P [0..<i]))"
  by simp

lemma sprite_key_fresh:
  assumes "i < 40"
  shows "sprite_key \<lparr>sprite_number = of_nat i, sprite_x = oam gb (4 * i + 1)\<rparr> \<notin>
         sprite_key ` set (map (\<lambda>n. \<lparr>sprite_number = of_nat n, sprite_x = oam gb (4 * n + 1)\<rparr>)
                            (filter (sprite_on_line gb) [0..<i]))"
proof
  assume "sprite_key \<lparr>sprite_number = of_nat i, sprite_x = oam gb (4 * i + 1)\<rparr> \<in>
         sprite_key ` set (map (\<lambda>n. \<lparr>sprite_number = of_nat n, sprite_x = oam gb (4 * n + 1)\<rparr>)
                            (filter (sprite_on_line gb) [0..<i]))"
  then obtain j where j: "j < i"
    and eq: "sprite_key \<lparr>sprite_number = of_nat i, sprite_x = oam gb (4 * i + 1)\<rparr> =
             sprite_key \<lparr>sprite_number = of_nat j, sprite_x = oam gb (4 * j + 1)\<rparr>"
    by auto
  have "j < 40" using j assms by simp
  then show False
    using eq j assms by (simp add: sprite_key_oam)
qed

lemma scan_sprites_sorted:
  assumes "k = 40 - i" and "i \<le> 40" and "length arr = 10"
    and "n = min 10 (length (filter (sprite_on_line gb) [0..<i]))"
    and "take n arr =
         take 10 (sort_key sprite_key
           (map (\<lambda>n. \<lparr>sprite_number = of_nat n, sprite_x = oam gb (4 * n + 1)\<rparr>)
              (filter (sprite_on_line gb) [0..<i])))"
  shows "\<exists>arr' n'. scan_sprites gb (arr, n) i = (arr', n') \<and> length arr' = 10 \<and>
           n' = min 10 (length (filter (sprite_on_line gb) [0..<40])) \<and>
           take n' arr' =
           take 10 (sort_key sprite_key
             (map (\<lambda>n. \<lparr>sprite_number = of_nat n, sprite_x = oam gb (4 * n + 1)\<rparr>)
                (filter (sprite_on_line gb) [0..<40])))"
  using assms
proof (induction k arbitrary: i arr n)
  case 0
  then have "i = 40" by simp
  then show ?case
    using 0 by (simp add: scan_sprites.simps [of gb _ 40])
next
  case (Suc k)
  let ?mk = "\<lambda>n. \<lparr>sprite_number = of_nat n, sprite_x = oam gb (4 * n + 1)\<rparr>"
  let ?S = "map ?mk (filter (sprite_on_line gb) [0..<i])"
  have i40: "i < 40" using Suc.prems by simp
  have k: "k = 40 - (i + 1)" using Suc.prems by simp
  have i1: "i + 1 \<le> 40" using i40 by simp
  show ?case
  proof (cases "sprite_on_line gb i")
    case False
    have "scan_sprites gb (arr, n) i = scan_sprites gb (arr, n) (i + 1)"
      using i40 False by (simp add: scan_sprites.simps [of gb _ i])
    moreover have "filter (sprite_on_line gb) [0..<i + 1] = filter (sprite_on_line gb) [0..<i]"
      using False by simp
    ultimately show ?thesis
      using Suc.IH [OF k i1 Suc.prems(3), of n] Suc.prems(4,5) by simp
  next
    case True
    have srt: "sorted (map sprite_key (take n arr))"
      unfolding Suc.prems(5) take_map [symmetric]
      by (rule sorted_wrt_take) (rule sorted_sort_key)
    obtain arr' n' where ins: "insert_sprite (arr, n) (?mk i) = (arr', n')"
      and len': "length arr' = 10" and n': "n' = min 10 (Suc n)"
      and tk: "take n' arr' = take 10 (insort_key sprite_key (?mk i) (take n arr))"
      using insert_sprite_insort [OF Suc.prems(3) _ srt, of "?mk i"] Suc.prems(4) by auto
    have fl: "filter (sprite_on_line gb) [0..<i + 1] = filter (sprite_on_line gb) [0..<i] @ [i]"
      using True by simp
    have "take n' arr' = take 10 (insort_key sprite_key (?mk i) (sort_key sprite_key ?S))"
      unfolding tk Suc.prems(5) by (rule take_insort_key_take)
    also have "\<dots> = take 10 (sort_key sprite_key (?S @ [?mk i]))"
      using sort_key_snoc [OF sprite_key_fresh [OF i40, of gb]] by simp
    finally have tk': "take n' arr' =
        take 10 (sort_key sprite_key (map ?mk (filter (sprite_on_line gb) [0..<i + 1])))"
      unfolding fl by simp
    have n'': "n' = min 10 (length (filter (sprite_on_line gb) [0..<i + 1]))"
      unfolding fl n' Suc.prems(4) by simp
    have "scan_sprites gb (arr, n) i = scan_sprites gb (arr', n') (i + 1)"
      using i40 True ins by (simp add: scan_sprites.simps [of gb _ i])
    then show ?thesis
      using Suc.IH [OF k i1 len' n'' tk'] by simp
  qed
qed

lemma take_strict_sorted_set:
  fixes k :: "'a \<Rightarrow> 'b::linorder"
  shows "sorted_wrt (<) (map k M) \<Longrightarrow>
   set (take m M) = {s \<in> set M. length (filter (\<lambda>t. k t < k s) M) < m}"
proof (induction M arbitrary: m)
  case Nil
  then show ?case by simp
next
  case (Cons y ys)
  have gt: "\<forall>t \<in> set ys. k y < k t" and srt: "sorted_wrt (<) (map k ys)"
    using Cons.prems by simp_all
  have e: "filter (\<lambda>t. k t < k y) ys = []"
    using gt by (auto simp add: filter_empty_conv not_less less_imp_le)
  show ?case
  proof (cases m)
    case 0
    then show ?thesis by simp
  next
    case (Suc m')
    show ?thesis
      unfolding Suc using Cons.IH [OF srt, of m'] gt e by auto
  qed
qed

lemma distinct_map_insort_key:
  "distinct (map k (insort_key k c xs)) \<longleftrightarrow> k c \<notin> k ` set xs \<and> distinct (map k xs)"
  by (induction xs) (auto simp add: set_insort_key)

lemma distinct_map_sort_key:
  "distinct (map k (sort_key k xs)) \<longleftrightarrow> distinct (map k xs)"
  by (induction xs) (simp_all add: distinct_map_insort_key)

lemma sprites_on_line_numbers:
  "map (snd \<circ> sprite_key) (sprites_on_line gb) = filter (sprite_on_line gb) [0..<40]"
proof -
  have "map (\<lambda>n. snd (sprite_key \<lparr>sprite_number = of_nat n, sprite_x = oam gb (4 * n + 1)\<rparr>))
          (filter (sprite_on_line gb) [0..<40]) = filter (sprite_on_line gb) [0..<40]"
    by (rule map_idI) (simp add: sprite_key_oam)
  then show ?thesis
    unfolding sprites_on_line_def by (simp add: comp_def)
qed

lemma sprites_on_line_distinct: "distinct (map sprite_key (sprites_on_line gb))"
proof -
  have "distinct (map snd (map sprite_key (sprites_on_line gb)))"
    using sprites_on_line_numbers [of gb] by simp
  then show ?thesis
    by (auto simp add: distinct_map inj_on_def)
qed

lemma select_sprites_sorted:
  assumes "length uninit = 10"
  shows "select_sprites gb uninit = spec_selected_sprites gb"
proof -
  obtain arr' n' where "scan_sprites gb (uninit, 0) 0 = (arr', n')"
    and "take n' arr' = take 10 (sort_key sprite_key (sprites_on_line gb))"
    using scan_sprites_sorted [of 40 0 uninit 0 gb] assms
    unfolding sprites_on_line_def by auto
  then show ?thesis
    by (simp add: select_sprites_def spec_selected_sprites_def)
qed

lemma spec_selected_sprites_set:
  "set (spec_selected_sprites gb) =
     {s \<in> set (sprites_on_line gb).
        length (filter (\<lambda>t. sprite_key t < sprite_key s) (sprites_on_line gb)) < 10}"
proof -
  have "sorted_wrt (<) (map sprite_key (sort_key sprite_key (sprites_on_line gb)))"
    using sprites_on_line_distinct [of gb]
    by (simp add: strict_sorted_iff distinct_map_sort_key)
  then show ?thesis
    unfolding spec_selected_sprites_def
    by (simp add: take_strict_sorted_set filter_sort)
qed

lemma sprites_on_line_cong:
  assumes "\<forall>n<40. sprite_on_line gb2 n = sprite_on_line gb n \<and>
                   oam gb2 (4 * n + 1) = oam gb (4 * n + 1)"
  shows "sprites_on_line gb2 = sprites_on_line gb"
proof -
  have "filter (sprite_on_line gb2) [0..<40] = filter (sprite_on_line gb) [0..<40]"
    using assms by (intro filter_cong) simp_all
  then show ?thesis
    unfolding sprites_on_line_def using assms by simp
qed

lemma exchange_oam_entry:
  "k < 4 \<Longrightarrow>
   oam (exchange_oam gb i j) (4 * m + k) =
     oam gb (4 * (if m = i then j else if m = j then i else m) + k)"
  by (simp add: exchange_oam_def)

lemma exchange_oam_same:
  assumes "oam gb (4 * i + 1) = oam gb (4 * j + 1)"
    and "sprite_on_line gb i = sprite_on_line gb j"
  shows "sprite_on_line (exchange_oam gb i j) n = sprite_on_line gb n \<and>
         oam (exchange_oam gb i j) (4 * n + 1) = oam gb (4 * n + 1)"
proof -
  have io: "hram_io (exchange_oam gb i j) = hram_io gb"
    by (simp add: exchange_oam_def)
  have "sprite_on_line (exchange_oam gb i j) n =
        sprite_on_line gb (if n = i then j else if n = j then i else n)"
    unfolding sprite_on_line_def io using exchange_oam_entry [of 0 gb i j n] by simp
  moreover have "oam (exchange_oam gb i j) (4 * n + 1) =
        oam gb (4 * (if n = i then j else if n = j then i else n) + 1)"
    by (rule exchange_oam_entry) simp
  ultimately show ?thesis
    using assms by auto
qed

subsection \<open>C7: the sprites chosen for a line\<close>

text \<open>
  C7 (as amended). For every context (every content of OAM, every \<^verbatim>\<open>LY\<close>) and every
  initial content of the local array of ten elements, the scan chooses at most 10
  sprites. They are the first ten of the sprites on the line in the order by X
  coordinate, then by index in OAM, and the array holds them in that order: a
  sprite on the line is chosen exactly when fewer than ten sprites on the line
  come before it in this order. Consequently the indices chosen depend only on
  which entries of OAM are on the line and on their X: a context with the same
  entries on the line at the same X gives the same choice, and so does the
  exchange of two OAM entries of equal X that are both on the line or both off
  the line. (The entries found at the chosen indices may differ after the
  exchange.)
\<close>

theorem sprite_selection_lowest_x_first:
  assumes "length uninit = MAX_SPRITES_LINE"
  shows "length (select_sprites gb uninit) \<le> MAX_SPRITES_LINE \<and>
         select_sprites gb uninit = spec_selected_sprites gb \<and>
         set (select_sprites gb uninit) =
           {s \<in> set (sprites_on_line gb).
              length (filter (\<lambda>t. sprite_key t < sprite_key s) (sprites_on_line gb))
                < MAX_SPRITES_LINE} \<and>
         (\<forall>gb2 uninit2.
            length uninit2 = MAX_SPRITES_LINE \<and>
            (\<forall>n<NUM_SPRITES. sprite_on_line gb2 n = sprite_on_line gb n \<and>
                              oam gb2 (4 * n + 1) = oam gb (4 * n + 1)) \<longrightarrow>
            select_sprites gb2 uninit2 = select_sprites gb uninit) \<and>
         (\<forall>i j. i < NUM_SPRITES \<and> j < NUM_SPRITES \<and>
            oam gb (4 * i + 1) = oam gb (4 * j + 1) \<and>
            sprite_on_line gb i = sprite_on_line gb j \<longrightarrow>
            select_sprites (exchange_oam gb i j) uninit = select_sprites gb uninit)"
proof -
  have eq: "select_sprites gb uninit = spec_selected_sprites gb"
    using assms by (simp add: select_sprites_sorted)
  have "length (spec_selected_sprites gb) \<le> 10"
    by (simp add: spec_selected_sprites_def)
  moreover have cong: "select_sprites gb2 uninit2 = spec_selected_sprites gb"
    if "length uninit2 = 10"
      and "\<forall>n<40. sprite_on_line gb2 n = sprite_on_line gb n \<and>
                    oam gb2 (4 * n + 1) = oam gb (4 * n + 1)"
    for gb2 uninit2
    using that select_sprites_sorted [of uninit2 gb2] sprites_on_line_cong [of gb2 gb]
    by (simp add: spec_selected_sprites_def)
  moreover have "select_sprites (exchange_oam gb i j) uninit = spec_selected_sprites gb"
    if "oam gb (4 * i + 1) = oam gb (4 * j + 1)" "sprite_on_line gb i = sprite_on_line gb j"
    for i j
    using cong [of uninit "exchange_oam gb i j"] assms exchange_oam_same [OF that]
    by simp
  ultimately show ?thesis
    unfolding eq using spec_selected_sprites_set [of gb] by simp
qed

text \<open>
  Twelve sprites on the line, at X = 8 for the odd and X = 16 for the even indices
  (\<open>twelve_sprites_gb\<close>); the entries 0 and 2 differ in their tile number only.
\<close>

lemma twelve_sprites_on_line:
  "sprites_on_line twelve_sprites_gb =
     [\<lparr>sprite_number = 0, sprite_x = 0x10\<rparr>, \<lparr>sprite_number = 1, sprite_x = 0x08\<rparr>,
      \<lparr>sprite_number = 2, sprite_x = 0x10\<rparr>, \<lparr>sprite_number = 3, sprite_x = 0x08\<rparr>,
      \<lparr>sprite_number = 4, sprite_x = 0x10\<rparr>, \<lparr>sprite_number = 5, sprite_x = 0x08\<rparr>,
      \<lparr>sprite_number = 6, sprite_x = 0x10\<rparr>, \<lparr>sprite_number = 7, sprite_x = 0x08\<rparr>,
      \<lparr>sprite_number = 8, sprite_x = 0x10\<rparr>, \<lparr>sprite_number = 9, sprite_x = 0x08\<rparr>,
      \<lparr>sprite_number = 10, sprite_x = 0x10\<rparr>, \<lparr>sprite_number = 11, sprite_x = 0x08\<rparr>]"
  by (simp add: sprites_on_line_def sprite_on_line_def twelve_sprites_gb_def zero_gb_def upt_rec)

lemma twelve_sprites_spec:
  "spec_selected_sprites twelve_sprites_gb =
     [\<lparr>sprite_number = 1, sprite_x = 0x08\<rparr>, \<lparr>sprite_number = 3, sprite_x = 0x08\<rparr>,
      \<lparr>sprite_number = 5, sprite_x = 0x08\<rparr>, \<lparr>sprite_number = 7, sprite_x = 0x08\<rparr>,
      \<lparr>sprite_number = 9, sprite_x = 0x08\<rparr>, \<lparr>sprite_number = 11, sprite_x = 0x08\<rparr>,
      \<lparr>sprite_number = 0, sprite_x = 0x10\<rparr>, \<lparr>sprite_number = 2, sprite_x = 0x10\<rparr>,
      \<lparr>sprite_number = 4, sprite_x = 0x10\<rparr>, \<lparr>sprite_number = 6, sprite_x = 0x10\<rparr>]"
  by (simp add: spec_selected_sprites_def twelve_sprites_on_line sprite_key_def less_eq_prod_def)

lemma twelve_sprites_0_2:
  "oam twelve_sprites_gb (4 * 0 + 1) = oam twelve_sprites_gb (4 * 2 + 1)"
  "sprite_on_line twelve_sprites_gb 0" "sprite_on_line twelve_sprites_gb 2"
  "oam (exchange_oam twelve_sprites_gb 0 2) 2 = 0x02" "oam twelve_sprites_gb 2 = 0x00"
  by (simp_all add: sprite_on_line_def twelve_sprites_gb_def zero_gb_def exchange_oam_def)

text \<open>
  The amended statement on the twelve sprites: the six sprites at X = 8 come
  first, then the first four of those at X = 16; the sprites 8 and 10 are left
  out. The entries 0 and 2 have the same X and are both on the line: their
  exchange changes OAM (the tile number of entry 0) and not the choice.
\<close>

theorem sprite_selection_lowest_x_first_witness:
  "length uninit_sprites = MAX_SPRITES_LINE \<and>
   select_sprites twelve_sprites_gb uninit_sprites =
     [\<lparr>sprite_number = 1, sprite_x = 0x08\<rparr>, \<lparr>sprite_number = 3, sprite_x = 0x08\<rparr>,
      \<lparr>sprite_number = 5, sprite_x = 0x08\<rparr>, \<lparr>sprite_number = 7, sprite_x = 0x08\<rparr>,
      \<lparr>sprite_number = 9, sprite_x = 0x08\<rparr>, \<lparr>sprite_number = 11, sprite_x = 0x08\<rparr>,
      \<lparr>sprite_number = 0, sprite_x = 0x10\<rparr>, \<lparr>sprite_number = 2, sprite_x = 0x10\<rparr>,
      \<lparr>sprite_number = 4, sprite_x = 0x10\<rparr>, \<lparr>sprite_number = 6, sprite_x = 0x10\<rparr>] \<and>
   oam twelve_sprites_gb (4 * 0 + 1) = oam twelve_sprites_gb (4 * 2 + 1) \<and>
   sprite_on_line twelve_sprites_gb 0 = sprite_on_line twelve_sprites_gb 2 \<and>
   oam (exchange_oam twelve_sprites_gb 0 2) 2 \<noteq> oam twelve_sprites_gb 2 \<and>
   select_sprites (exchange_oam twelve_sprites_gb 0 2) uninit_sprites =
     select_sprites twelve_sprites_gb uninit_sprites"
proof -
  have len: "length uninit_sprites = MAX_SPRITES_LINE"
    by (simp add: uninit_sprites_def)
  note th = sprite_selection_lowest_x_first [OF len, of twelve_sprites_gb]
  have 1: "select_sprites twelve_sprites_gb uninit_sprites =
           spec_selected_sprites twelve_sprites_gb"
    using th by simp
  have "\<forall>i j. i < NUM_SPRITES \<and> j < NUM_SPRITES \<and>
            oam twelve_sprites_gb (4 * i + 1) = oam twelve_sprites_gb (4 * j + 1) \<and>
            sprite_on_line twelve_sprites_gb i = sprite_on_line twelve_sprites_gb j \<longrightarrow>
            select_sprites (exchange_oam twelve_sprites_gb i j) uninit_sprites =
              select_sprites twelve_sprites_gb uninit_sprites"
    using th by blast
  from this [rule_format, of 0 2]
  have 2: "select_sprites (exchange_oam twelve_sprites_gb 0 2) uninit_sprites =
           select_sprites twelve_sprites_gb uninit_sprites"
    using twelve_sprites_0_2 by simp
  show ?thesis
    using len 1 2 twelve_sprites_0_2 by (simp only: twelve_sprites_spec) simp
qed

text \<open>
  C7 as stated fails. In \<open>two_sprites_gb\<close> the OAM entries 0 and 5 have the same X;
  entry 0 is on the line and entry 5 is not. The sprite chosen is that of index
  0; after the exchange of the two entries it is that of index 5.
\<close>

theorem sprite_exchange_counterexample:
  "oam two_sprites_gb (4 * 0 + 1) = oam two_sprites_gb (4 * 5 + 1) \<and>
   sprite_on_line two_sprites_gb 0 \<and> \<not> sprite_on_line two_sprites_gb 5 \<and>
   select_sprites two_sprites_gb uninit_sprites = [\<lparr>sprite_number = 0, sprite_x = 0x08\<rparr>] \<and>
   select_sprites (exchange_oam two_sprites_gb 0 5) uninit_sprites =
     [\<lparr>sprite_number = 5, sprite_x = 0x08\<rparr>] \<and>
   select_sprites (exchange_oam two_sprites_gb 0 5) uninit_sprites \<noteq>
     select_sprites two_sprites_gb uninit_sprites"
proof -
  have len: "length uninit_sprites = 10"
    by (simp add: uninit_sprites_def)
  have a: "sprites_on_line two_sprites_gb = [\<lparr>sprite_number = 0, sprite_x = 0x08\<rparr>]"
    by (simp add: sprites_on_line_def sprite_on_line_def two_sprites_gb_def zero_gb_def upt_rec)
  have b: "sprites_on_line (exchange_oam two_sprites_gb 0 5) =
           [\<lparr>sprite_number = 5, sprite_x = 0x08\<rparr>]"
    by (simp add: sprites_on_line_def sprite_on_line_def exchange_oam_def two_sprites_gb_def
        zero_gb_def upt_rec)
  have c: "sprite_on_line two_sprites_gb 0" "\<not> sprite_on_line two_sprites_gb 5"
    "oam two_sprites_gb (4 * 0 + 1) = oam two_sprites_gb (4 * 5 + 1)"
    by (simp_all add: sprite_on_line_def two_sprites_gb_def zero_gb_def)
  show ?thesis
    using c by (simp add: select_sprites_sorted [OF len] spec_selected_sprites_def a b)
qed

end
